theory Spec2Isabelle
  imports Complex_Main "HOL-Library.Char_ord" "HOL-Library.List_Lexorder"
begin

section \<open>Fleet transition optimizer: model builder, constraint generator, decoder\<close>

text \<open>
  A shallow embedding of \<^verbatim>\<open>optimizer.py\<close>. Python floats (prices, rates, distances, the
  solver's values) are modelled by real numbers, Python integers by \<open>int\<close>, dictionaries by
  maps, exceptions by the left summand of a sum type. The data frames are the lists of
  their rows; the MILP solver is a parameter of the pipeline.
\<close>

subsection \<open>Errors and Python primitives\<close>

datatype error = KeyError | ZeroDivisionError

text \<open>\<^verbatim>\<open>d[k]\<close> raises KeyError on a missing key; \<^verbatim>\<open>d.get(k, default)\<close> does not.\<close>

definition lookup :: "('k \<rightharpoonup> 'v) \<Rightarrow> 'k \<Rightarrow> error + 'v" where
  "lookup m k = (case m k of None \<Rightarrow> Inl KeyError | Some v \<Rightarrow> Inr v)"

definition get :: "('k \<rightharpoonup> 'v) \<Rightarrow> 'k \<Rightarrow> 'v \<Rightarrow> 'v" where
  "get m k d = (case m k of None \<Rightarrow> d | Some v \<Rightarrow> v)"

definition bind :: "error + 'a \<Rightarrow> ('a \<Rightarrow> error + 'b) \<Rightarrow> error + 'b" where
  "bind r f = (case r of Inl e \<Rightarrow> Inl e | Inr a \<Rightarrow> f a)"

text \<open>A \<^verbatim>\<open>for\<close> loop whose body may raise: the first exception ends the loop.\<close>

fun for_each :: "'a list \<Rightarrow> ('a \<Rightarrow> 's \<Rightarrow> error + 's) \<Rightarrow> 's \<Rightarrow> error + 's" where
  "for_each [] body st = Inr st"
| "for_each (x # xs) body st =
     (case body x st of Inl e \<Rightarrow> Inl e | Inr st' \<Rightarrow> for_each xs body st')"

text \<open>\<^verbatim>\<open>sorted(column.unique())\<close>: the distinct values in ascending order.\<close>

definition sorted_unique :: "('a::linorder) list \<Rightarrow> 'a list" where
  "sorted_unique xs = sort (remdups xs)"

text \<open>
  \<^verbatim>\<open>int(round(x))\<close>: Python rounds to the nearest integer and a tie to the even
  neighbour.
\<close>

definition py_round :: "real \<Rightarrow> int" where
  "py_round x =
     (let f = \<lfloor>x\<rfloor>; r = x - of_int f
      in if r < 1 / 2 then f
         else if 1 / 2 < r then f + 1
         else if even f then f else f + 1)"

text \<open>
  \<^verbatim>\<open>total_km / needed\<close>. A zero divisor is the error \<open>ZeroDivisionError\<close> here (numpy
  itself answers \<^verbatim>\<open>inf\<close> or \<^verbatim>\<open>nan\<close> with a RuntimeWarning), so that a division by
  zero shows in the result of every function that performs one.
\<close>

definition truediv :: "real \<Rightarrow> int \<Rightarrow> error + real" where
  "truediv a b = (if b = 0 then Inl ZeroDivisionError else Inr (a / of_int b))"

subsection \<open>The optimization model\<close>

text \<open>Bounds of variables and rows: a number, or numpy's \<^verbatim>\<open>-inf\<close> / \<^verbatim>\<open>inf\<close>.\<close>

datatype bnd = NegInf | Fin real | PosInf

text \<open>
  The name of a variable, \<^verbatim>\<open>f"Buy_{t}_{v}_{s}"\<close> and so on, is kept as the tuple the
  format string is filled with.
\<close>

datatype var_name =
    Buy_name int string string
  | Fleet_name int string string int
  | Sell_name int string string int
  | Use_name int string string string string
  | Km_name int string string string string

record OptimizationModel =
  var_names :: "var_name list"
  var_types :: "nat list"
  lbs :: "bnd list"
  ubs :: "bnd list"
  obj_coeffs :: "real list"
  var_map :: "var_name \<rightharpoonup> nat"
  constraints_rows :: "nat list"
  constraints_cols :: "nat list"
  constraints_vals :: "real list"
  constraints_lbs :: "bnd list"
  constraints_ubs :: "bnd list"
  constraint_count :: nat

definition init_model :: OptimizationModel where
  "init_model =
     \<lparr>var_names = [], var_types = [], lbs = [], ubs = [], obj_coeffs = [],
      var_map = Map.empty,
      constraints_rows = [], constraints_cols = [], constraints_vals = [],
      constraints_lbs = [], constraints_ubs = [], constraint_count = 0\<rparr>"

definition add_variable ::
  "OptimizationModel \<Rightarrow> var_name \<Rightarrow> string \<Rightarrow> bnd \<Rightarrow> bnd \<Rightarrow> real \<Rightarrow> nat \<times> OptimizationModel"
where
  "add_variable m name var_type lb ub obj =
     (let idx = length (var_names m)
      in (idx,
          m\<lparr>var_names := var_names m @ [name],
            var_types := var_types m @ [if var_type = ''integer'' then 1 else 0],
            lbs := lbs m @ [lb],
            ubs := ubs m @ [ub],
            obj_coeffs := obj_coeffs m @ [obj],
            var_map := (var_map m)(name \<mapsto> idx)\<rparr>))"

text \<open>One \<open>(coeff, var_idx)\<close> pair of a row goes to the three coordinate lists.\<close>

definition add_term :: "nat \<Rightarrow> real \<times> nat \<Rightarrow> OptimizationModel \<Rightarrow> OptimizationModel" where
  "add_term row_idx term m =
     m\<lparr>constraints_rows := constraints_rows m @ [row_idx],
       constraints_cols := constraints_cols m @ [snd term],
       constraints_vals := constraints_vals m @ [fst term]\<rparr>"

definition add_constraint ::
  "OptimizationModel \<Rightarrow> (real \<times> nat) list \<Rightarrow> string \<Rightarrow> real \<Rightarrow> OptimizationModel"
where
  "add_constraint m terms sense rhs =
     (let row_idx = constraint_count m;
          m1 = m\<lparr>constraint_count := row_idx + 1\<rparr>;
          m2 = fold (add_term row_idx) terms m1
      in if sense = ''=='' then
           m2\<lparr>constraints_lbs := constraints_lbs m2 @ [Fin rhs],
              constraints_ubs := constraints_ubs m2 @ [Fin rhs]\<rparr>
         else if sense = ''<='' then
           m2\<lparr>constraints_lbs := constraints_lbs m2 @ [NegInf],
              constraints_ubs := constraints_ubs m2 @ [Fin rhs]\<rparr>
         else if sense = ''>='' then
           m2\<lparr>constraints_lbs := constraints_lbs m2 @ [Fin rhs],
              constraints_ubs := constraints_ubs m2 @ [PosInf]\<rparr>
         else m2)"

subsection \<open>Input tables and the parameter index\<close>

text \<open>
  The rows of the six CSV files. A row of \<^verbatim>\<open>vehicles_fuels\<close> carries its \<^verbatim>\<open>id\<close>
  already split at the underscores into vehicle type, size and year.
\<close>

record data =
  carbon_emissions :: "(int \<times> real) list"
  demand :: "(int \<times> string \<times> string \<times> real) list"
  vehicles :: "(string \<times> string \<times> int \<times> real \<times> real) list"
  fuels :: "(string \<times> int \<times> real \<times> real) list"
  vehicles_fuels :: "(string \<times> string \<times> int \<times> string \<times> real) list"
  cost_profiles :: "(int \<times> real \<times> real \<times> real) list"

text \<open>\<^verbatim>\<open>set_index(keys)[column].to_dict()\<close>: of two rows with one key the later one stays.\<close>

definition to_dict :: "('k \<times> 'v) list \<Rightarrow> ('k \<rightharpoonup> 'v)" where
  "to_dict rows = map_of (rev rows)"

record params =
  years :: "int list"
  sizes :: "string list"
  distances :: "string list"
  vehicle_types :: "string list"
  fuel_names :: "string list"
  demand_dict :: "(int \<times> string \<times> string) \<rightharpoonup> real"
  emission_targets :: "int \<rightharpoonup> real"
  vehicle_cost :: "(string \<times> string \<times> int) \<rightharpoonup> real"
  vehicle_range :: "(string \<times> string \<times> int) \<rightharpoonup> real"
  fuel_cost :: "(string \<times> int) \<rightharpoonup> real"
  fuel_emissions :: "(string \<times> int) \<rightharpoonup> real"
  consumption :: "(string \<times> string \<times> int \<times> string) \<rightharpoonup> real"
  resale_profile :: "int \<rightharpoonup> real"
  insurance_profile :: "int \<rightharpoonup> real"
  maintenance_profile :: "int \<rightharpoonup> real"

definition build_index :: "data \<Rightarrow> params" where
  "build_index d =
     \<lparr>years = sorted_unique (map fst (carbon_emissions d)),
      sizes = sorted_unique (map (\<lambda>(y, s, dist, dem). s) (demand d)),
      distances = sorted_unique (map (\<lambda>(y, s, dist, dem). dist) (demand d)),
      vehicle_types = sorted_unique (map fst (vehicles d)),
      fuel_names = sorted_unique (map fst (fuels d)),
      demand_dict = to_dict (map (\<lambda>(y, s, dist, dem). ((y, s, dist), dem)) (demand d)),
      emission_targets = to_dict (carbon_emissions d),
      vehicle_cost = to_dict (map (\<lambda>(v, s, y, cost, rng). ((v, s, y), cost)) (vehicles d)),
      vehicle_range = to_dict (map (\<lambda>(v, s, y, cost, rng). ((v, s, y), rng)) (vehicles d)),
      fuel_cost = to_dict (map (\<lambda>(f, y, cost, emis). ((f, y), cost)) (fuels d)),
      fuel_emissions = to_dict (map (\<lambda>(f, y, cost, emis). ((f, y), emis)) (fuels d)),
      consumption = to_dict (map (\<lambda>(v, s, y, f, c). ((v, s, y, f), c)) (vehicles_fuels d)),
      resale_profile = to_dict (map (\<lambda>(a, rs, ins, mnt). (a, rs)) (cost_profiles d)),
      insurance_profile = to_dict (map (\<lambda>(a, rs, ins, mnt). (a, ins)) (cost_profiles d)),
      maintenance_profile = to_dict (map (\<lambda>(a, rs, ins, mnt). (a, mnt)) (cost_profiles d))\<rparr>"

subsection \<open>Model builder: the decision variables\<close>

text \<open>The model under construction with the five index dictionaries of the builder.\<close>

record builder =
  model :: OptimizationModel
  buy_vars :: "(int \<times> string \<times> string) \<rightharpoonup> nat"
  sell_vars :: "(int \<times> string \<times> string \<times> int) \<rightharpoonup> nat"
  use_vars :: "(int \<times> string \<times> string \<times> string \<times> string) \<rightharpoonup> nat"
  km_vars :: "(int \<times> string \<times> string \<times> string \<times> string) \<rightharpoonup> nat"
  fleet_vars :: "(int \<times> string \<times> string \<times> int) \<rightharpoonup> nat"

definition init_builder :: builder where
  "init_builder =
     \<lparr>model = init_model, buy_vars = Map.empty, sell_vars = Map.empty,
      use_vars = Map.empty, km_vars = Map.empty, fleet_vars = Map.empty\<rparr>"

definition new_buy :: "params \<Rightarrow> int \<Rightarrow> string \<Rightarrow> string \<Rightarrow> builder \<Rightarrow> builder" where
  "new_buy p t v s st =
     (let cost = get (vehicle_cost p) (v, s, t) 0;
          (idx, m) = add_variable (model st) (Buy_name t v s) ''continuous'' (Fin 0) PosInf cost
      in st\<lparr>model := m, buy_vars := (buy_vars st)((t, v, s) \<mapsto> idx)\<rparr>)"

definition new_fleet :: "params \<Rightarrow> int \<Rightarrow> string \<Rightarrow> string \<Rightarrow> int \<Rightarrow> builder \<Rightarrow> builder" where
  "new_fleet p t v s age st =
     (if 2023 \<le> t - age then
        (let year_bought = t - age;
             price = get (vehicle_cost p) (v, s, year_bought) 0;
             maint_rate = get (maintenance_profile p) age 0 / 100;
             ins_rate = get (insurance_profile p) age 0 / 100;
             holding_cost = price * (maint_rate + ins_rate);
             (idx, m) = add_variable (model st) (Fleet_name t v s age) ''continuous''
                          (Fin 0) PosInf holding_cost
         in st\<lparr>model := m, fleet_vars := (fleet_vars st)((t, v, s, age) \<mapsto> idx)\<rparr>)
      else st)"

definition new_sell :: "params \<Rightarrow> int \<Rightarrow> string \<Rightarrow> string \<Rightarrow> int \<Rightarrow> builder \<Rightarrow> builder" where
  "new_sell p t v s age st =
     (if 2023 \<le> t - age then
        (let year_bought = t - age;
             price = get (vehicle_cost p) (v, s, year_bought) 0;
             resale_rate = get (resale_profile p) age 0 / 100;
             resale_value = - 1 * price * resale_rate;
             (idx, m) = add_variable (model st) (Sell_name t v s age) ''continuous''
                          (Fin 0) PosInf resale_value
         in st\<lparr>model := m, sell_vars := (sell_vars st)((t, v, s, age) \<mapsto> idx)\<rparr>)
      else st)"

definition new_use_km ::
  "params \<Rightarrow> int \<Rightarrow> string \<Rightarrow> string \<Rightarrow> string \<Rightarrow> string \<Rightarrow> builder \<Rightarrow> builder"
where
  "new_use_km p t v s d f st =
     (case consumption p (v, s, t, f) of
        None \<Rightarrow> st
      | Some cons \<Rightarrow>
         (let (iu, m1) = add_variable (model st) (Use_name t v s d f) ''continuous''
                           (Fin 0) PosInf 0;
              f_cost = get (fuel_cost p) (f, t) 0;
              cost_per_km = cons * f_cost;
              (ik, m2) = add_variable m1 (Km_name t v s d f) ''continuous''
                           (Fin 0) PosInf cost_per_km
          in st\<lparr>model := m2,
                use_vars := (use_vars st)((t, v, s, d, f) \<mapsto> iu),
                km_vars := (km_vars st)((t, v, s, d, f) \<mapsto> ik)\<rparr>))"

definition class_vars :: "params \<Rightarrow> int \<Rightarrow> string \<Rightarrow> string \<Rightarrow> builder \<Rightarrow> builder" where
  "class_vars p t v s st =
     fold (\<lambda>d. fold (\<lambda>f. new_use_km p t v s d f) (fuel_names p)) (distances p)
       (fold (new_sell p t v s) [1 .. 10]
          (fold (new_fleet p t v s) [0 .. 10]
             (new_buy p t v s st)))"

definition create_variables :: "params \<Rightarrow> builder" where
  "create_variables p =
     fold (\<lambda>t. fold (\<lambda>v. fold (\<lambda>s. class_vars p t v s) (sizes p)) (vehicle_types p))
       (years p) init_builder"

subsection \<open>Constraint generator\<close>

text \<open>
  The dictionaries of the builder are only read from here on; the model is threaded
  through the loops. Every \<^verbatim>\<open>d[k]\<close> of the source is a \<open>lookup\<close>.
\<close>

text \<open>Fleet dynamics, age 0: \<^verbatim>\<open>Fleet(t, 0) - Buy(t) == 0\<close>.\<close>

definition age0_constraint ::
  "builder \<Rightarrow> int \<Rightarrow> string \<Rightarrow> string \<Rightarrow> OptimizationModel \<Rightarrow> error + OptimizationModel"
where
  "age0_constraint vs t v s m =
     bind (lookup (fleet_vars vs) (t, v, s, 0)) (\<lambda>fi.
     bind (lookup (buy_vars vs) (t, v, s)) (\<lambda>bi.
     Inr (add_constraint m [(1, fi), (- 1, bi)] ''=='' 0)))"

text \<open>Fleet dynamics, ages 1 to 10.\<close>

definition aging_constraint ::
  "builder \<Rightarrow> int \<Rightarrow> string \<Rightarrow> string \<Rightarrow> int \<Rightarrow> OptimizationModel \<Rightarrow> error + OptimizationModel"
where
  "aging_constraint vs t v s age m =
     (if 2023 \<le> t - age then
        bind (lookup (fleet_vars vs) (t, v, s, age)) (\<lambda>fi.
        bind (lookup (sell_vars vs) (t, v, s, age)) (\<lambda>si.
        bind (if 2023 < t
              then bind (lookup (fleet_vars vs) (t - 1, v, s, age - 1)) (\<lambda>fp.
                     Inr ([(1, fi), (1, si)] @ [(- 1, fp)]))
              else Inr [(1, fi), (1, si)]) (\<lambda>terms.
        let m1 = add_constraint m terms ''=='' 0
        in if 2023 < t then
             bind (lookup (sell_vars vs) (t, v, s, age)) (\<lambda>si'.
             bind (lookup (fleet_vars vs) (t - 1, v, s, age - 1)) (\<lambda>fp'.
             Inr (add_constraint m1 [(1, si'), (- 1, fp')] ''<='' 0)))
           else Inr m1)))
      else Inr m)"

definition fleet_dynamics ::
  "params \<Rightarrow> builder \<Rightarrow> OptimizationModel \<Rightarrow> error + OptimizationModel"
where
  "fleet_dynamics p vs =
     for_each (years p) (\<lambda>t.
       for_each (vehicle_types p) (\<lambda>v.
         for_each (sizes p) (\<lambda>s m.
           bind (age0_constraint vs t v s m)
             (for_each [1 .. 10] (aging_constraint vs t v s)))))"

text \<open>Demand satisfaction: \<^verbatim>\<open>Sum(Km) == Demand\<close>, then \<^verbatim>\<open>Km <= Use * Range\<close>.\<close>

definition demand_terms ::
  "params \<Rightarrow> builder \<Rightarrow> int \<Rightarrow> string \<Rightarrow> string \<Rightarrow> (real \<times> nat) list"
where
  "demand_terms p vs t s d =
     fold (\<lambda>v. fold (\<lambda>f terms.
             case km_vars vs (t, v, s, d, f) of
               None \<Rightarrow> terms
             | Some ik \<Rightarrow> terms @ [(1, ik)]) (fuel_names p))
       (vehicle_types p) []"

definition link_constraint ::
  "params \<Rightarrow> builder \<Rightarrow> int \<Rightarrow> string \<Rightarrow> string \<Rightarrow> string \<Rightarrow> string \<Rightarrow>
   OptimizationModel \<Rightarrow> error + OptimizationModel"
where
  "link_constraint p vs t s d v f m =
     (case km_vars vs (t, v, s, d, f) of
        None \<Rightarrow> Inr m
      | Some ik \<Rightarrow>
          (let rng = get (vehicle_range p) (v, s, t) 0
           in bind (lookup (use_vars vs) (t, v, s, d, f)) (\<lambda>iu.
                Inr (add_constraint m [(1, ik), (- rng, iu)] ''<='' 0))))"

definition demand_cell ::
  "params \<Rightarrow> builder \<Rightarrow> int \<Rightarrow> string \<Rightarrow> string \<Rightarrow> OptimizationModel \<Rightarrow> error + OptimizationModel"
where
  "demand_cell p vs t s d m =
     (let terms = demand_terms p vs t s d
      in bind (lookup (demand_dict p) (t, s, d)) (\<lambda>dem.
           for_each (vehicle_types p) (\<lambda>v.
             for_each (fuel_names p) (link_constraint p vs t s d v))
             (add_constraint m terms ''=='' dem)))"

definition demand_satisfaction ::
  "params \<Rightarrow> builder \<Rightarrow> OptimizationModel \<Rightarrow> error + OptimizationModel"
where
  "demand_satisfaction p vs =
     for_each (years p) (\<lambda>t.
       for_each (sizes p) (\<lambda>s.
         for_each (distances p) (demand_cell p vs t s)))"

text \<open>Usage limit: \<^verbatim>\<open>Sum(Use) - Sum(Fleet) <= 0\<close>.\<close>

definition use_terms ::
  "params \<Rightarrow> builder \<Rightarrow> int \<Rightarrow> string \<Rightarrow> string \<Rightarrow> (real \<times> nat) list"
where
  "use_terms p vs t v s =
     fold (\<lambda>d. fold (\<lambda>f terms.
             case use_vars vs (t, v, s, d, f) of
               None \<Rightarrow> terms
             | Some iu \<Rightarrow> terms @ [(1, iu)]) (fuel_names p))
       (distances p) []"

definition fleet_terms :: "builder \<Rightarrow> int \<Rightarrow> string \<Rightarrow> string \<Rightarrow> (real \<times> nat) list" where
  "fleet_terms vs t v s =
     fold (\<lambda>age terms.
             case fleet_vars vs (t, v, s, age) of
               None \<Rightarrow> terms
             | Some fi \<Rightarrow> terms @ [(- 1, fi)])
       [0 .. 10] []"

definition usage_limit :: "params \<Rightarrow> builder \<Rightarrow> OptimizationModel \<Rightarrow> OptimizationModel" where
  "usage_limit p vs =
     fold (\<lambda>t. fold (\<lambda>v. fold (\<lambda>s m.
             add_constraint m (use_terms p vs t v s @ fleet_terms vs t v s) ''<='' 0)
           (sizes p)) (vehicle_types p))
       (years p)"

text \<open>Emission targets: one row per year over the Km variables of that year.\<close>

definition emission_term ::
  "params \<Rightarrow> builder \<Rightarrow> int \<Rightarrow> string \<Rightarrow> string \<Rightarrow> string \<Rightarrow> string \<Rightarrow>
   (real \<times> nat) list \<Rightarrow> error + (real \<times> nat) list"
where
  "emission_term p vs t v s d f terms =
     (case km_vars vs (t, v, s, d, f) of
        None \<Rightarrow> Inr terms
      | Some ik \<Rightarrow>
          bind (lookup (consumption p) (v, s, t, f)) (\<lambda>cons.
          let emis = get (fuel_emissions p) (f, t) 0;
              coeff = cons * emis
          in Inr (terms @ [(coeff, ik)])))"

definition emission_terms ::
  "params \<Rightarrow> builder \<Rightarrow> int \<Rightarrow> error + (real \<times> nat) list"
where
  "emission_terms p vs t =
     for_each (vehicle_types p) (\<lambda>v.
       for_each (sizes p) (\<lambda>s.
         for_each (distances p) (\<lambda>d.
           for_each (fuel_names p) (emission_term p vs t v s d)))) []"

definition emission_year ::
  "params \<Rightarrow> builder \<Rightarrow> int \<Rightarrow> OptimizationModel \<Rightarrow> error + OptimizationModel"
where
  "emission_year p vs t m =
     bind (emission_terms p vs t) (\<lambda>terms.
     bind (lookup (emission_targets p) t) (\<lambda>cap.
     Inr (add_constraint m terms ''<='' cap)))"

definition emission_caps ::
  "params \<Rightarrow> builder \<Rightarrow> OptimizationModel \<Rightarrow> error + OptimizationModel"
where
  "emission_caps p vs = for_each (years p) (emission_year p vs)"

definition add_constraints ::
  "params \<Rightarrow> builder \<Rightarrow> OptimizationModel \<Rightarrow> error + OptimizationModel"
where
  "add_constraints p vs m =
     bind (fleet_dynamics p vs m) (\<lambda>m1.
     bind (demand_satisfaction p vs m1) (\<lambda>m2.
     emission_caps p vs (usage_limit p vs m2)))"

text \<open>The model that \<^verbatim>\<open>solve_optimization\<close> hands to the solver.\<close>

definition build_model :: "params \<Rightarrow> error + (builder \<times> OptimizationModel)" where
  "build_model p =
     (let vs = create_variables p
      in bind (add_constraints p vs (model vs)) (\<lambda>m. Inr (vs, m)))"

subsection \<open>Solver adapter\<close>

text \<open>
  What \<^verbatim>\<open>milp\<close> returns: the success flag, the message and the vector \<^verbatim>\<open>res.x\<close>. The
  vector has one entry per variable and every index read below was handed out by
  \<open>add_variable\<close>; it is modelled by a function on indices.
\<close>

record solve_result =
  success :: bool
  message :: string
  res_x :: "nat \<Rightarrow> real"

type_synonym milp = "OptimizationModel \<Rightarrow> solve_result"

text \<open>The lines the run prints.\<close>

datatype printed =
    Loading_data
  | Data_loaded
  | Creating_variables
  | Adding_constraints
  | Solving_with nat nat
  | Solver_status bool string
  | Optimization_failed
  | Submission_saved

definition solve :: "milp \<Rightarrow> OptimizationModel \<Rightarrow> printed list \<times> solve_result" where
  "solve solver m =
     ([Solving_with (length (var_names m)) (constraint_count m)], solver m)"

subsection \<open>Solution decoder\<close>

datatype action = Buy | Sell | Use

text \<open>
  A row of the submission. The batch identifier \<^verbatim>\<open>f"{v}_{s}_{year}"\<close> is kept as the
  triple it is formatted from; the empty \<^verbatim>\<open>distance_per_vehicle\<close> of a Buy or Sell row
  is \<open>None\<close>.
\<close>

type_synonym batch_id = "string \<times> string \<times> int"

record plan_row =
  year :: int
  vid :: batch_id
  num_vehicles :: int
  row_type :: action
  fuel :: string
  distance_bucket :: string
  distance_per_vehicle :: "real option"

definition buy_row :: "int \<Rightarrow> batch_id \<Rightarrow> int \<Rightarrow> plan_row" where
  "buy_row t i val =
     \<lparr>year = t, vid = i, num_vehicles = val, row_type = Buy,
      fuel = [], distance_bucket = [], distance_per_vehicle = None\<rparr>"

definition sell_row :: "int \<Rightarrow> batch_id \<Rightarrow> int \<Rightarrow> plan_row" where
  "sell_row t i val =
     \<lparr>year = t, vid = i, num_vehicles = val, row_type = Sell,
      fuel = [], distance_bucket = [], distance_per_vehicle = None\<rparr>"

definition use_row :: "int \<Rightarrow> string \<Rightarrow> string \<Rightarrow> real \<Rightarrow> batch_id \<Rightarrow> int \<Rightarrow> plan_row" where
  "use_row t d f avg_km i n =
     \<lparr>year = t, vid = i, num_vehicles = n, row_type = Use,
      fuel = f, distance_bucket = d, distance_per_vehicle = Some avg_km\<rparr>"

text \<open>First pass: the Buy and Sell rows of one year and vehicle class.\<close>

definition sell_rows ::
  "builder \<Rightarrow> (nat \<Rightarrow> real) \<Rightarrow> int \<Rightarrow> string \<Rightarrow> string \<Rightarrow> int \<Rightarrow> plan_row list \<Rightarrow> plan_row list"
where
  "sell_rows vs x t v s age submission_rows =
     (case sell_vars vs (t, v, s, age) of
        None \<Rightarrow> submission_rows
      | Some idx \<Rightarrow>
          (let val = py_round (x idx)
           in if 0 < val then submission_rows @ [sell_row t (v, s, t - age) val]
              else submission_rows))"

definition buy_sell_rows ::
  "builder \<Rightarrow> (nat \<Rightarrow> real) \<Rightarrow> int \<Rightarrow> string \<Rightarrow> string \<Rightarrow> plan_row list \<Rightarrow>
   error + plan_row list"
where
  "buy_sell_rows vs x t v s submission_rows =
     bind (lookup (buy_vars vs) (t, v, s)) (\<lambda>idx.
     let val = py_round (x idx);
         rows1 = (if 0 < val then submission_rows @ [buy_row t (v, s, t) val]
                  else submission_rows)
     in Inr (fold (sell_rows vs x t v s) [1 .. 10] rows1))"

text \<open>
  Second pass. The pool of a vehicle class is a list of batches with their remaining
  counts: the fleet at the end of the year before, by age, then the year's purchase.
\<close>

type_synonym pool = "(batch_id \<times> int) list"

definition carried_over ::
  "builder \<Rightarrow> (nat \<Rightarrow> real) \<Rightarrow> int \<Rightarrow> string \<Rightarrow> string \<Rightarrow> int \<Rightarrow> pool \<Rightarrow> pool"
where
  "carried_over vs x t v s age pool =
     (case fleet_vars vs (t - 1, v, s, age) of
        None \<Rightarrow> pool
      | Some idx \<Rightarrow>
          (let count = py_round (x idx)
           in if 0 < count then pool @ [((v, s, (t - 1) - age), count)] else pool))"

definition class_pool ::
  "builder \<Rightarrow> (nat \<Rightarrow> real) \<Rightarrow> int \<Rightarrow> string \<Rightarrow> string \<Rightarrow>
   (string \<times> string \<rightharpoonup> pool) \<Rightarrow> error + (string \<times> string \<rightharpoonup> pool)"
where
  "class_pool vs x t v s fleet_pool =
     (let pool1 = (if 2023 < t then fold (carried_over vs x t v s) [0 .. 10] [] else [])
      in bind (lookup (buy_vars vs) (t, v, s)) (\<lambda>idx.
         let bought = py_round (x idx);
             pool2 = (if 0 < bought then pool1 @ [((v, s, t), bought)] else pool1)
         in Inr (fleet_pool((v, s) \<mapsto> pool2))))"

text \<open>
  The loop over the items of a pool: it returns the rows appended to the submission and
  the pool with its counts decremented.
\<close>

fun allocate ::
  "int \<Rightarrow> string \<Rightarrow> string \<Rightarrow> real \<Rightarrow> pool \<Rightarrow> int \<Rightarrow> plan_row list \<times> pool"
where
  "allocate t d f avg_km [] remaining_needed = ([], [])"
| "allocate t d f avg_km ((i, count) # items) remaining_needed =
     (if 0 < count \<and> 0 < remaining_needed then
        (let take = min count remaining_needed;
             (rows, items') = allocate t d f avg_km items (remaining_needed - take)
         in (use_row t d f avg_km i take # rows, (i, count - take) # items'))
      else
        (let (rows, items') = allocate t d f avg_km items remaining_needed
         in (rows, (i, count) # items')))"

definition assign_task ::
  "builder \<Rightarrow> (nat \<Rightarrow> real) \<Rightarrow> int \<Rightarrow> string \<Rightarrow> string \<Rightarrow> string \<Rightarrow> string \<Rightarrow>
   plan_row list \<times> (string \<times> string \<rightharpoonup> pool) \<Rightarrow>
   error + plan_row list \<times> (string \<times> string \<rightharpoonup> pool)"
where
  "assign_task vs x t v s d f st =
     (case use_vars vs (t, v, s, d, f) of
        None \<Rightarrow> Inr st
      | Some idx_use \<Rightarrow>
          bind (lookup (km_vars vs) (t, v, s, d, f)) (\<lambda>idx_km.
          let needed = py_round (x idx_use);
              total_km = x idx_km
          in if 0 < needed then
               bind (truediv total_km needed) (\<lambda>avg_km.
               case snd st (v, s) of
                 None \<Rightarrow> Inr (fst st @ fst (allocate t d f avg_km [] needed), snd st)
               | Some pool \<Rightarrow>
                   (let (rows, pool') = allocate t d f avg_km pool needed
                    in Inr (fst st @ rows, (snd st)((v, s) \<mapsto> pool'))))
             else Inr st))"

definition year_use ::
  "params \<Rightarrow> builder \<Rightarrow> (nat \<Rightarrow> real) \<Rightarrow> int \<Rightarrow> plan_row list \<Rightarrow> error + plan_row list"
where
  "year_use p vs x t final_submission =
     bind (for_each (vehicle_types p) (\<lambda>v.
             for_each (sizes p) (class_pool vs x t v)) Map.empty) (\<lambda>fleet_pool.
     bind (for_each (vehicle_types p) (\<lambda>v.
             for_each (sizes p) (\<lambda>s.
               for_each (distances p) (\<lambda>d.
                 for_each (fuel_names p) (assign_task vs x t v s d))))
             (final_submission, fleet_pool)) (\<lambda>st.
     Inr (fst st)))"

definition decode ::
  "params \<Rightarrow> builder \<Rightarrow> (nat \<Rightarrow> real) \<Rightarrow> error + plan_row list"
where
  "decode p vs x =
     bind (for_each (years p) (\<lambda>t.
             for_each (vehicle_types p) (\<lambda>v.
               for_each (sizes p) (buy_sell_rows vs x t v))) []) (\<lambda>submission_rows.
     for_each (years p) (year_use p vs x) submission_rows)"

subsection \<open>The pipeline\<close>

text \<open>
  What a run leaves behind when no exception ends it: the lines it printed and the rows
  handed to the writer of \<^verbatim>\<open>submission.csv\<close> (\<open>None\<close> when the function returned
  before writing). The function itself returns nothing in either case. A data frame built
  from an empty list of rows has no columns, so that selecting the seven columns of the
  submission from it raises KeyError.
\<close>

record run =
  stdout :: "printed list"
  submission :: "plan_row list option"

definition solve_optimization :: "data \<Rightarrow> milp \<Rightarrow> error + run" where
  "solve_optimization d solver =
     (let p = build_index d
      in bind (build_model p) (\<lambda>(vs, m).
         let (out, res) = solve solver m;
             log = [Loading_data, Data_loaded, Creating_variables, Adding_constraints]
                     @ out @ [Solver_status (success res) (message res)]
         in if \<not> success res then
              Inr \<lparr>stdout = log @ [Optimization_failed], submission = None\<rparr>
            else
              bind (decode p vs (res_x res)) (\<lambda>final_submission.
              if final_submission = [] then Inl KeyError
              else Inr \<lparr>stdout = log @ [Submission_saved],
                        submission = Some final_submission\<rparr>)))"

subsection \<open>The rows handed to the solver\<close>

text \<open>
  \<^verbatim>\<open>solve\<close> builds a sparse matrix from the three coordinate lists and pairs it with
  the lists of lower and upper bounds. Row \<open>i\<close> of that matrix holds the coefficients
  stored with row index \<open>i\<close>; the statements below read the model through these rows.
\<close>

definition row_terms :: "OptimizationModel \<Rightarrow> nat \<Rightarrow> (real \<times> nat) list" where
  "row_terms m i =
     map (\<lambda>(r, c, a). (a, c))
       (filter (\<lambda>(r, c, a). r = i)
          (zip (constraints_rows m) (zip (constraints_cols m) (constraints_vals m))))"

definition rows_of :: "OptimizationModel \<Rightarrow> ((real \<times> nat) list \<times> bnd \<times> bnd) list" where
  "rows_of m =
     map (\<lambda>i. (row_terms m i, constraints_lbs m ! i, constraints_ubs m ! i))
       [0 ..< constraint_count m]"

definition wf_rows :: "OptimizationModel \<Rightarrow> bool" where
  "wf_rows m \<longleftrightarrow>
     length (constraints_cols m) = length (constraints_rows m) \<and>
     length (constraints_vals m) = length (constraints_rows m) \<and>
     length (constraints_lbs m) = constraint_count m \<and>
     length (constraints_ubs m) = constraint_count m \<and>
     list_all (\<lambda>r. r < constraint_count m) (constraints_rows m)"

definition sense_bounds :: "string \<Rightarrow> real \<Rightarrow> bnd \<times> bnd" where
  "sense_bounds sense rhs =
     (if sense = ''=='' then (Fin rhs, Fin rhs)
      else if sense = ''<='' then (NegInf, Fin rhs) else (Fin rhs, PosInf))"

text \<open>
  An assignment \<open>x\<close> is feasible for a model when the value of every row lies within
  the bounds of the row and every variable within its own bounds.
\<close>

fun lower_ok :: "bnd \<Rightarrow> real \<Rightarrow> bool" where
  "lower_ok NegInf a = True"
| "lower_ok (Fin l) a = (l \<le> a)"
| "lower_ok PosInf a = False"

fun upper_ok :: "bnd \<Rightarrow> real \<Rightarrow> bool" where
  "upper_ok PosInf a = True"
| "upper_ok (Fin u) a = (a \<le> u)"
| "upper_ok NegInf a = False"

definition row_value :: "(nat \<Rightarrow> real) \<Rightarrow> (real \<times> nat) list \<Rightarrow> real" where
  "row_value x terms = sum_list (map (\<lambda>(coeff, var_idx). coeff * x var_idx) terms)"

definition feasible :: "OptimizationModel \<Rightarrow> (nat \<Rightarrow> real) \<Rightarrow> bool" where
  "feasible m x \<longleftrightarrow>
     list_all (\<lambda>(terms, lb, ub). lower_ok lb (row_value x terms) \<and> upper_ok ub (row_value x terms))
       (rows_of m) \<and>
     list_all (\<lambda>i. lower_ok (lbs m ! i) (x i) \<and> upper_ok (ubs m ! i) (x i))
       [0 ..< length (var_names m)]"

text \<open>
  The solver minimises the product of the objective coefficients with the assignment. An
  assignment is optimal when it is feasible and no feasible assignment has a smaller
  objective.
\<close>

definition objective :: "OptimizationModel \<Rightarrow> (nat \<Rightarrow> real) \<Rightarrow> real" where
  "objective m x = sum_list (map (\<lambda>i. obj_coeffs m ! i * x i) [0 ..< length (var_names m)])"

definition optimal :: "OptimizationModel \<Rightarrow> (nat \<Rightarrow> real) \<Rightarrow> bool" where
  "optimal m x \<longleftrightarrow> feasible m x \<and> \<not> (\<exists>y. feasible m y \<and> objective m y < objective m x)"

subsection \<open>Properties of rows and pools\<close>

text \<open>
  The duty of a Use row is the variable \<open>Use\<close> of its year, vehicle class, distance
  bucket and fuel; \<open>duty_positive\<close> says that this variable exists and rounds to a
  positive count. The pool stored for a vehicle class holds batches of that class only.
\<close>

definition duty_positive :: "builder \<Rightarrow> (nat \<Rightarrow> real) \<Rightarrow> plan_row \<Rightarrow> bool" where
  "duty_positive vs x r \<longleftrightarrow>
     (\<exists>iu. use_vars vs (year r, fst (vid r), fst (snd (vid r)), distance_bucket r, fuel r) = Some iu
           \<and> 0 < py_round (x iu))"

definition use_rows :: "(plan_row \<Rightarrow> bool) \<Rightarrow> plan_row list \<Rightarrow> bool" where
  "use_rows P rows = list_all (\<lambda>r. row_type r = Use \<longrightarrow> P r) rows"

definition pool_of_class :: "string \<Rightarrow> string \<Rightarrow> pool \<Rightarrow> bool" where
  "pool_of_class v s items = list_all (\<lambda>(i, c). fst i = v \<and> fst (snd i) = s) items"

definition pools_by_class :: "(string \<times> string \<rightharpoonup> pool) \<Rightarrow> bool" where
  "pools_by_class fleet_pool \<longleftrightarrow>
     (\<forall>v s items. fleet_pool (v, s) = Some items \<longrightarrow> pool_of_class v s items)"

subsection \<open>What the builder keeps true\<close>

text \<open>
  An entry of the Use dictionary comes with a Km entry under the same key; both point at
  variables of the model with the right names and objective coefficients, and the key is
  one the loops have visited with a consumption entry. \<open>more_variables\<close> relates a
  builder state to a later one that has only appended variables.
\<close>

type_synonym duty_key = "int \<times> string \<times> string \<times> string \<times> string"

definition use_km_entry ::
  "params \<Rightarrow> OptimizationModel \<Rightarrow> duty_key \<Rightarrow> nat option \<Rightarrow> nat option \<Rightarrow> bool"
where
  "use_km_entry p m k u km =
     (case u of
        None \<Rightarrow> km = None
      | Some iu \<Rightarrow>
          (case k of (t, v, s, d, f) \<Rightarrow>
             (\<exists>cons ik.
                consumption p (v, s, t, f) = Some cons \<and> km = Some ik \<and>
                iu < length (var_names m) \<and> ik < length (var_names m) \<and>
                var_names m ! iu = Use_name t v s d f \<and>
                var_names m ! ik = Km_name t v s d f \<and>
                obj_coeffs m ! iu = 0 \<and>
                obj_coeffs m ! ik = cons * get (fuel_cost p) (f, t) 0 \<and>
                t \<in> set (years p) \<and> v \<in> set (vehicle_types p) \<and> s \<in> set (sizes p) \<and>
                d \<in> set (distances p) \<and> f \<in> set (fuel_names p))))"

definition use_km_ok :: "params \<Rightarrow> builder \<Rightarrow> bool" where
  "use_km_ok p st \<longleftrightarrow>
     length (obj_coeffs (model st)) = length (var_names (model st)) \<and>
     (\<forall>k. use_km_entry p (model st) k (use_vars st k) (km_vars st k))"

definition more_variables :: "builder \<Rightarrow> builder \<Rightarrow> bool" where
  "more_variables st st' \<longleftrightarrow>
     (\<exists>names objs. length names = length objs \<and>
        var_names (model st') = var_names (model st) @ names \<and>
        obj_coeffs (model st') = obj_coeffs (model st) @ objs) \<and>
     use_vars st' = use_vars st \<and> km_vars st' = km_vars st"

subsection \<open>What the constraint generator keeps true\<close>

text \<open>
  \<open>extends m m'\<close>: the rows of \<open>m'\<close> are those of \<open>m\<close> followed by new ones.
  \<open>recurrence_rows\<close> collects the fleet-dynamics rows of one year and vehicle class, for
  the ages whose purchase year is 2023 or later. \<open>fleet_sell_ok\<close> bounds the keys of the
  Fleet and Sell dictionaries; \<open>present\<close> turns an optional entry into a list.
\<close>

definition extends :: "OptimizationModel \<Rightarrow> OptimizationModel \<Rightarrow> bool" where
  "extends m m' \<longleftrightarrow> (\<exists>rs. rows_of m' = rows_of m @ rs)"

definition fleet_sell_ok :: "params \<Rightarrow> builder \<Rightarrow> bool" where
  "fleet_sell_ok p st \<longleftrightarrow>
     (\<forall>t v s age. fleet_vars st (t, v, s, age) \<noteq> None \<longrightarrow>
        t \<in> set (years p) \<and> 2023 \<le> t - age \<and> 0 \<le> age) \<and>
     (\<forall>t v s age. sell_vars st (t, v, s, age) \<noteq> None \<longrightarrow>
        t \<in> set (years p) \<and> 2023 \<le> t - age \<and> 1 \<le> age)"

definition no_constraints :: "OptimizationModel \<Rightarrow> bool" where
  "no_constraints m \<longleftrightarrow>
     constraints_rows m = [] \<and> constraints_cols m = [] \<and> constraints_vals m = [] \<and>
     constraints_lbs m = [] \<and> constraints_ubs m = [] \<and> constraint_count m = 0"

definition recurrence_rows ::
  "builder \<Rightarrow> int \<Rightarrow> string \<Rightarrow> string \<Rightarrow> ((real \<times> nat) list \<times> bnd \<times> bnd) set \<Rightarrow> bool"
where
  "recurrence_rows vs t v s R \<longleftrightarrow>
     (\<exists>fi bi. fleet_vars vs (t, v, s, 0) = Some fi \<and> buy_vars vs (t, v, s) = Some bi \<and>
        ([(1, fi), (- 1, bi)], Fin 0, Fin 0) \<in> R) \<and>
     (\<forall>age. 1 \<le> age \<and> age \<le> 10 \<and> 2023 \<le> t - age \<longrightarrow>
        (\<exists>fi si fp. fleet_vars vs (t, v, s, age) = Some fi \<and>
           sell_vars vs (t, v, s, age) = Some si \<and>
           fleet_vars vs (t - 1, v, s, age - 1) = Some fp \<and>
           ([(1, fi), (1, si), (- 1, fp)], Fin 0, Fin 0) \<in> R \<and>
           ([(1, si), (- 1, fp)], NegInf, Fin 0) \<in> R))"

definition present :: "'a option \<Rightarrow> 'a list" where
  "present opt = (case opt of None \<Rightarrow> [] | Some a \<Rightarrow> [a])"

subsection \<open>Sample inputs\<close>

text \<open>
  One year, one vehicle class, two distance buckets, one fuel; the emission cap and the
  demands of the two buckets are parameters. \<open>single_vars\<close> and \<open>single_model\<close> are what the builder and the
  constraint generator make of it (shown below).
\<close>

definition single_year :: "real \<Rightarrow> real \<Rightarrow> real \<Rightarrow> data" where
  "single_year cap d1 d2 =
     \<lparr>carbon_emissions = [(2023, cap)],
      demand = [(2023, ''S1'', ''D1'', d1), (2023, ''S1'', ''D2'', d2)],
      vehicles = [(''BEV'', ''S1'', 2023, 50, 100)],
      fuels = [(''Electricity'', 2023, 2, 1)],
      vehicles_fuels = [(''BEV'', ''S1'', 2023, ''Electricity'', 3)],
      cost_profiles = [(1, 90, 5, 1)]\<rparr>"

definition single_vars :: builder where
  "single_vars =
     \<lparr>model =
        \<lparr>var_names =
           [Buy_name 2023 ''BEV'' ''S1'', Fleet_name 2023 ''BEV'' ''S1'' 0,
            Use_name 2023 ''BEV'' ''S1'' ''D1'' ''Electricity'',
            Km_name 2023 ''BEV'' ''S1'' ''D1'' ''Electricity'',
            Use_name 2023 ''BEV'' ''S1'' ''D2'' ''Electricity'',
            Km_name 2023 ''BEV'' ''S1'' ''D2'' ''Electricity''],
         var_types = [0, 0, 0, 0, 0, 0],
         lbs = [Fin 0, Fin 0, Fin 0, Fin 0, Fin 0, Fin 0],
         ubs = [PosInf, PosInf, PosInf, PosInf, PosInf, PosInf],
         obj_coeffs = [50, 0, 0, 6, 0, 6],
         var_map =
           [Buy_name 2023 ''BEV'' ''S1'' \<mapsto> 0, Fleet_name 2023 ''BEV'' ''S1'' 0 \<mapsto> 1,
            Use_name 2023 ''BEV'' ''S1'' ''D1'' ''Electricity'' \<mapsto> 2,
            Km_name 2023 ''BEV'' ''S1'' ''D1'' ''Electricity'' \<mapsto> 3,
            Use_name 2023 ''BEV'' ''S1'' ''D2'' ''Electricity'' \<mapsto> 4,
            Km_name 2023 ''BEV'' ''S1'' ''D2'' ''Electricity'' \<mapsto> 5],
         constraints_rows = [], constraints_cols = [], constraints_vals = [],
         constraints_lbs = [], constraints_ubs = [], constraint_count = 0\<rparr>,
      buy_vars = [(2023, ''BEV'', ''S1'') \<mapsto> 0],
      sell_vars = Map.empty,
      use_vars = [(2023, ''BEV'', ''S1'', ''D1'', ''Electricity'') \<mapsto> 2,
                  (2023, ''BEV'', ''S1'', ''D2'', ''Electricity'') \<mapsto> 4],
      km_vars = [(2023, ''BEV'', ''S1'', ''D1'', ''Electricity'') \<mapsto> 3,
                 (2023, ''BEV'', ''S1'', ''D2'', ''Electricity'') \<mapsto> 5],
      fleet_vars = [(2023, ''BEV'', ''S1'', 0) \<mapsto> 1]\<rparr>"

definition single_model :: "real \<Rightarrow> real \<Rightarrow> real \<Rightarrow> OptimizationModel" where
  "single_model cap d1 d2 =
     (model single_vars)
       \<lparr>constraints_rows := [0, 0, 1, 2, 2, 3, 4, 4, 5, 5, 5, 6, 6],
        constraints_cols := [1, 0, 3, 3, 2, 5, 5, 4, 2, 4, 1, 3, 5],
        constraints_vals := [1, - 1, 1, 1, - 100, 1, 1, - 100, 1, 1, - 1, 3, 3],
        constraints_lbs := [Fin 0, Fin d1, NegInf, Fin d2, NegInf, NegInf, NegInf],
        constraints_ubs := [Fin 0, Fin d1, Fin 0, Fin d2, Fin 0, Fin 0, Fin cap],
        constraint_count := 7\<rparr>"

text \<open>
  Two years and one vehicle class with one distance bucket. \<open>one_vintage\<close> drops the
  consumption entry of the 2024 vintage; \<open>late_demand\<close> is the single-year sample with
  a demand row for a year that has no emission cap.
\<close>

definition two_years :: data where
  "two_years =
     \<lparr>carbon_emissions = [(2023, 1000), (2024, 900)],
      demand = [(2023, ''S1'', ''D1'', 125), (2024, ''S1'', ''D1'', 150)],
      vehicles = [(''BEV'', ''S1'', 2023, 50, 100), (''BEV'', ''S1'', 2024, 40, 120)],
      fuels = [(''Electricity'', 2023, 2, 1), (''Electricity'', 2024, 3, 1 / 2)],
      vehicles_fuels = [(''BEV'', ''S1'', 2023, ''Electricity'', 3),
                        (''BEV'', ''S1'', 2024, ''Electricity'', 2)],
      cost_profiles = [(1, 90, 5, 1)]\<rparr>"

definition two_vars :: builder where
  "two_vars =
     \<lparr>model =
        \<lparr>var_names =
           [Buy_name 2023 ''BEV'' ''S1'', Fleet_name 2023 ''BEV'' ''S1'' 0,
            Use_name 2023 ''BEV'' ''S1'' ''D1'' ''Electricity'',
            Km_name 2023 ''BEV'' ''S1'' ''D1'' ''Electricity'',
            Buy_name 2024 ''BEV'' ''S1'', Fleet_name 2024 ''BEV'' ''S1'' 0,
            Fleet_name 2024 ''BEV'' ''S1'' 1, Sell_name 2024 ''BEV'' ''S1'' 1,
            Use_name 2024 ''BEV'' ''S1'' ''D1'' ''Electricity'',
            Km_name 2024 ''BEV'' ''S1'' ''D1'' ''Electricity''],
         var_types = [0, 0, 0, 0, 0, 0, 0, 0, 0, 0],
         lbs = [Fin 0, Fin 0, Fin 0, Fin 0, Fin 0, Fin 0, Fin 0, Fin 0, Fin 0, Fin 0],
         ubs = [PosInf, PosInf, PosInf, PosInf, PosInf, PosInf, PosInf, PosInf, PosInf, PosInf],
         obj_coeffs = [50, 0, 0, 6, 40, 0, 3, - 45, 0, 6],
         var_map =
           [Buy_name 2023 ''BEV'' ''S1'' \<mapsto> 0, Fleet_name 2023 ''BEV'' ''S1'' 0 \<mapsto> 1,
            Use_name 2023 ''BEV'' ''S1'' ''D1'' ''Electricity'' \<mapsto> 2,
            Km_name 2023 ''BEV'' ''S1'' ''D1'' ''Electricity'' \<mapsto> 3,
            Buy_name 2024 ''BEV'' ''S1'' \<mapsto> 4, Fleet_name 2024 ''BEV'' ''S1'' 0 \<mapsto> 5,
            Fleet_name 2024 ''BEV'' ''S1'' 1 \<mapsto> 6, Sell_name 2024 ''BEV'' ''S1'' 1 \<mapsto> 7,
            Use_name 2024 ''BEV'' ''S1'' ''D1'' ''Electricity'' \<mapsto> 8,
            Km_name 2024 ''BEV'' ''S1'' ''D1'' ''Electricity'' \<mapsto> 9],
         constraints_rows = [], constraints_cols = [], constraints_vals = [],
         constraints_lbs = [], constraints_ubs = [], constraint_count = 0\<rparr>,
      buy_vars = [(2023, ''BEV'', ''S1'') \<mapsto> 0, (2024, ''BEV'', ''S1'') \<mapsto> 4],
      sell_vars = [(2024, ''BEV'', ''S1'', 1) \<mapsto> 7],
      use_vars = [(2023, ''BEV'', ''S1'', ''D1'', ''Electricity'') \<mapsto> 2,
                  (2024, ''BEV'', ''S1'', ''D1'', ''Electricity'') \<mapsto> 8],
      km_vars = [(2023, ''BEV'', ''S1'', ''D1'', ''Electricity'') \<mapsto> 3,
                 (2024, ''BEV'', ''S1'', ''D1'', ''Electricity'') \<mapsto> 9],
      fleet_vars = [(2023, ''BEV'', ''S1'', 0) \<mapsto> 1, (2024, ''BEV'', ''S1'', 0) \<mapsto> 5,
                    (2024, ''BEV'', ''S1'', 1) \<mapsto> 6]\<rparr>"

definition two_model :: OptimizationModel where
  "two_model =
     (model two_vars)
       \<lparr>constraints_rows :=
          [0, 0, 1, 1, 2, 2, 2, 3, 3, 4, 5, 5, 6, 7, 7, 8, 8, 9, 9, 9, 10, 11],
        constraints_cols :=
          [1, 0, 5, 4, 6, 7, 1, 7, 1, 3, 3, 2, 9, 9, 8, 2, 1, 8, 5, 6, 3, 9],
        constraints_vals :=
          [1, - 1, 1, - 1, 1, 1, - 1, 1, - 1, 1, 1, - 100, 1, 1, - 120, 1, - 1, 1,
           - 1, - 1, 3, 1],
        constraints_lbs :=
          [Fin 0, Fin 0, Fin 0, NegInf, Fin 125, NegInf, Fin 150, NegInf, NegInf,
           NegInf, NegInf, NegInf],
        constraints_ubs :=
          [Fin 0, Fin 0, Fin 0, Fin 0, Fin 125, Fin 0, Fin 150, Fin 0, Fin 0, Fin 0,
           Fin 1000, Fin 900],
        constraint_count := 12\<rparr>"

definition one_vintage :: data where
  "one_vintage = two_years\<lparr>vehicles_fuels := [(''BEV'', ''S1'', 2023, ''Electricity'', 3)]\<rparr>"

definition late_demand :: data where
  "late_demand =
     (single_year 1000 125 40)\<lparr>demand :=
        [(2023, ''S1'', ''D1'', 125), (2023, ''S1'', ''D2'', 40), (2024, ''S1'', ''D1'', 77)]\<rparr>"

text \<open>Pools of one vehicle class, as the decoder builds them for 2023 and for 2024.\<close>

definition last_vehicle :: pool where
  "last_vehicle = [((''BEV'', ''S1'', 2023), 1)]"

definition two_batches :: pool where
  "two_batches = [((''BEV'', ''S1'', 2023), 1), ((''BEV'', ''S1'', 2024), 3)]"

text \<open>
  Solver answers for the single-year sample, in the order of its variables: Buy, Fleet at
  age 0, Use and Km of bucket D1, Use and Km of bucket D2.
\<close>

definition vector :: "real list \<Rightarrow> nat \<Rightarrow> real" where
  "vector xs i = (if i < length xs then xs ! i else 0)"

definition rounded_down :: "nat \<Rightarrow> real" where
  "rounded_down = vector [33 / 20, 33 / 20, 5 / 4, 125, 2 / 5, 40]"

definition whole_counts :: "nat \<Rightarrow> real" where
  "whole_counts = vector [2, 2, 1, 125, 0, 40]"

definition short_pool :: "nat \<Rightarrow> real" where
  "short_pool = vector [6 / 5, 6 / 5, 3 / 5, 60, 3 / 5, 60]"

definition short_pool_solver :: milp where
  "short_pool_solver m = \<lparr>success = True, message = ''Optimal'', res_x = short_pool\<rparr>"

definition no_solution :: milp where
  "no_solution m = \<lparr>success = False, message = ''Infeasible'', res_x = (\<lambda>i. 0)\<rparr>"

section \<open>Loops and rows\<close>

lemma bind_Inr_iff: "bind r f = Inr y \<longleftrightarrow> (\<exists>a. r = Inr a \<and> f a = Inr y)"
  by (cases r) (simp_all add: bind_def)

lemma bind_Inl_iff: "bind r f = Inl e \<longleftrightarrow> r = Inl e \<or> (\<exists>a. r = Inr a \<and> f a = Inl e)"
  by (cases r) (simp_all add: bind_def)

lemma lookup_Inr_iff: "lookup m k = Inr v \<longleftrightarrow> m k = Some v"
  by (simp add: lookup_def split: option.splits)

lemma lookup_Inl_iff: "lookup m k = Inl e \<longleftrightarrow> m k = None \<and> e = KeyError"
  by (auto simp add: lookup_def split: option.splits)

lemma for_each_append:
  "for_each (xs @ ys) body st = bind (for_each xs body st) (for_each ys body)"
  by (induction xs arbitrary: st) (simp_all add: bind_def split: sum.splits)

lemma for_each_invariant:
  assumes "for_each xs body st = Inr st'" and "I st"
    and "\<And>x a b. x \<in> set xs \<Longrightarrow> I a \<Longrightarrow> body x a = Inr b \<Longrightarrow> I b"
  shows "I st'"
  using assms
proof (induction xs arbitrary: st)
  case Nil
  then show ?case by simp
next
  case (Cons x xs)
  from Cons.prems(1) obtain a where a: "body x st = Inr a" and rest: "for_each xs body a = Inr st'"
    by (auto split: sum.splits)
  have "I a" using Cons.prems(2,3) a by auto
  then show ?case using Cons.IH [OF rest] Cons.prems(3) by auto
qed

lemma for_each_rel:
  assumes "for_each xs body st = Inr st'" and "I st"
    and step: "\<And>y a b. y \<in> set xs \<Longrightarrow> I a \<Longrightarrow> body y a = Inr b \<Longrightarrow> I b \<and> R a b"
    and refl: "\<And>a. R a a"
    and trans: "\<And>a b c. R a b \<Longrightarrow> R b c \<Longrightarrow> R a c"
  shows "I st' \<and> R st st'"
  using assms(1-3)
proof (induction xs arbitrary: st)
  case Nil
  then show ?case using refl by simp
next
  case (Cons y ys)
  from Cons.prems(1) obtain a where a: "body y st = Inr a" and rest: "for_each ys body a = Inr st'"
    by (auto split: sum.splits)
  have ya: "I a \<and> R st a" using Cons.prems(2,3) a by auto
  have "I st' \<and> R a st'"
  proof (rule Cons.IH [OF rest])
    show "I a" using ya by simp
  next
    fix z c e assume "z \<in> set ys" "I c" "body z c = Inr e"
    then show "I e \<and> R c e" using Cons.prems(3) by auto
  qed
  then show ?case using ya trans by blast
qed

lemma for_each_visits:
  assumes run: "for_each xs body st = Inr st'" and x: "x \<in> set xs" and "I st"
    and step: "\<And>y a b. y \<in> set xs \<Longrightarrow> I a \<Longrightarrow> body y a = Inr b \<Longrightarrow> I b \<and> R a b"
    and refl: "\<And>a. R a a"
    and trans: "\<And>a b c. R a b \<Longrightarrow> R b c \<Longrightarrow> R a c"
  shows "\<exists>a b. I a \<and> body x a = Inr b \<and> R st a \<and> R b st' \<and> I st'"
proof -
  from x obtain pre post where xs: "xs = pre @ x # post"
    by (auto dest: split_list)
  from run obtain a where pre: "for_each pre body st = Inr a"
    and tl: "for_each (x # post) body a = Inr st'"
    unfolding xs for_each_append bind_Inr_iff by blast
  from tl obtain b where b: "body x a = Inr b" and post: "for_each post body b = Inr st'"
    by (cases "body x a") simp_all
  have 1: "I a \<and> R st a"
  proof (rule for_each_rel [where I = I and R = R, OF pre])
    show "I st" by fact
  next
    fix y c e assume "y \<in> set pre" "I c" "body y c = Inr e"
    then show "I e \<and> R c e" using step [of y c e] by (simp add: xs)
  qed (rule refl, rule trans)
  then have 2: "I b \<and> R a b" using step [of x a b] b x by simp
  have 3: "I st' \<and> R b st'"
  proof (rule for_each_rel [where I = I and R = R, OF post])
    show "I b" using 2 by simp
  next
    fix y c e assume "y \<in> set post" "I c" "body y c = Inr e"
    then show "I e \<and> R c e" using step [of y c e] by (simp add: xs)
  qed (rule refl, rule trans)
  show ?thesis using 1 2 3 b by blast
qed

lemma fold_add_term:
  "constraints_rows (fold (add_term i) ts m) = constraints_rows m @ replicate (length ts) i"
  "constraints_cols (fold (add_term i) ts m) = constraints_cols m @ map snd ts"
  "constraints_vals (fold (add_term i) ts m) = constraints_vals m @ map fst ts"
  "constraint_count (fold (add_term i) ts m) = constraint_count m"
  "constraints_lbs (fold (add_term i) ts m) = constraints_lbs m"
  "constraints_ubs (fold (add_term i) ts m) = constraints_ubs m"
  by (induction ts arbitrary: m; simp add: add_term_def replicate_append_same)+

lemma zip3_replicate_filter:
  "filter (\<lambda>(r, c, a). r = j) (zip (replicate (length ts) i) (zip (map snd ts) (map fst ts))) =
     (if i = j then map (\<lambda>t. (i, snd t, fst t)) ts else [])"
  by (induction ts) auto

lemma row_terms_old:
  assumes "wf_rows m" and "j < constraint_count m"
  shows "row_terms (fold (add_term (constraint_count m)) ts (m\<lparr>constraint_count := n\<rparr>)) j =
         row_terms m j"
  using assms
  by (simp add: fold_add_term row_terms_def wf_rows_def zip3_replicate_filter)

lemma filter_all_less:
  assumes "list_all (\<lambda>r. r < (n::nat)) rs"
  shows "filter (\<lambda>(r, c, a). r = n) (zip rs cs) = []"
proof -
  have "r \<noteq> n" if "(r, ca) \<in> set (zip rs cs)" for r ca
    using assms set_zip_leftD [OF that] by (auto simp add: list_all_iff)
  then show ?thesis by (auto simp add: filter_empty_conv)
qed

lemma row_terms_new:
  assumes "wf_rows m"
  shows "row_terms (fold (add_term (constraint_count m)) ts (m\<lparr>constraint_count := n\<rparr>))
           (constraint_count m) = ts"
  using assms
  by (simp add: fold_add_term row_terms_def wf_rows_def zip3_replicate_filter
      filter_all_less comp_def case_prod_beta)

lemma add_constraint_rows:
  assumes "wf_rows m" and "sense = ''=='' \<or> sense = ''<='' \<or> sense = ''>=''"
  shows "rows_of (add_constraint m ts sense rhs) =
           rows_of m @ [(ts, fst (sense_bounds sense rhs), snd (sense_bounds sense rhs))]"
    and "wf_rows (add_constraint m ts sense rhs)"
proof -
  let ?n = "constraint_count m"
  let ?m2 = "fold (add_term ?n) ts (m\<lparr>constraint_count := ?n + 1\<rparr>)"
  let ?m3 = "add_constraint m ts sense rhs"
  let ?b = "sense_bounds sense rhs"
  have cnt: "constraint_count ?m3 = Suc ?n"
    by (simp add: add_constraint_def Let_def fold_add_term)
  have len: "length (constraints_lbs m) = ?n" "length (constraints_ubs m) = ?n"
    using assms(1) by (simp_all add: wf_rows_def)
  have lb: "constraints_lbs ?m3 = constraints_lbs m @ [fst ?b]"
    and ub: "constraints_ubs ?m3 = constraints_ubs m @ [snd ?b]"
    using assms(2) by (auto simp add: add_constraint_def Let_def fold_add_term sense_bounds_def)
  have terms: "row_terms ?m3 j = row_terms ?m2 j" for j
    by (simp add: add_constraint_def Let_def row_terms_def)
  have old: "row_terms ?m3 j = row_terms m j" if "j < ?n" for j
    using row_terms_old [OF assms(1) that] terms by simp
  have new: "row_terms ?m3 ?n = ts"
    using row_terms_new [OF assms(1)] terms by simp
  have "map (\<lambda>i. (row_terms ?m3 i, constraints_lbs ?m3 ! i, constraints_ubs ?m3 ! i)) [0 ..< ?n]
        = rows_of m"
    unfolding rows_of_def by (rule map_cong) (simp_all add: old lb ub len nth_append)
  then show "rows_of ?m3 = rows_of m @ [(ts, fst ?b, snd ?b)]"
    by (simp add: rows_of_def [of ?m3] cnt new lb ub len nth_append)
  show "wf_rows ?m3"
    using assms
    by (auto simp add: wf_rows_def add_constraint_def Let_def fold_add_term list_all_iff
        intro: less_SucI)
qed

lemma add_constraint_eq:
  assumes "wf_rows m"
  shows "rows_of (add_constraint m ts ''=='' rhs) = rows_of m @ [(ts, Fin rhs, Fin rhs)]"
    and "wf_rows (add_constraint m ts ''=='' rhs)"
  using add_constraint_rows [OF assms, of "''==''" ts rhs] by (simp_all add: sense_bounds_def)

lemma add_constraint_le:
  assumes "wf_rows m"
  shows "rows_of (add_constraint m ts ''<='' rhs) = rows_of m @ [(ts, NegInf, Fin rhs)]"
    and "wf_rows (add_constraint m ts ''<='' rhs)"
  using add_constraint_rows [OF assms, of "''<=''" ts rhs] by (simp_all add: sense_bounds_def)

section \<open>The allocation loop\<close>

lemma allocate_total:
  assumes "list_all (\<lambda>(i, c). 0 \<le> c) pool" and "0 \<le> needed"
    and "allocate t d f avg_km pool needed = (rows, pool')"
  shows "sum_list (map num_vehicles rows) = min needed (sum_list (map snd pool)) \<and>
         sum_list (map snd pool') = sum_list (map snd pool) - min needed (sum_list (map snd pool)) \<and>
         list_all (\<lambda>(i, c). 0 \<le> c) pool'"
  using assms
proof (induction pool arbitrary: needed rows pool')
  case Nil
  then show ?case by simp
next
  case (Cons item items)
  obtain i c where item: "item = (i, c)" by (cases item)
  have c: "0 \<le> c" and items: "list_all (\<lambda>(i, c). 0 \<le> c) items"
    using Cons.prems(1) by (simp_all add: item)
  have nn: "0 \<le> sum_list (map snd items)"
    using items by (intro sum_list_nonneg) (fastforce simp add: list_all_iff)
  show ?case
  proof (cases "0 < c \<and> 0 < needed")
    case True
    let ?take = "min c needed"
    obtain rs ps where rec: "allocate t d f avg_km items (needed - ?take) = (rs, ps)"
      by (cases "allocate t d f avg_km items (needed - ?take)")
    have res: "rows = use_row t d f avg_km i ?take # rs" "pool' = (i, c - ?take) # ps"
      using Cons.prems(3) True rec by (simp_all add: item Let_def)
    have "0 \<le> needed - ?take" by simp
    from Cons.IH [OF items this rec] show ?thesis
      using True nn by (auto simp add: res item use_row_def min_def)
  next
    case False
    obtain rs ps where rec: "allocate t d f avg_km items needed = (rs, ps)"
      by (cases "allocate t d f avg_km items needed")
    have res: "rows = rs" "pool' = (i, c) # ps"
      using Cons.prems(3) False rec by (auto simp add: item Let_def)
    from Cons.IH [OF items Cons.prems(2) rec] show ?thesis
      using False c nn Cons.prems(2) by (auto simp add: res item min_def)
  qed
qed

lemma allocate_rows:
  assumes "allocate t d f avg_km pool needed = (rows, pool')"
  shows "list_all (\<lambda>r. 0 < num_vehicles r \<and> (\<exists>c. (vid r, c) \<in> set pool \<and> num_vehicles r \<le> c) \<and>
            row_type r = Use \<and> year r = t \<and> fuel r = f \<and> distance_bucket r = d \<and>
            distance_per_vehicle r = Some avg_km) rows"
  using assms
proof (induction pool arbitrary: needed rows pool')
  case Nil
  then show ?case by simp
next
  case (Cons item items)
  obtain i c where item: "item = (i, c)" by (cases item)
  show ?case
  proof (cases "0 < c \<and> 0 < needed")
    case True
    let ?take = "min c needed"
    obtain rs ps where rec: "allocate t d f avg_km items (needed - ?take) = (rs, ps)"
      by (cases "allocate t d f avg_km items (needed - ?take)")
    have res: "rows = use_row t d f avg_km i ?take # rs"
      using Cons.prems True rec by (simp_all add: item Let_def)
    from Cons.IH [OF rec] show ?thesis
      using True by (auto simp add: res item use_row_def list_all_iff)
  next
    case False
    obtain rs ps where rec: "allocate t d f avg_km items needed = (rs, ps)"
      by (cases "allocate t d f avg_km items needed")
    have res: "rows = rs"
      using Cons.prems False rec by (auto simp add: item Let_def)
    from Cons.IH [OF rec] show ?thesis
      by (auto simp add: res item list_all_iff)
  qed
qed

lemma allocate_counts:
  assumes "list_all (\<lambda>(i, c). 0 \<le> c) pool"
    and "allocate t d f avg_km pool needed = (rows, pool')"
  shows "list_all2 (\<lambda>(i, c) (i', c'). i' = i \<and> 0 \<le> c' \<and> c' \<le> c) pool pool'"
  using assms
proof (induction pool arbitrary: needed rows pool')
  case Nil
  then show ?case by simp
next
  case (Cons item items)
  obtain i c where item: "item = (i, c)" by (cases item)
  have items: "list_all (\<lambda>(i, c). 0 \<le> c) items" and c: "0 \<le> c"
    using Cons.prems(1) by (simp_all add: item)
  show ?case
  proof (cases "0 < c \<and> 0 < needed")
    case True
    let ?take = "min c needed"
    obtain rs ps where rec: "allocate t d f avg_km items (needed - ?take) = (rs, ps)"
      by (cases "allocate t d f avg_km items (needed - ?take)")
    have res: "pool' = (i, c - ?take) # ps"
      using Cons.prems(2) True rec by (simp_all add: item Let_def)
    from Cons.IH [OF items rec] show ?thesis
      using True by (auto simp add: res item)
  next
    case False
    obtain rs ps where rec: "allocate t d f avg_km items needed = (rs, ps)"
      by (cases "allocate t d f avg_km items needed")
    have res: "pool' = (i, c) # ps"
      using Cons.prems(2) False rec by (auto simp add: item Let_def)
    from Cons.IH [OF items rec] show ?thesis
      using c by (auto simp add: res item)
  qed
qed

lemma allocate_depleted:
  assumes "list_all (\<lambda>(i, c). 0 \<le> c) pool" and "sum_list (map snd pool) < needed"
    and "allocate t d f avg_km pool needed = (rows, pool')"
  shows "sum_list (map num_vehicles rows) = sum_list (map snd pool) \<and>
         list_all (\<lambda>(i, c). c = 0) pool'"
proof -
  have nn: "0 \<le> sum_list (map snd pool)"
    using assms(1) by (intro sum_list_nonneg) (fastforce simp add: list_all_iff)
  then have needed: "0 \<le> needed" using assms(2) by simp
  note total = allocate_total [OF assms(1) needed assms(3)]
  have rows: "sum_list (map num_vehicles rows) = sum_list (map snd pool)"
    using total assms(2) by simp
  have "sum_list (map snd pool') = 0" using total assms(2) by simp
  moreover have "\<And>c. c \<in> set (map snd pool') \<Longrightarrow> 0 \<le> c"
    using total by (fastforce simp add: list_all_iff)
  ultimately have "\<forall>c\<in>set (map snd pool'). c = 0"
    using sum_list_nonneg_eq_0_iff [of "map snd pool'"] by blast
  then have "list_all (\<lambda>(i, c). c = 0) pool'"
    by (auto simp add: list_all_iff)
  then show ?thesis using rows by simp
qed

section \<open>The decoder\<close>

lemma for_each_no_error:
  assumes "\<And>x a. x \<in> set xs \<Longrightarrow> body x a \<noteq> Inl e"
  shows "for_each xs body st \<noteq> Inl e"
  using assms by (induction xs arbitrary: st) (auto split: sum.splits)

lemma assign_task_no_zero_division:
  "assign_task vs x t v s d f st \<noteq> Inl ZeroDivisionError"
  by (auto simp add: assign_task_def bind_Inl_iff lookup_Inl_iff lookup_Inr_iff Let_def
      truediv_def split: option.splits prod.splits if_splits)

lemma class_pool_no_zero_division:
  "class_pool vs x t v s fp \<noteq> Inl ZeroDivisionError"
  by (auto simp add: class_pool_def bind_Inl_iff lookup_Inl_iff Let_def)

lemma buy_sell_rows_no_zero_division:
  "buy_sell_rows vs x t v s rows \<noteq> Inl ZeroDivisionError"
  by (auto simp add: buy_sell_rows_def bind_Inl_iff lookup_Inl_iff Let_def)

lemma year_use_no_zero_division:
  "year_use p vs x t rows \<noteq> Inl ZeroDivisionError"
  unfolding year_use_def bind_Inl_iff
  by (auto intro!: for_each_no_error
      simp add: class_pool_no_zero_division assign_task_no_zero_division)

lemma decode_no_zero_division: "decode p vs x \<noteq> Inl ZeroDivisionError"
  unfolding decode_def bind_Inl_iff
  by (auto intro!: for_each_no_error
      simp add: buy_sell_rows_no_zero_division year_use_no_zero_division)

lemma sell_rows_not_use:
  assumes "use_rows P rows"
  shows "use_rows P (sell_rows vs x t v s age rows)"
  using assms by (simp add: sell_rows_def sell_row_def Let_def use_rows_def split: option.splits)

lemma fold_sell_rows_not_use:
  assumes "use_rows P rows"
  shows "use_rows P (fold (sell_rows vs x t v s) ages rows)"
  using assms by (induction ages arbitrary: rows) (simp_all add: sell_rows_not_use)

lemma buy_sell_rows_not_use:
  assumes "buy_sell_rows vs x t v s rows = Inr rows'"
    and "use_rows P rows"
  shows "use_rows P rows'"
proof -
  from assms(1) obtain idx where
    rows': "rows' = fold (sell_rows vs x t v s) [1 .. 10]
       (if 0 < py_round (x idx) then rows @ [buy_row t (v, s, t) (py_round (x idx))] else rows)"
    by (auto simp add: buy_sell_rows_def bind_Inr_iff Let_def)
  have "use_rows P (if 0 < py_round (x idx) then rows @ [buy_row t (v, s, t) (py_round (x idx))] else rows)"
    using assms(2) by (simp add: use_rows_def buy_row_def)
  then show ?thesis unfolding rows' by (rule fold_sell_rows_not_use)
qed

lemma carried_over_class:
  assumes "pool_of_class v s items"
  shows "pool_of_class v s (carried_over vs x t v s age items)"
  using assms by (simp add: carried_over_def pool_of_class_def Let_def split: option.splits)

lemma fold_carried_over_class:
  assumes "pool_of_class v s items"
  shows "pool_of_class v s (fold (carried_over vs x t v s) ages items)"
  using assms by (induction ages arbitrary: items) (simp_all add: carried_over_class)

lemma class_pool_by_class:
  assumes "class_pool vs x t v s fp = Inr fp'" and "pools_by_class fp"
  shows "pools_by_class fp'"
proof -
  have "pool_of_class v s (fold (carried_over vs x t v s) [0 .. 10] [])"
    by (rule fold_carried_over_class) (simp add: pool_of_class_def)
  then show ?thesis
    using assms
    by (auto simp add: class_pool_def bind_Inr_iff Let_def pools_by_class_def pool_of_class_def
        split: if_splits)
qed

lemma assign_task_unfold:
  "assign_task vs x t v s d f st =
     (case use_vars vs (t, v, s, d, f) of
        None \<Rightarrow> Inr st
      | Some iu \<Rightarrow>
          (case km_vars vs (t, v, s, d, f) of
             None \<Rightarrow> Inl KeyError
           | Some ik \<Rightarrow>
               if 0 < py_round (x iu) then
                 (case snd st (v, s) of
                    None \<Rightarrow> Inr st
                  | Some items \<Rightarrow>
                      Inr (fst st @ fst (allocate t d f (x ik / of_int (py_round (x iu))) items
                                           (py_round (x iu))),
                           (snd st)((v, s) \<mapsto>
                              snd (allocate t d f (x ik / of_int (py_round (x iu))) items
                                     (py_round (x iu))))))
               else Inr st))"
  by (simp add: assign_task_def bind_def lookup_def truediv_def Let_def case_prod_beta
      split: option.splits)

lemma pool_of_classD:
  assumes "pool_of_class v s items" and "(i, c) \<in> set items"
  shows "fst i = v \<and> fst (snd i) = s"
proof -
  from assms have "case (i, c) of (i, c) \<Rightarrow> fst i = v \<and> fst (snd i) = s"
    unfolding pool_of_class_def list_all_iff by (rule bspec)
  then show ?thesis by simp
qed

lemma allocate_class:
  assumes "pool_of_class v s pool" and "allocate t d f avg_km pool needed = (rows, pool')"
  shows "pool_of_class v s pool'"
  using assms
proof (induction pool arbitrary: needed rows pool')
  case Nil
  then show ?case by simp
next
  case (Cons item items)
  obtain i c where item: "item = (i, c)" by (cases item)
  have items: "pool_of_class v s items" and i: "fst i = v \<and> fst (snd i) = s"
    using Cons.prems(1) by (simp_all add: item pool_of_class_def)
  show ?case
  proof (cases "0 < c \<and> 0 < needed")
    case True
    let ?take = "min c needed"
    obtain rs ps where rec: "allocate t d f avg_km items (needed - ?take) = (rs, ps)"
      by (cases "allocate t d f avg_km items (needed - ?take)")
    have res: "pool' = (i, c - ?take) # ps"
      using Cons.prems(2) True rec by (simp_all add: item Let_def)
    from Cons.IH [OF items rec] show ?thesis
      using i by (simp add: res pool_of_class_def)
  next
    case False
    obtain rs ps where rec: "allocate t d f avg_km items needed = (rs, ps)"
      by (cases "allocate t d f avg_km items needed")
    have res: "pool' = (i, c) # ps"
      using Cons.prems(2) False rec by (auto simp add: item Let_def)
    from Cons.IH [OF items rec] show ?thesis
      using i by (simp add: res pool_of_class_def)
  qed
qed

lemma assign_task_changes:
  assumes "assign_task vs x t v s d f st = Inr st'" and "st' \<noteq> st"
  shows "\<exists>iu ik items. use_vars vs (t, v, s, d, f) = Some iu \<and>
           km_vars vs (t, v, s, d, f) = Some ik \<and> 0 < py_round (x iu) \<and>
           snd st (v, s) = Some items \<and>
           st' = (fst st @ fst (allocate t d f (x ik / of_int (py_round (x iu))) items
                                  (py_round (x iu))),
                  (snd st)((v, s) \<mapsto>
                     snd (allocate t d f (x ik / of_int (py_round (x iu))) items
                            (py_round (x iu)))))"
proof (cases "use_vars vs (t, v, s, d, f)")
  case None
  then show ?thesis using assms by (simp add: assign_task_unfold)
next
  case iu: (Some iu)
  show ?thesis
  proof (cases "km_vars vs (t, v, s, d, f)")
    case None
    then show ?thesis using assms iu by (simp add: assign_task_unfold)
  next
    case ik: (Some ik)
    show ?thesis
    proof (cases "snd st (v, s)")
      case None
      then show ?thesis using assms iu ik by (simp add: assign_task_unfold split: if_splits)
    next
      case (Some items)
      then show ?thesis using assms iu ik
        by (cases "0 < py_round (x iu)") (simp_all add: assign_task_unfold)
    qed
  qed
qed

lemma assign_task_rows:
  assumes run: "assign_task vs x t v s d f st = Inr st'"
    and pools: "pools_by_class (snd st)"
    and rows: "use_rows (duty_positive vs x) (fst st)"
  shows "pools_by_class (snd st') \<and> use_rows (duty_positive vs x) (fst st')"
proof (cases "st' = st")
  case True
  then show ?thesis using pools rows by simp
next
  case False
  from assign_task_changes [OF run False]
  obtain iu ik items where iu: "use_vars vs (t, v, s, d, f) = Some iu"
    and ik: "km_vars vs (t, v, s, d, f) = Some ik" and pos: "0 < py_round (x iu)"
    and items: "snd st (v, s) = Some items"
    and st': "st' = (fst st @ fst (allocate t d f (x ik / of_int (py_round (x iu))) items
                                           (py_round (x iu))),
                    (snd st)((v, s) \<mapsto>
                              snd (allocate t d f (x ik / of_int (py_round (x iu))) items
                                     (py_round (x iu)))))"
    by blast
  define al where "al = allocate t d f (x ik / of_int (py_round (x iu))) items (py_round (x iu))"
  have al: "allocate t d f (x ik / of_int (py_round (x iu))) items (py_round (x iu))
            = (fst al, snd al)"
    by (simp add: al_def)
  have cls: "pool_of_class v s items"
    using pools items by (simp add: pools_by_class_def)
  have cls': "pool_of_class v s (snd al)"
    using cls al by (rule allocate_class)
  have "duty_positive vs x r" if "r \<in> set (fst al)" for r
  proof -
    from allocate_rows [OF al] that
    obtain c where r: "(vid r, c) \<in> set items" "year r = t" "fuel r = f" "distance_bucket r = d"
      unfolding list_all_iff by blast
    have "fst (vid r) = v \<and> fst (snd (vid r)) = s"
      using cls r(1) by (rule pool_of_classD)
    then show ?thesis
      using pos iu r by (simp add: duty_positive_def)
  qed
  then have "use_rows (duty_positive vs x) (fst st @ fst al)"
    using rows by (auto simp add: use_rows_def list_all_iff)
  moreover have "pools_by_class ((snd st)((v, s) \<mapsto> snd al))"
    using pools cls' by (simp add: pools_by_class_def)
  ultimately show ?thesis by (simp add: st' al_def)
qed

lemma year_use_rows:
  assumes "year_use p vs x t rows = Inr rows'"
    and "use_rows (duty_positive vs x) rows"
  shows "use_rows (duty_positive vs x) rows'"
proof -
  let ?J = "use_rows (duty_positive vs x)"
  from assms(1) obtain fp st where
    fp: "for_each (vehicle_types p) (\<lambda>v. for_each (sizes p) (class_pool vs x t v)) Map.empty = Inr fp"
    and st: "for_each (vehicle_types p) (\<lambda>v. for_each (sizes p) (\<lambda>s.
               for_each (distances p) (\<lambda>d. for_each (fuel_names p) (assign_task vs x t v s d))))
               (rows, fp) = Inr st"
    and rows': "rows' = fst st"
    by (auto simp add: year_use_def bind_Inr_iff)
  have "pools_by_class fp"
    by (rule for_each_invariant [OF fp], simp add: pools_by_class_def,
        erule for_each_invariant, assumption, erule class_pool_by_class, assumption)
  then have "pools_by_class (snd (rows, fp)) \<and> ?J (fst (rows, fp))"
    using assms(2) by simp
  have "pools_by_class (snd st) \<and> ?J (fst st)"
    by (rule for_each_invariant [OF st], fact,
        erule for_each_invariant, assumption,
        erule for_each_invariant, assumption,
        erule for_each_invariant, assumption,
        erule assign_task_rows, simp_all)
  then show ?thesis by (simp add: rows')
qed

lemma decode_rows:
  assumes "decode p vs x = Inr rows"
  shows "use_rows (duty_positive vs x) rows"
proof -
  let ?J = "use_rows (duty_positive vs x)"
  from assms obtain rows1 where
    one: "for_each (years p) (\<lambda>t. for_each (vehicle_types p) (\<lambda>v.
            for_each (sizes p) (buy_sell_rows vs x t v))) [] = Inr rows1"
    and two: "for_each (years p) (year_use p vs x) rows1 = Inr rows"
    by (auto simp add: decode_def bind_Inr_iff)
  have "?J rows1"
    by (rule for_each_invariant [OF one], simp add: use_rows_def,
        erule for_each_invariant, assumption,
        erule for_each_invariant, assumption,
        erule buy_sell_rows_not_use, assumption)
  show ?thesis
    by (rule for_each_invariant [OF two], fact, erule year_use_rows, assumption)
qed

text \<open>The decoder reads the assignment through the rounded counts and the Km values.\<close>

lemma sell_rows_same:
  assumes "\<And>i. py_round (x i) = py_round (x' i)"
  shows "sell_rows vs x t v s = sell_rows vs x' t v s"
  by (intro ext) (simp add: sell_rows_def assms split: option.splits)

lemma buy_sell_rows_same:
  assumes "\<And>i. py_round (x i) = py_round (x' i)"
  shows "buy_sell_rows vs x t v = buy_sell_rows vs x' t v"
  by (intro ext) (simp add: buy_sell_rows_def assms sell_rows_same [OF assms])

lemma carried_over_same:
  assumes "\<And>i. py_round (x i) = py_round (x' i)"
  shows "carried_over vs x t v s = carried_over vs x' t v s"
  by (intro ext) (simp add: carried_over_def assms split: option.splits)

lemma class_pool_same:
  assumes "\<And>i. py_round (x i) = py_round (x' i)"
  shows "class_pool vs x t v = class_pool vs x' t v"
  by (intro ext) (simp add: class_pool_def assms carried_over_same [OF assms])

lemma assign_task_same:
  assumes "\<And>i. py_round (x i) = py_round (x' i)"
    and "\<And>k i. km_vars vs k = Some i \<Longrightarrow> x i = x' i"
  shows "assign_task vs x t v s d = assign_task vs x' t v s d"
proof (intro ext)
  fix f st
  show "assign_task vs x t v s d f st = assign_task vs x' t v s d f st"
  proof (cases "km_vars vs (t, v, s, d, f)")
    case None
    then show ?thesis by (simp add: assign_task_unfold assms(1) split: option.splits)
  next
    case (Some ik)
    then have "x ik = x' ik" by (rule assms(2))
    then show ?thesis using Some
      by (simp add: assign_task_unfold assms(1) split: option.splits)
  qed
qed

lemma year_use_same:
  assumes "\<And>i. py_round (x i) = py_round (x' i)"
    and "\<And>k i. km_vars vs k = Some i \<Longrightarrow> x i = x' i"
  shows "year_use p vs x = year_use p vs x'"
  by (intro ext)
     (simp add: year_use_def class_pool_same [OF assms(1)] assign_task_same [OF assms])

lemma decode_same:
  assumes "\<And>i. py_round (x i) = py_round (x' i)"
    and "\<And>k i. km_vars vs k = Some i \<Longrightarrow> x i = x' i"
  shows "decode p vs x = decode p vs x'"
  by (simp add: decode_def buy_sell_rows_same [OF assms(1)] year_use_same [OF assms])

section \<open>The single-year sample\<close>

lemma ages:
  "[0 .. 10] = [0, 1, 2, 3, 4, 5, 6, 7, 8, 9, 10 :: int]"
  "[1 .. 10] = [1, 2, 3, 4, 5, 6, 7, 8, 9, 10 :: int]"
  by (simp_all add: upto.simps)

lemma single_year_index:
  "years (build_index (single_year cap d1 d2)) = [2023]"
  "sizes (build_index (single_year cap d1 d2)) = [''S1'']"
  "distances (build_index (single_year cap d1 d2)) = [''D1'', ''D2'']"
  "vehicle_types (build_index (single_year cap d1 d2)) = [''BEV'']"
  "fuel_names (build_index (single_year cap d1 d2)) = [''Electricity'']"
  "demand_dict (build_index (single_year cap d1 d2)) =
     map_of [((2023, ''S1'', ''D2''), d2), ((2023, ''S1'', ''D1''), d1)]"
  "emission_targets (build_index (single_year cap d1 d2)) = map_of [(2023, cap)]"
  "vehicle_cost (build_index (single_year cap d1 d2)) = map_of [((''BEV'', ''S1'', 2023), 50)]"
  "vehicle_range (build_index (single_year cap d1 d2)) = map_of [((''BEV'', ''S1'', 2023), 100)]"
  "fuel_cost (build_index (single_year cap d1 d2)) = map_of [((''Electricity'', 2023), 2)]"
  "fuel_emissions (build_index (single_year cap d1 d2)) = map_of [((''Electricity'', 2023), 1)]"
  "consumption (build_index (single_year cap d1 d2)) =
     map_of [((''BEV'', ''S1'', 2023, ''Electricity''), 3)]"
  "resale_profile (build_index (single_year cap d1 d2)) = map_of [(1, 90)]"
  "insurance_profile (build_index (single_year cap d1 d2)) = map_of [(1, 5)]"
  "maintenance_profile (build_index (single_year cap d1 d2)) = map_of [(1, 1)]"
  by (simp_all add: build_index_def single_year_def sorted_unique_def to_dict_def)

lemma single_year_variables:
  "create_variables (build_index (single_year cap d1 d2)) = single_vars"
  by (simp add: single_year_index ages create_variables_def class_vars_def
      new_buy_def new_fleet_def new_sell_def new_use_km_def add_variable_def
      init_builder_def init_model_def get_def Let_def single_vars_def eval_nat_numeral)

lemma single_vars_fields:
  "buy_vars single_vars = [(2023, ''BEV'', ''S1'') \<mapsto> 0]"
  "sell_vars single_vars = Map.empty"
  "use_vars single_vars = [(2023, ''BEV'', ''S1'', ''D1'', ''Electricity'') \<mapsto> 2,
                  (2023, ''BEV'', ''S1'', ''D2'', ''Electricity'') \<mapsto> 4]"
  "km_vars single_vars = [(2023, ''BEV'', ''S1'', ''D1'', ''Electricity'') \<mapsto> 3,
                 (2023, ''BEV'', ''S1'', ''D2'', ''Electricity'') \<mapsto> 5]"
  "fleet_vars single_vars = [(2023, ''BEV'', ''S1'', 0) \<mapsto> 1]"
  by (simp_all add: single_vars_def)

lemma single_year_constraints:
  "add_constraints (build_index (single_year cap d1 d2)) single_vars (model single_vars) =
     Inr (single_model cap d1 d2)"
  by (simp add: single_year_index single_vars_fields ages add_constraints_def
      fleet_dynamics_def age0_constraint_def aging_constraint_def
      demand_satisfaction_def demand_cell_def demand_terms_def link_constraint_def
      usage_limit_def use_terms_def fleet_terms_def
      emission_caps_def emission_year_def emission_terms_def emission_term_def
      bind_def lookup_def get_def Let_def add_constraint_def add_term_def
      single_model_def) (simp add: single_vars_def)

lemma single_year_model:
  "build_model (build_index (single_year cap d1 d2)) = Inr (single_vars, single_model cap d1 d2)"
  by (simp add: build_model_def single_year_variables single_year_constraints bind_def)

lemma single_model_rows:
  "rows_of (single_model cap d1 d2) =
     [([(1, 1), (- 1, 0)], Fin 0, Fin 0),
      ([(1, 3)], Fin d1, Fin d1),
      ([(1, 3), (- 100, 2)], NegInf, Fin 0),
      ([(1, 5)], Fin d2, Fin d2),
      ([(1, 5), (- 100, 4)], NegInf, Fin 0),
      ([(1, 2), (1, 4), (- 1, 1)], NegInf, Fin 0),
      ([(3, 3), (3, 5)], NegInf, Fin cap)]"
  by (simp add: rows_of_def row_terms_def single_model_def upt_rec)

lemma rounded_down_values:
  "rounded_down 0 = 33 / 20" "rounded_down 1 = 33 / 20" "rounded_down 2 = 5 / 4"
  "rounded_down 3 = 125" "rounded_down 4 = 2 / 5" "rounded_down 5 = 40"
  by (simp_all add: rounded_down_def vector_def)

lemma short_pool_values:
  "short_pool 0 = 6 / 5" "short_pool 1 = 6 / 5" "short_pool 2 = 3 / 5"
  "short_pool 3 = 60" "short_pool 4 = 3 / 5" "short_pool 5 = 60"
  by (simp_all add: short_pool_def vector_def)

lemma whole_counts_values:
  "whole_counts 0 = 2" "whole_counts 1 = 2" "whole_counts 2 = 1"
  "whole_counts 3 = 125" "whole_counts 4 = 0" "whole_counts 5 = 40"
  by (simp_all add: whole_counts_def vector_def)

lemma py_round_samples:
  "py_round (33 / 20) = 2" "py_round (5 / 4) = 1" "py_round (2 / 5) = 0"
  "py_round (6 / 5) = 1" "py_round (3 / 5) = 1"
  "py_round 2 = 2" "py_round 1 = 1" "py_round 0 = 0" "py_round 125 = 125" "py_round 40 = 40"
  by (simp_all add: py_round_def)

lemmas decode_defs =
  decode_def year_use_def class_pool_def carried_over_def buy_sell_rows_def sell_rows_def
  assign_task_def truediv_def bind_def lookup_def Let_def

lemma decode_rounded_down:
  "decode (build_index (single_year cap d1 d2)) single_vars rounded_down =
     Inr [buy_row 2023 (''BEV'', ''S1'', 2023) 2,
          use_row 2023 ''D1'' ''Electricity'' 125 (''BEV'', ''S1'', 2023) 1]"
  by (simp add: single_year_index single_vars_fields ages decode_defs
      rounded_down_values py_round_samples)

lemma decode_short_pool:
  "decode (build_index (single_year cap d1 d2)) single_vars short_pool =
     Inr [buy_row 2023 (''BEV'', ''S1'', 2023) 1,
          use_row 2023 ''D1'' ''Electricity'' 60 (''BEV'', ''S1'', 2023) 1]"
  by (simp add: single_year_index single_vars_fields ages decode_defs
      short_pool_values py_round_samples)

lemma single_model_objective:
  "objective (single_model cap d1 d2) y = 50 * y 0 + 6 * y 3 + 6 * y 5"
  by (simp add: objective_def single_model_def single_vars_def upt_rec eval_nat_numeral)

lemma single_model_feasible:
  "feasible (single_model cap d1 d2) y \<longleftrightarrow>
     y 1 = y 0 \<and> y 3 = d1 \<and> y 3 \<le> 100 * y 2 \<and> y 5 = d2 \<and> y 5 \<le> 100 * y 4 \<and>
     y 2 + y 4 \<le> y 1 \<and> 3 * y 3 + 3 * y 5 \<le> cap \<and>
     0 \<le> y 0 \<and> 0 \<le> y 1 \<and> 0 \<le> y 2 \<and> 0 \<le> y 3 \<and> 0 \<le> y 4 \<and> 0 \<le> y 5"
proof -
  have bounds: "list_all (\<lambda>i. lower_ok (lbs (single_model cap d1 d2) ! i) (y i) \<and>
                         upper_ok (ubs (single_model cap d1 d2) ! i) (y i))
                  [0 ..< length (var_names (single_model cap d1 d2))] \<longleftrightarrow>
     0 \<le> y 0 \<and> 0 \<le> y 1 \<and> 0 \<le> y 2 \<and> 0 \<le> y 3 \<and> 0 \<le> y 4 \<and> 0 \<le> y 5"
    by (simp add: single_model_def single_vars_def upt_rec eval_nat_numeral)
  show ?thesis
    unfolding feasible_def bounds
    by (simp add: single_model_rows row_value_def) linarith
qed

lemma single_model_optimal:
  assumes "0 \<le> d1" and "0 \<le> d2" and "3 * d1 + 3 * d2 \<le> cap"
  shows "optimal (single_model cap d1 d2)
           (vector [(d1 + d2) / 100, (d1 + d2) / 100, d1 / 100, d1, d2 / 100, d2])"
  using assms
  by (auto simp add: optimal_def single_model_feasible single_model_objective vector_def)

lemma optimal_rounded_down: "optimal (single_model 1000 125 40) rounded_down"
  using single_model_optimal [of 125 40 1000] by (simp add: rounded_down_def)

lemma optimal_short_pool: "optimal (single_model 1000 60 60) short_pool"
  using single_model_optimal [of 60 60 1000] by (simp add: short_pool_def)

lemma single_model_size:
  "length (var_names (single_model cap d1 d2)) = 6" "constraint_count (single_model cap d1 d2) = 7"
  by (simp_all add: single_model_def single_vars_def)

lemma run_short_pool:
  "solve_optimization (single_year cap d1 d2) short_pool_solver =
     Inr \<lparr>stdout = [Loading_data, Data_loaded, Creating_variables, Adding_constraints,
                    Solving_with 6 7, Solver_status True ''Optimal'', Submission_saved],
          submission = Some [buy_row 2023 (''BEV'', ''S1'', 2023) 1,
             use_row 2023 ''D1'' ''Electricity'' 60 (''BEV'', ''S1'', 2023) 1]\<rparr>"
  by (simp add: solve_optimization_def single_year_model solve_def single_model_size
      short_pool_solver_def decode_short_pool bind_def)

lemma run_no_solution:
  "solve_optimization (single_year cap d1 d2) no_solution =
     Inr \<lparr>stdout = [Loading_data, Data_loaded, Creating_variables, Adding_constraints,
                    Solving_with 6 7, Solver_status False ''Infeasible'', Optimization_failed],
          submission = None\<rparr>"
  by (simp add: solve_optimization_def single_year_model solve_def single_model_size
      no_solution_def bind_def)

section \<open>The pipeline\<close>

lemma solve_optimization_unfold:
  assumes "build_model (build_index dat) = Inr (vs, m)"
  shows "solve_optimization dat solver =
     (if \<not> success (solver m) then
        Inr \<lparr>stdout = [Loading_data, Data_loaded, Creating_variables, Adding_constraints,
               Solving_with (length (var_names m)) (constraint_count m),
               Solver_status False (message (solver m)),
               Optimization_failed], submission = None\<rparr>
      else bind (decode (build_index dat) vs (res_x (solver m))) (\<lambda>final_submission.
        if final_submission = [] then Inl KeyError
        else Inr \<lparr>stdout = [Loading_data, Data_loaded, Creating_variables, Adding_constraints,
               Solving_with (length (var_names m)) (constraint_count m),
               Solver_status True (message (solver m)),
               Submission_saved], submission = Some final_submission\<rparr>))"
  using assms
  by (simp add: solve_optimization_def Let_def bind_def solve_def split: sum.splits)

lemma solve_optimization_built:
  assumes "solve_optimization dat solver = Inr r"
  shows "\<exists>vs m. build_model (build_index dat) = Inr (vs, m)"
  using assms
  by (cases "build_model (build_index dat)") (auto simp add: solve_optimization_def Let_def bind_def)

lemma solve_optimization_saved:
  assumes "solve_optimization dat solver = Inr r" and "submission r \<noteq> None"
  shows "\<exists>n k msg. stdout r =
           [Loading_data, Data_loaded, Creating_variables, Adding_constraints,
            Solving_with n k, Solver_status True msg, Submission_saved]"
proof -
  from solve_optimization_built [OF assms(1)]
  obtain vs m where built: "build_model (build_index dat) = Inr (vs, m)" by blast
  show ?thesis
  proof (cases "success (solver m)")
    case False
    then show ?thesis
      using assms unfolding solve_optimization_unfold [OF built] by auto
  next
    case True
    then show ?thesis
      using assms unfolding solve_optimization_unfold [OF built]
      by (auto simp add: bind_Inr_iff split: if_splits)
  qed
qed

lemma solve_optimization_failed:
  assumes "build_model (build_index dat) = Inr (vs, m)" and "\<not> success (solver m)"
  shows "solve_optimization dat solver =
           Inr \<lparr>stdout = [Loading_data, Data_loaded, Creating_variables, Adding_constraints,
                          Solving_with (length (var_names m)) (constraint_count m),
                          Solver_status False (message (solver m)), Optimization_failed],
                submission = None\<rparr>"
  using assms by (simp add: solve_optimization_unfold)

section \<open>The model builder\<close>

lemma fold_invariant:
  assumes "I st" and "\<And>x a. x \<in> set xs \<Longrightarrow> I a \<Longrightarrow> I (f x a)"
  shows "I (fold f xs st)"
  using assms by (induction xs arbitrary: st) simp_all

lemma fold_establish:
  assumes "x \<in> set xs" and "\<And>a. Q (f x a)" and "\<And>y a. y \<in> set xs \<Longrightarrow> Q a \<Longrightarrow> Q (f y a)"
  shows "Q (fold f xs st)"
proof -
  from assms(1) obtain pre post where xs: "xs = pre @ x # post"
    by (auto dest: split_list)
  have "Q (f x (fold f pre st))" by (rule assms(2))
  then have "Q (fold f post (f x (fold f pre st)))"
    by (rule fold_invariant) (simp add: assms(3) xs)
  then show ?thesis by (simp add: xs)
qed

lemma add_variable_fields:
  "fst (add_variable m name ty lb ub obj) = length (var_names m)"
  "var_names (snd (add_variable m name ty lb ub obj)) = var_names m @ [name]"
  "obj_coeffs (snd (add_variable m name ty lb ub obj)) = obj_coeffs m @ [obj]"
  "constraints_rows (snd (add_variable m name ty lb ub obj)) = constraints_rows m"
  "constraints_cols (snd (add_variable m name ty lb ub obj)) = constraints_cols m"
  "constraints_vals (snd (add_variable m name ty lb ub obj)) = constraints_vals m"
  "constraints_lbs (snd (add_variable m name ty lb ub obj)) = constraints_lbs m"
  "constraints_ubs (snd (add_variable m name ty lb ub obj)) = constraints_ubs m"
  "constraint_count (snd (add_variable m name ty lb ub obj)) = constraint_count m"
  by (simp_all add: add_variable_def Let_def)

lemma use_km_entry_more:
  assumes "use_km_entry p m k u km"
    and "var_names m' = var_names m @ names" and "obj_coeffs m' = obj_coeffs m @ objs"
    and "length (obj_coeffs m) = length (var_names m)"
  shows "use_km_entry p m' k u km"
proof (cases u)
  case None
  then show ?thesis using assms(1) by (simp add: use_km_entry_def)
next
  case (Some iu)
  obtain t v s d f where k: "k = (t, v, s, d, f)" by (cases k)
  from assms(1) obtain cons ik where
    "consumption p (v, s, t, f) = Some cons" "km = Some ik"
    "iu < length (var_names m)" "ik < length (var_names m)"
    "var_names m ! iu = Use_name t v s d f" "var_names m ! ik = Km_name t v s d f"
    "obj_coeffs m ! iu = 0" "obj_coeffs m ! ik = cons * get (fuel_cost p) (f, t) 0"
    "t \<in> set (years p)" "v \<in> set (vehicle_types p)" "s \<in> set (sizes p)"
    "d \<in> set (distances p)" "f \<in> set (fuel_names p)"
    unfolding use_km_entry_def Some k by auto
  then show ?thesis
    unfolding use_km_entry_def Some k
    by (simp add: assms(2,3,4) nth_append)
qed

lemma use_km_ok_more:
  assumes "use_km_ok p st" and "more_variables st st'"
  shows "use_km_ok p st'"
proof -
  from assms(2) obtain names objs where len: "length names = length objs"
    and names: "var_names (model st') = var_names (model st) @ names"
    and objs: "obj_coeffs (model st') = obj_coeffs (model st) @ objs"
    and dicts: "use_vars st' = use_vars st" "km_vars st' = km_vars st"
    unfolding more_variables_def by blast
  have olen: "length (obj_coeffs (model st)) = length (var_names (model st))"
    and old: "\<And>k. use_km_entry p (model st) k (use_vars st k) (km_vars st k)"
    using assms(1) unfolding use_km_ok_def by blast+
  have "use_km_entry p (model st') k (use_vars st' k) (km_vars st' k)" for k
    unfolding dicts using old names objs olen by (rule use_km_entry_more)
  moreover have "length (obj_coeffs (model st')) = length (var_names (model st'))"
    by (simp add: names objs len olen)
  ultimately show ?thesis unfolding use_km_ok_def by blast
qed

lemma new_buy_more: "more_variables st (new_buy p t v s st)"
  by (simp add: more_variables_def new_buy_def Let_def case_prod_beta add_variable_fields)

lemma new_fleet_more: "more_variables st (new_fleet p t v s age st)"
  by (simp add: more_variables_def new_fleet_def Let_def case_prod_beta add_variable_fields)

lemma new_sell_more: "more_variables st (new_sell p t v s age st)"
  by (simp add: more_variables_def new_sell_def Let_def case_prod_beta add_variable_fields)

lemma new_use_km_fields:
  assumes "consumption p (v, s, t, f) = Some cons"
  shows "var_names (model (new_use_km p t v s d f st)) =
           var_names (model st) @ [Use_name t v s d f, Km_name t v s d f]"
    and "obj_coeffs (model (new_use_km p t v s d f st)) =
           obj_coeffs (model st) @ [0, cons * get (fuel_cost p) (f, t) 0]"
    and "use_vars (new_use_km p t v s d f st) =
           (use_vars st)((t, v, s, d, f) \<mapsto> length (var_names (model st)))"
    and "km_vars (new_use_km p t v s d f st) =
           (km_vars st)((t, v, s, d, f) \<mapsto> Suc (length (var_names (model st))))"
  using assms
  by (simp_all add: new_use_km_def Let_def case_prod_beta add_variable_fields)

lemma new_use_km_skip:
  assumes "consumption p (v, s, t, f) = None"
  shows "new_use_km p t v s d f st = st"
  using assms by (simp add: new_use_km_def)

lemma new_use_km_ok:
  assumes ok: "use_km_ok p st"
    and mem: "t \<in> set (years p)" "v \<in> set (vehicle_types p)" "s \<in> set (sizes p)"
      "d \<in> set (distances p)" "f \<in> set (fuel_names p)"
  shows "use_km_ok p (new_use_km p t v s d f st)"
proof (cases "consumption p (v, s, t, f)")
  case None
  then show ?thesis using ok by (simp add: new_use_km_skip)
next
  case (Some cons)
  let ?st' = "new_use_km p t v s d f st"
  let ?key = "(t, v, s, d, f)"
  note fields = new_use_km_fields [OF Some, of d st]
  let ?n = "length (var_names (model st))"
  have olen: "length (obj_coeffs (model st)) = ?n"
    and old: "\<And>k. use_km_entry p (model st) k (use_vars st k) (km_vars st k)"
    using ok unfolding use_km_ok_def by blast+
  have "use_km_entry p (model ?st') k (use_vars ?st' k) (km_vars ?st' k)" for k
  proof (cases "k = ?key")
    case True
    have "use_km_entry p (model ?st') ?key (Some ?n) (Some (Suc ?n))"
      unfolding use_km_entry_def using Some mem by (simp add: fields(1,2) olen nth_append)
    then show ?thesis by (simp add: True fields(3,4))
  next
    case False
    have same: "use_vars ?st' k = use_vars st k" "km_vars ?st' k = km_vars st k"
      by (simp_all only: fields(3,4) fun_upd_other [OF False])
    show ?thesis
      unfolding same using old fields(1,2) olen by (rule use_km_entry_more)
  qed
  moreover have "length (obj_coeffs (model ?st')) = length (var_names (model ?st'))"
    by (simp add: fields(1,2) olen)
  ultimately show ?thesis unfolding use_km_ok_def by blast
qed

lemma class_vars_ok:
  assumes ok: "use_km_ok p st"
    and mem: "t \<in> set (years p)" "v \<in> set (vehicle_types p)" "s \<in> set (sizes p)"
  shows "use_km_ok p (class_vars p t v s st)"
proof -
  have 1: "use_km_ok p (new_buy p t v s st)"
    using ok new_buy_more by (rule use_km_ok_more)
  have 2: "use_km_ok p (fold (new_fleet p t v s) [0 .. 10] (new_buy p t v s st))"
    using 1 by (rule fold_invariant) (rule use_km_ok_more, assumption, rule new_fleet_more)
  have 3: "use_km_ok p (fold (new_sell p t v s) [1 .. 10]
             (fold (new_fleet p t v s) [0 .. 10] (new_buy p t v s st)))"
    using 2 by (rule fold_invariant) (rule use_km_ok_more, assumption, rule new_sell_more)
  show ?thesis
    unfolding class_vars_def using 3
  proof (rule fold_invariant)
    fix d a assume d: "d \<in> set (distances p)" and a: "use_km_ok p a"
    show "use_km_ok p (fold (\<lambda>f. new_use_km p t v s d f) (fuel_names p) a)"
      using a
    proof (rule fold_invariant)
      fix f b assume "f \<in> set (fuel_names p)" and "use_km_ok p b"
      then show "use_km_ok p (new_use_km p t v s d f b)"
        using mem d by (intro new_use_km_ok)
    qed
  qed
qed

lemma create_variables_ok: "use_km_ok p (create_variables p)"
  unfolding create_variables_def
proof (rule fold_invariant)
  show "use_km_ok p init_builder"
    by (simp add: use_km_ok_def use_km_entry_def init_builder_def init_model_def)
next
  fix t a assume t: "t \<in> set (years p)" and a: "use_km_ok p a"
  show "use_km_ok p (fold (\<lambda>v. fold (\<lambda>s. class_vars p t v s) (sizes p)) (vehicle_types p) a)"
    using a
  proof (rule fold_invariant)
    fix v b assume v: "v \<in> set (vehicle_types p)" and b: "use_km_ok p b"
    show "use_km_ok p (fold (\<lambda>s. class_vars p t v s) (sizes p) b)"
      using b
    proof (rule fold_invariant)
      fix s c assume "s \<in> set (sizes p)" and "use_km_ok p c"
      then show "use_km_ok p (class_vars p t v s c)"
        using t v by (intro class_vars_ok)
    qed
  qed
qed

lemma new_use_km_keeps:
  assumes "use_vars st k \<noteq> None"
  shows "use_vars (new_use_km p t v s d f st) k \<noteq> None"
proof (cases "consumption p (v, s, t, f)")
  case None
  then show ?thesis using assms by (simp add: new_use_km_skip)
next
  case (Some cons)
  show ?thesis using assms by (simp add: new_use_km_fields(3) [OF Some])
qed

lemma new_use_km_adds:
  assumes "consumption p (v, s, t, f) = Some cons"
  shows "use_vars (new_use_km p t v s d f st) (t, v, s, d, f) \<noteq> None"
  by (simp add: new_use_km_fields(3) [OF assms])

lemma class_vars_keeps:
  assumes "use_vars st k \<noteq> None"
  shows "use_vars (class_vars p t v s st) k \<noteq> None"
proof -
  have 1: "use_vars (new_buy p t v s st) k \<noteq> None"
    using assms new_buy_more [of st p t v s] by (simp add: more_variables_def)
  have 2: "use_vars (fold (new_fleet p t v s) [0 .. 10] (new_buy p t v s st)) k \<noteq> None"
    using 1
  proof (rule fold_invariant)
    fix age and a :: builder assume "use_vars a k \<noteq> None"
    then show "use_vars (new_fleet p t v s age a) k \<noteq> None"
      using new_fleet_more [of a p t v s age] by (simp add: more_variables_def)
  qed
  have 3: "use_vars (fold (new_sell p t v s) [1 .. 10]
             (fold (new_fleet p t v s) [0 .. 10] (new_buy p t v s st))) k \<noteq> None"
    using 2
  proof (rule fold_invariant)
    fix age and a :: builder assume "use_vars a k \<noteq> None"
    then show "use_vars (new_sell p t v s age a) k \<noteq> None"
      using new_sell_more [of a p t v s age] by (simp add: more_variables_def)
  qed
  show ?thesis
    unfolding class_vars_def using 3
    by (rule fold_invariant) (rule fold_invariant, assumption, rule new_use_km_keeps)
qed

lemma class_vars_adds:
  assumes "consumption p (v, s, t, f) = Some cons"
    and "d \<in> set (distances p)" and "f \<in> set (fuel_names p)"
  shows "use_vars (class_vars p t v s st) (t, v, s, d, f) \<noteq> None"
  unfolding class_vars_def using assms(2)
proof (rule fold_establish)
  fix a
  show "use_vars (fold (new_use_km p t v s d) (fuel_names p) a) (t, v, s, d, f) \<noteq> None"
    using assms(3)
    by (rule fold_establish) (rule new_use_km_adds [OF assms(1)], rule new_use_km_keeps)
next
  fix d' and a :: builder assume "use_vars a (t, v, s, d, f) \<noteq> None"
  then show "use_vars (fold (new_use_km p t v s d') (fuel_names p) a) (t, v, s, d, f) \<noteq> None"
    by (rule fold_invariant) (rule new_use_km_keeps)
qed

lemma create_variables_adds:
  assumes "consumption p (v, s, t, f) = Some cons"
    and "t \<in> set (years p)" and "v \<in> set (vehicle_types p)" and "s \<in> set (sizes p)"
    and "d \<in> set (distances p)" and "f \<in> set (fuel_names p)"
  shows "use_vars (create_variables p) (t, v, s, d, f) \<noteq> None"
  unfolding create_variables_def using assms(2)
proof (rule fold_establish)
  fix a
  show "use_vars (fold (\<lambda>v. fold (\<lambda>s. class_vars p t v s) (sizes p)) (vehicle_types p) a)
          (t, v, s, d, f) \<noteq> None"
    using assms(3)
  proof (rule fold_establish)
    fix b
    show "use_vars (fold (\<lambda>s. class_vars p t v s) (sizes p) b) (t, v, s, d, f) \<noteq> None"
      using assms(4)
      by (rule fold_establish)
         (rule class_vars_adds [OF assms(1,5,6)], rule class_vars_keeps)
  next
    fix v' and b :: builder assume "use_vars b (t, v, s, d, f) \<noteq> None"
    then show "use_vars (fold (\<lambda>s. class_vars p t v' s) (sizes p) b) (t, v, s, d, f) \<noteq> None"
      by (rule fold_invariant) (rule class_vars_keeps)
  qed
next
  fix t' and a :: builder assume "use_vars a (t, v, s, d, f) \<noteq> None"
  then show "use_vars (fold (\<lambda>v. fold (\<lambda>s. class_vars p t' v s) (sizes p)) (vehicle_types p) a)
          (t, v, s, d, f) \<noteq> None"
    by (rule fold_invariant) (rule fold_invariant, assumption, rule class_vars_keeps)
qed

lemma use_km_okD:
  assumes "use_km_ok p st" and "use_vars st (t, v, s, d, f) = Some iu"
  shows "\<exists>cons ik.
           consumption p (v, s, t, f) = Some cons \<and> km_vars st (t, v, s, d, f) = Some ik \<and>
           iu < length (var_names (model st)) \<and> ik < length (var_names (model st)) \<and>
           var_names (model st) ! iu = Use_name t v s d f \<and>
           var_names (model st) ! ik = Km_name t v s d f \<and>
           obj_coeffs (model st) ! iu = 0 \<and>
           obj_coeffs (model st) ! ik = cons * get (fuel_cost p) (f, t) 0 \<and>
           t \<in> set (years p) \<and> v \<in> set (vehicle_types p) \<and> s \<in> set (sizes p) \<and>
           d \<in> set (distances p) \<and> f \<in> set (fuel_names p)"
proof -
  from assms(1) have "use_km_entry p (model st) (t, v, s, d, f)
      (use_vars st (t, v, s, d, f)) (km_vars st (t, v, s, d, f))"
    unfolding use_km_ok_def by blast
  then show ?thesis by (simp add: use_km_entry_def assms(2))
qed

lemma use_km_ok_noneD:
  assumes "use_km_ok p st" and "use_vars st k = None"
  shows "km_vars st k = None"
proof -
  from assms(1) have "use_km_entry p (model st) k (use_vars st k) (km_vars st k)"
    unfolding use_km_ok_def by blast
  then show ?thesis by (simp add: use_km_entry_def assms(2))
qed

lemma km_use_same_keys:
  assumes "use_km_ok p st"
  shows "km_vars st k = None \<longleftrightarrow> use_vars st k = None"
proof (cases "use_vars st k")
  case None
  then show ?thesis using use_km_ok_noneD [OF assms] by simp
next
  case (Some iu)
  obtain t v s d f where "k = (t, v, s, d, f)" by (cases k)
  then show ?thesis using use_km_okD [OF assms, of t v s d f iu] Some by auto
qed

section \<open>The two-year samples\<close>

lemma two_years_index:
  "years (build_index two_years) = [2023, 2024]"
  "sizes (build_index two_years) = [''S1'']"
  "distances (build_index two_years) = [''D1'']"
  "vehicle_types (build_index two_years) = [''BEV'']"
  "fuel_names (build_index two_years) = [''Electricity'']"
  "demand_dict (build_index two_years) =
     map_of [((2024, ''S1'', ''D1''), 150), ((2023, ''S1'', ''D1''), 125)]"
  "emission_targets (build_index two_years) = map_of [(2024, 900), (2023, 1000)]"
  "vehicle_cost (build_index two_years) =
     map_of [((''BEV'', ''S1'', 2024), 40), ((''BEV'', ''S1'', 2023), 50)]"
  "vehicle_range (build_index two_years) =
     map_of [((''BEV'', ''S1'', 2024), 120), ((''BEV'', ''S1'', 2023), 100)]"
  "fuel_cost (build_index two_years) =
     map_of [((''Electricity'', 2024), 3), ((''Electricity'', 2023), 2)]"
  "fuel_emissions (build_index two_years) =
     map_of [((''Electricity'', 2024), 1 / 2), ((''Electricity'', 2023), 1)]"
  "consumption (build_index two_years) =
     map_of [((''BEV'', ''S1'', 2024, ''Electricity''), 2),
             ((''BEV'', ''S1'', 2023, ''Electricity''), 3)]"
  "resale_profile (build_index two_years) = map_of [(1, 90)]"
  "insurance_profile (build_index two_years) = map_of [(1, 5)]"
  "maintenance_profile (build_index two_years) = map_of [(1, 1)]"
  by (simp_all add: build_index_def two_years_def sorted_unique_def to_dict_def)

lemma two_years_variables: "create_variables (build_index two_years) = two_vars"
  by (simp add: two_years_index ages create_variables_def class_vars_def
      new_buy_def new_fleet_def new_sell_def new_use_km_def add_variable_def
      init_builder_def init_model_def get_def Let_def two_vars_def eval_nat_numeral)

lemma two_vars_fields:
  "buy_vars two_vars = [(2023, ''BEV'', ''S1'') \<mapsto> 0, (2024, ''BEV'', ''S1'') \<mapsto> 4]"
  "sell_vars two_vars = [(2024, ''BEV'', ''S1'', 1) \<mapsto> 7]"
  "use_vars two_vars = [(2023, ''BEV'', ''S1'', ''D1'', ''Electricity'') \<mapsto> 2,
                  (2024, ''BEV'', ''S1'', ''D1'', ''Electricity'') \<mapsto> 8]"
  "km_vars two_vars = [(2023, ''BEV'', ''S1'', ''D1'', ''Electricity'') \<mapsto> 3,
                 (2024, ''BEV'', ''S1'', ''D1'', ''Electricity'') \<mapsto> 9]"
  "fleet_vars two_vars = [(2023, ''BEV'', ''S1'', 0) \<mapsto> 1, (2024, ''BEV'', ''S1'', 0) \<mapsto> 5,
                    (2024, ''BEV'', ''S1'', 1) \<mapsto> 6]"
  by (simp_all add: two_vars_def)

lemma two_years_constraints:
  "add_constraints (build_index two_years) two_vars (model two_vars) = Inr two_model"
  by (simp add: two_years_index two_vars_fields ages add_constraints_def
      fleet_dynamics_def age0_constraint_def aging_constraint_def
      demand_satisfaction_def demand_cell_def demand_terms_def link_constraint_def
      usage_limit_def use_terms_def fleet_terms_def
      emission_caps_def emission_year_def emission_terms_def emission_term_def
      bind_def lookup_def get_def Let_def add_constraint_def add_term_def
      two_model_def) (simp add: two_vars_def)

lemma two_years_model: "build_model (build_index two_years) = Inr (two_vars, two_model)"
  by (simp add: build_model_def two_years_variables two_years_constraints bind_def)

lemma two_model_rows:
  "rows_of two_model =
     [([(1, 1), (- 1, 0)], Fin 0, Fin 0),
      ([(1, 5), (- 1, 4)], Fin 0, Fin 0),
      ([(1, 6), (1, 7), (- 1, 1)], Fin 0, Fin 0),
      ([(1, 7), (- 1, 1)], NegInf, Fin 0),
      ([(1, 3)], Fin 125, Fin 125),
      ([(1, 3), (- 100, 2)], NegInf, Fin 0),
      ([(1, 9)], Fin 150, Fin 150),
      ([(1, 9), (- 120, 8)], NegInf, Fin 0),
      ([(1, 2), (- 1, 1)], NegInf, Fin 0),
      ([(1, 8), (- 1, 5), (- 1, 6)], NegInf, Fin 0),
      ([(3, 3)], NegInf, Fin 1000),
      ([(1, 9)], NegInf, Fin 900)]"
  by (simp add: rows_of_def row_terms_def two_model_def upt_rec)

lemma one_vintage_index:
  "years (build_index one_vintage) = [2023, 2024]"
  "sizes (build_index one_vintage) = [''S1'']"
  "distances (build_index one_vintage) = [''D1'']"
  "vehicle_types (build_index one_vintage) = [''BEV'']"
  "fuel_names (build_index one_vintage) = [''Electricity'']"
  "vehicle_cost (build_index one_vintage) =
     map_of [((''BEV'', ''S1'', 2024), 40), ((''BEV'', ''S1'', 2023), 50)]"
  "fuel_cost (build_index one_vintage) =
     map_of [((''Electricity'', 2024), 3), ((''Electricity'', 2023), 2)]"
  "consumption (build_index one_vintage) =
     map_of [((''BEV'', ''S1'', 2023, ''Electricity''), 3)]"
  "resale_profile (build_index one_vintage) = map_of [(1, 90)]"
  "insurance_profile (build_index one_vintage) = map_of [(1, 5)]"
  "maintenance_profile (build_index one_vintage) = map_of [(1, 1)]"
  by (simp_all add: build_index_def one_vintage_def two_years_def sorted_unique_def to_dict_def)

lemma one_vintage_variables:
  "fleet_vars (create_variables (build_index one_vintage)) (2024, ''BEV'', ''S1'', 1) = Some 6"
  "use_vars (create_variables (build_index one_vintage))
     (2024, ''BEV'', ''S1'', ''D1'', ''Electricity'') = None"
  "km_vars (create_variables (build_index one_vintage))
     (2024, ''BEV'', ''S1'', ''D1'', ''Electricity'') = None"
  "use_vars (create_variables (build_index one_vintage))
     (2023, ''BEV'', ''S1'', ''D1'', ''Electricity'') = Some 2"
  by (simp_all add: one_vintage_index ages create_variables_def class_vars_def
      new_buy_def new_fleet_def new_sell_def new_use_km_def add_variable_def
      init_builder_def init_model_def get_def Let_def)

lemma late_demand_index:
  "years (build_index late_demand) = [2023]"
  "sizes (build_index late_demand) = [''S1'']"
  "distances (build_index late_demand) = [''D1'', ''D2'']"
  "vehicle_types (build_index late_demand) = [''BEV'']"
  "fuel_names (build_index late_demand) = [''Electricity'']"
  "demand_dict (build_index late_demand) =
     map_of [((2024, ''S1'', ''D1''), 77), ((2023, ''S1'', ''D2''), 40),
             ((2023, ''S1'', ''D1''), 125)]"
  "emission_targets (build_index late_demand) = map_of [(2023, 1000)]"
  "vehicle_cost (build_index late_demand) = map_of [((''BEV'', ''S1'', 2023), 50)]"
  "vehicle_range (build_index late_demand) = map_of [((''BEV'', ''S1'', 2023), 100)]"
  "fuel_cost (build_index late_demand) = map_of [((''Electricity'', 2023), 2)]"
  "fuel_emissions (build_index late_demand) = map_of [((''Electricity'', 2023), 1)]"
  "consumption (build_index late_demand) =
     map_of [((''BEV'', ''S1'', 2023, ''Electricity''), 3)]"
  "resale_profile (build_index late_demand) = map_of [(1, 90)]"
  "insurance_profile (build_index late_demand) = map_of [(1, 5)]"
  "maintenance_profile (build_index late_demand) = map_of [(1, 1)]"
  by (simp_all add: build_index_def late_demand_def single_year_def sorted_unique_def to_dict_def)

lemma late_demand_variables: "create_variables (build_index late_demand) = single_vars"
  by (simp add: late_demand_index ages create_variables_def class_vars_def
      new_buy_def new_fleet_def new_sell_def new_use_km_def add_variable_def
      init_builder_def init_model_def get_def Let_def single_vars_def eval_nat_numeral)

lemma late_demand_constraints:
  "add_constraints (build_index late_demand) single_vars (model single_vars) =
     Inr (single_model 1000 125 40)"
  by (simp add: late_demand_index single_vars_fields ages add_constraints_def
      fleet_dynamics_def age0_constraint_def aging_constraint_def
      demand_satisfaction_def demand_cell_def demand_terms_def link_constraint_def
      usage_limit_def use_terms_def fleet_terms_def
      emission_caps_def emission_year_def emission_terms_def emission_term_def
      bind_def lookup_def get_def Let_def add_constraint_def add_term_def
      single_model_def) (simp add: single_vars_def)

lemma late_demand_model:
  "build_model (build_index late_demand) = Inr (single_vars, single_model 1000 125 40)"
  by (simp add: build_model_def late_demand_variables late_demand_constraints bind_def)

section \<open>The constraint generator\<close>

lemma extends_refl: "extends m m"
  by (simp add: extends_def)

lemma extends_trans: "extends a b \<Longrightarrow> extends b c \<Longrightarrow> extends a c"
  by (auto simp add: extends_def)

lemma extends_subset: "extends a b \<Longrightarrow> set (rows_of a) \<subseteq> set (rows_of b)"
  by (auto simp add: extends_def)

lemma add_constraint_le_grows:
  assumes "wf_rows m"
  shows "wf_rows (add_constraint m ts ''<='' rhs) \<and> extends m (add_constraint m ts ''<='' rhs)"
  using add_constraint_le [OF assms, of ts rhs] by (simp add: extends_def)

lemma no_constraints_wf: "no_constraints m \<Longrightarrow> wf_rows m \<and> rows_of m = []"
  by (simp add: no_constraints_def wf_rows_def rows_of_def)

subsection \<open>Rows of the fleet dynamics\<close>

lemma age0_constraint_row:
  assumes "age0_constraint vs t v s m = Inr m'" and "wf_rows m"
  shows "wf_rows m' \<and>
         (\<exists>fi bi. fleet_vars vs (t, v, s, 0) = Some fi \<and> buy_vars vs (t, v, s) = Some bi \<and>
            rows_of m' = rows_of m @ [([(1, fi), (- 1, bi)], Fin 0, Fin 0)])"
proof -
  from assms(1) obtain fi bi where fi: "fleet_vars vs (t, v, s, 0) = Some fi"
    and bi: "buy_vars vs (t, v, s) = Some bi"
    and m': "m' = add_constraint m [(1, fi), (- 1, bi)] ''=='' 0"
    by (auto simp add: age0_constraint_def bind_Inr_iff lookup_Inr_iff)
  show ?thesis
    using add_constraint_eq [OF assms(2), of "[(1, fi), (- 1, bi)]" 0] fi bi
    by (simp add: m')
qed

lemma aging_constraint_skip:
  assumes "\<not> 2023 \<le> t - age"
  shows "aging_constraint vs t v s age m = Inr m"
  using assms by (simp add: aging_constraint_def)

lemma aging_constraint_rows:
  assumes run: "aging_constraint vs t v s age m = Inr m'" and wf: "wf_rows m"
    and age: "2023 \<le> t - age" "1 \<le> age"
  shows "wf_rows m' \<and>
         (\<exists>fi si fp. fleet_vars vs (t, v, s, age) = Some fi \<and>
            sell_vars vs (t, v, s, age) = Some si \<and>
            fleet_vars vs (t - 1, v, s, age - 1) = Some fp \<and>
            rows_of m' = rows_of m @
              [([(1, fi), (1, si), (- 1, fp)], Fin 0, Fin 0),
               ([(1, si), (- 1, fp)], NegInf, Fin 0)])"
proof -
  have t: "2023 < t" using age by simp
  from run age(1) t obtain fi si fp where fi: "fleet_vars vs (t, v, s, age) = Some fi"
    and si: "sell_vars vs (t, v, s, age) = Some si"
    and fp: "fleet_vars vs (t - 1, v, s, age - 1) = Some fp"
    and m': "m' = add_constraint (add_constraint m [(1, fi), (1, si), (- 1, fp)] ''=='' 0)
                    [(1, si), (- 1, fp)] ''<='' 0"
    by (auto simp add: aging_constraint_def bind_Inr_iff lookup_Inr_iff Let_def)
  let ?m1 = "add_constraint m [(1, fi), (1, si), (- 1, fp)] ''=='' 0"
  note one = add_constraint_eq [OF wf, of "[(1, fi), (1, si), (- 1, fp)]" 0]
  note two = add_constraint_le [OF one(2), of "[(1, si), (- 1, fp)]" 0]
  show ?thesis
    using fi si fp one two by (simp add: m')
qed

lemma aging_constraint_grows:
  assumes "aging_constraint vs t v s age m = Inr m'" and "wf_rows m" and "1 \<le> age"
  shows "wf_rows m' \<and> extends m m'"
proof (cases "2023 \<le> t - age")
  case True
  from aging_constraint_rows [OF assms(1,2) True assms(3)] show ?thesis
    by (auto simp add: extends_def)
next
  case False
  then show ?thesis using assms aging_constraint_skip [OF False, of vs v s m]
    by (simp add: extends_refl)
qed

lemma recurrence_rows_mono:
  assumes "recurrence_rows vs t v s R" and "R \<subseteq> R'"
  shows "recurrence_rows vs t v s R'"
  using assms unfolding recurrence_rows_def by blast

lemma for_each_grows:
  assumes "for_each xs body m = Inr m'" and "wf_rows m"
    and "\<And>x a b. x \<in> set xs \<Longrightarrow> wf_rows a \<Longrightarrow> body x a = Inr b \<Longrightarrow> wf_rows b \<and> extends a b"
  shows "wf_rows m' \<and> extends m m'"
  using assms(1,2)
proof (rule for_each_rel [where I = wf_rows and R = extends])
  fix y a b assume "y \<in> set xs" "wf_rows a" "body y a = Inr b"
  then show "wf_rows b \<and> extends a b" by (rule assms(3))
qed (rule extends_refl, rule extends_trans)

lemma for_each_grows_visits:
  assumes "for_each xs body m = Inr m'" and "x \<in> set xs" and "wf_rows m"
    and "\<And>y a b. y \<in> set xs \<Longrightarrow> wf_rows a \<Longrightarrow> body y a = Inr b \<Longrightarrow> wf_rows b \<and> extends a b"
  shows "\<exists>a b. wf_rows a \<and> body x a = Inr b \<and> extends b m' \<and> wf_rows m'"
proof -
  have "\<exists>a b. wf_rows a \<and> body x a = Inr b \<and> extends m a \<and> extends b m' \<and> wf_rows m'"
    using assms(1,2,3)
  proof (rule for_each_visits [where I = wf_rows and R = extends])
    fix y a b assume "y \<in> set xs" "wf_rows a" "body y a = Inr b"
    then show "wf_rows b \<and> extends a b" by (rule assms(4))
  qed (rule extends_refl, rule extends_trans)
  then show ?thesis by blast
qed

lemma fleet_class_rows:
  assumes run: "bind (age0_constraint vs t v s m) (for_each [1 .. 10] (aging_constraint vs t v s))
                  = Inr m'"
    and wf: "wf_rows m"
  shows "wf_rows m' \<and> extends m m' \<and> recurrence_rows vs t v s (set (rows_of m'))"
proof -
  from run obtain m1 where zero: "age0_constraint vs t v s m = Inr m1"
    and loop: "for_each [1 .. 10] (aging_constraint vs t v s) m1 = Inr m'"
    by (auto simp add: bind_Inr_iff)
  from age0_constraint_row [OF zero wf] obtain fi bi where wf1: "wf_rows m1"
    and fi: "fleet_vars vs (t, v, s, 0) = Some fi" and bi: "buy_vars vs (t, v, s) = Some bi"
    and rows1: "rows_of m1 = rows_of m @ [([(1, fi), (- 1, bi)], Fin 0, Fin 0)]"
    by blast
  have step: "wf_rows b \<and> extends a b"
    if "age \<in> set [1 .. 10]" "wf_rows a" "aging_constraint vs t v s age a = Inr b" for age a b
    using that by (intro aging_constraint_grows [of vs t v s age a b]) simp_all
  have grow: "wf_rows m' \<and> extends m1 m'"
    using loop wf1 step by (rule for_each_grows)
  have ext1: "extends m m1" using rows1 by (simp add: extends_def)
  have "([(1, fi), (- 1, bi)], Fin 0, Fin 0) \<in> set (rows_of m')"
    using extends_subset [of m1 m'] grow rows1 by auto
  moreover have "\<exists>fi si fp. fleet_vars vs (t, v, s, age) = Some fi \<and>
           sell_vars vs (t, v, s, age) = Some si \<and>
           fleet_vars vs (t - 1, v, s, age - 1) = Some fp \<and>
           ([(1, fi), (1, si), (- 1, fp)], Fin 0, Fin 0) \<in> set (rows_of m') \<and>
           ([(1, si), (- 1, fp)], NegInf, Fin 0) \<in> set (rows_of m')"
    if age: "1 \<le> age \<and> age \<le> 10 \<and> 2023 \<le> t - age" for age
  proof -
    have mem: "age \<in> set [1 .. 10]" using age by simp
    have "\<exists>a b. wf_rows a \<and> aging_constraint vs t v s age a = Inr b \<and> extends b m' \<and>
             wf_rows m'"
      using loop mem wf1 by (rule for_each_grows_visits) (rule step)
    then obtain a b where a: "wf_rows a" and b: "aging_constraint vs t v s age a = Inr b"
      and ext: "extends b m'"
      by blast
    from aging_constraint_rows [OF b a] age
    obtain fi si fp where "fleet_vars vs (t, v, s, age) = Some fi"
      "sell_vars vs (t, v, s, age) = Some si"
      "fleet_vars vs (t - 1, v, s, age - 1) = Some fp"
      "rows_of b = rows_of a @
              [([(1, fi), (1, si), (- 1, fp)], Fin 0, Fin 0),
               ([(1, si), (- 1, fp)], NegInf, Fin 0)]"
      by blast
    then show ?thesis using extends_subset [OF ext] by auto
  qed
  ultimately have "recurrence_rows vs t v s (set (rows_of m'))"
    unfolding recurrence_rows_def using fi bi by blast
  then show ?thesis using grow ext1 extends_trans by blast
qed

lemma fleet_dynamics_rows:
  assumes run: "fleet_dynamics p vs m = Inr m'" and wf: "wf_rows m"
  shows "wf_rows m' \<and> extends m m'"
    and "t \<in> set (years p) \<Longrightarrow> v \<in> set (vehicle_types p) \<Longrightarrow> s \<in> set (sizes p) \<Longrightarrow>
         recurrence_rows vs t v s (set (rows_of m'))"
proof -
  let ?cls = "\<lambda>t v s m. bind (age0_constraint vs t v s m)
                 (for_each [1 .. 10] (aging_constraint vs t v s))"
  have cls: "wf_rows b \<and> extends a b" if "wf_rows a" "?cls t v s a = Inr b" for t v s a b
    using fleet_class_rows [OF that(2,1)] by simp
  have sz: "wf_rows b \<and> extends a b"
    if "wf_rows a" "for_each (sizes p) (?cls t v) a = Inr b" for t v a b
    using that(2,1) by (rule for_each_grows) (rule cls)
  have vt: "wf_rows b \<and> extends a b"
    if "wf_rows a"
      "for_each (vehicle_types p) (\<lambda>v. for_each (sizes p) (?cls t v)) a = Inr b" for t a b
    using that(2,1) by (rule for_each_grows) (rule sz)
  have run': "for_each (years p) (\<lambda>t. for_each (vehicle_types p)
                (\<lambda>v. for_each (sizes p) (?cls t v))) m = Inr m'"
    using run by (simp add: fleet_dynamics_def)
  show "wf_rows m' \<and> extends m m'"
    using run' wf by (rule for_each_grows) (rule vt)
  assume t: "t \<in> set (years p)" and v: "v \<in> set (vehicle_types p)" and s: "s \<in> set (sizes p)"
  have "\<exists>a b. wf_rows a \<and>
          for_each (vehicle_types p) (\<lambda>v. for_each (sizes p) (?cls t v)) a = Inr b \<and>
          extends b m' \<and> wf_rows m'"
    using run' t wf by (rule for_each_grows_visits) (rule vt)
  then obtain a1 b1 where a1: "wf_rows a1"
    and b1: "for_each (vehicle_types p) (\<lambda>v. for_each (sizes p) (?cls t v)) a1 = Inr b1"
    and e1: "extends b1 m'"
    by blast
  have "\<exists>a b. wf_rows a \<and> for_each (sizes p) (?cls t v) a = Inr b \<and>
          extends b b1 \<and> wf_rows b1"
    using b1 v a1 by (rule for_each_grows_visits) (rule sz)
  then obtain a2 b2 where a2: "wf_rows a2"
    and b2: "for_each (sizes p) (?cls t v) a2 = Inr b2" and e2: "extends b2 b1"
    by blast
  have "\<exists>a b. wf_rows a \<and> ?cls t v s a = Inr b \<and> extends b b2 \<and> wf_rows b2"
    using b2 s a2 by (rule for_each_grows_visits) (rule cls)
  then obtain a3 b3 where a3: "wf_rows a3" and b3: "?cls t v s a3 = Inr b3" and e3: "extends b3 b2"
    by blast
  have "recurrence_rows vs t v s (set (rows_of b3))"
    using fleet_class_rows [OF b3 a3] by simp
  moreover have "set (rows_of b3) \<subseteq> set (rows_of m')"
    using e1 e2 e3 extends_trans extends_subset by blast
  ultimately show "recurrence_rows vs t v s (set (rows_of m'))"
    by (rule recurrence_rows_mono)
qed

subsection \<open>Rows of the demand satisfaction\<close>

lemma fold_collect:
  assumes "\<And>x acc. x \<in> set xs \<Longrightarrow> f x acc = acc @ g x"
  shows "fold f xs acc = acc @ concat (map g xs)"
  using assms by (induction xs arbitrary: acc) simp_all

lemma demand_terms_eq:
  "demand_terms p vs t s d =
     [(1, ik). v \<leftarrow> vehicle_types p, f \<leftarrow> fuel_names p, ik \<leftarrow> present (km_vars vs (t, v, s, d, f))]"
proof -
  have inner: "fold (\<lambda>f terms. case km_vars vs (t, v, s, d, f) of
                   None \<Rightarrow> terms | Some ik \<Rightarrow> terms @ [(1, ik)]) (fuel_names p) acc =
               acc @ concat (map (\<lambda>f. concat (map (\<lambda>ik. [(1, ik)])
                        (present (km_vars vs (t, v, s, d, f))))) (fuel_names p))" for v acc
    by (rule fold_collect) (simp add: present_def split: option.splits)
  have "demand_terms p vs t s d =
          [] @ concat (map (\<lambda>v. concat (map (\<lambda>f. concat (map (\<lambda>ik. [(1, ik)])
                        (present (km_vars vs (t, v, s, d, f))))) (fuel_names p))) (vehicle_types p))"
    unfolding demand_terms_def by (rule fold_collect) (rule inner)
  then show ?thesis by simp
qed

lemma link_constraint_grows:
  assumes "link_constraint p vs t s d v f m = Inr m'" and "wf_rows m"
  shows "wf_rows m' \<and> extends m m'"
proof (cases "km_vars vs (t, v, s, d, f)")
  case None
  then show ?thesis using assms by (simp add: link_constraint_def extends_refl)
next
  case (Some ik)
  with assms(1) obtain iu where
    "m' = add_constraint m [(1, ik), (- get (vehicle_range p) (v, s, t) 0, iu)] ''<='' 0"
    by (auto simp add: link_constraint_def bind_Inr_iff Let_def)
  then show ?thesis using add_constraint_le_grows [OF assms(2)] by simp
qed

lemma demand_cell_rows:
  assumes run: "demand_cell p vs t s d m = Inr m'" and wf: "wf_rows m"
  shows "wf_rows m' \<and> extends m m' \<and>
         (\<exists>dem. demand_dict p (t, s, d) = Some dem \<and>
            (demand_terms p vs t s d, Fin dem, Fin dem) \<in> set (rows_of m'))"
proof -
  let ?m1 = "\<lambda>dem. add_constraint m (demand_terms p vs t s d) ''=='' dem"
  from run obtain dem where dem: "demand_dict p (t, s, d) = Some dem"
    and loop: "for_each (vehicle_types p) (\<lambda>v.
                 for_each (fuel_names p) (link_constraint p vs t s d v)) (?m1 dem) = Inr m'"
    by (auto simp add: demand_cell_def Let_def bind_Inr_iff lookup_Inr_iff)
  note one = add_constraint_eq [OF wf, of "demand_terms p vs t s d" dem]
  have inner: "wf_rows b \<and> extends a b"
    if "wf_rows a" "for_each (fuel_names p) (link_constraint p vs t s d v) a = Inr b" for v a b
    using that(2,1) by (rule for_each_grows) (rule link_constraint_grows)
  have grow: "wf_rows m' \<and> extends (?m1 dem) m'"
    using loop one(2) by (rule for_each_grows) (rule inner)
  have "(demand_terms p vs t s d, Fin dem, Fin dem) \<in> set (rows_of (?m1 dem))"
    by (simp add: one(1))
  then have "(demand_terms p vs t s d, Fin dem, Fin dem) \<in> set (rows_of m')"
    using extends_subset grow by blast
  moreover have "extends m (?m1 dem)" using one(1) by (simp add: extends_def)
  ultimately show ?thesis using grow dem extends_trans by blast
qed

lemma demand_satisfaction_rows:
  assumes run: "demand_satisfaction p vs m = Inr m'" and wf: "wf_rows m"
  shows "wf_rows m' \<and> extends m m'"
    and "t \<in> set (years p) \<Longrightarrow> s \<in> set (sizes p) \<Longrightarrow> d \<in> set (distances p) \<Longrightarrow>
         \<exists>dem. demand_dict p (t, s, d) = Some dem \<and>
            (demand_terms p vs t s d, Fin dem, Fin dem) \<in> set (rows_of m')"
proof -
  have cell: "wf_rows b \<and> extends a b" if "wf_rows a" "demand_cell p vs t s d a = Inr b"
    for t s d a b
    using demand_cell_rows [OF that(2,1)] by simp
  have ds: "wf_rows b \<and> extends a b"
    if "wf_rows a" "for_each (distances p) (demand_cell p vs t s) a = Inr b" for t s a b
    using that(2,1) by (rule for_each_grows) (rule cell)
  have sz: "wf_rows b \<and> extends a b"
    if "wf_rows a"
      "for_each (sizes p) (\<lambda>s. for_each (distances p) (demand_cell p vs t s)) a = Inr b" for t a b
    using that(2,1) by (rule for_each_grows) (rule ds)
  have run': "for_each (years p) (\<lambda>t. for_each (sizes p)
                (\<lambda>s. for_each (distances p) (demand_cell p vs t s))) m = Inr m'"
    using run by (simp add: demand_satisfaction_def)
  show "wf_rows m' \<and> extends m m'"
    using run' wf by (rule for_each_grows) (rule sz)
  assume t: "t \<in> set (years p)" and s: "s \<in> set (sizes p)" and d: "d \<in> set (distances p)"
  have "\<exists>a b. wf_rows a \<and>
          for_each (sizes p) (\<lambda>s. for_each (distances p) (demand_cell p vs t s)) a = Inr b \<and>
          extends b m' \<and> wf_rows m'"
    using run' t wf by (rule for_each_grows_visits) (rule sz)
  then obtain a1 b1 where a1: "wf_rows a1"
    and b1: "for_each (sizes p) (\<lambda>s. for_each (distances p) (demand_cell p vs t s)) a1 = Inr b1"
    and e1: "extends b1 m'"
    by blast
  have "\<exists>a b. wf_rows a \<and> for_each (distances p) (demand_cell p vs t s) a = Inr b \<and>
          extends b b1 \<and> wf_rows b1"
    using b1 s a1 by (rule for_each_grows_visits) (rule ds)
  then obtain a2 b2 where a2: "wf_rows a2"
    and b2: "for_each (distances p) (demand_cell p vs t s) a2 = Inr b2" and e2: "extends b2 b1"
    by blast
  have "\<exists>a b. wf_rows a \<and> demand_cell p vs t s d a = Inr b \<and> extends b b2 \<and> wf_rows b2"
    using b2 d a2 by (rule for_each_grows_visits) (rule cell)
  then obtain a3 b3 where a3: "wf_rows a3" and b3: "demand_cell p vs t s d a3 = Inr b3"
    and e3: "extends b3 b2"
    by blast
  from demand_cell_rows [OF b3 a3] obtain dem where "demand_dict p (t, s, d) = Some dem"
    and "(demand_terms p vs t s d, Fin dem, Fin dem) \<in> set (rows_of b3)"
    by blast
  moreover have "set (rows_of b3) \<subseteq> set (rows_of m')"
    using e1 e2 e3 extends_trans extends_subset by blast
  ultimately show "\<exists>dem. demand_dict p (t, s, d) = Some dem \<and>
            (demand_terms p vs t s d, Fin dem, Fin dem) \<in> set (rows_of m')"
    by blast
qed

subsection \<open>Rows of the usage limit\<close>

lemma usage_limit_grows:
  assumes "wf_rows m"
  shows "wf_rows (usage_limit p vs m) \<and> extends m (usage_limit p vs m)"
proof -
  let ?P = "\<lambda>a. wf_rows a \<and> extends m a"
  have step: "?P (add_constraint a ts ''<='' 0)" if "?P a" for a ts
    using add_constraint_le_grows [of a ts 0] that extends_trans by blast
  have "?P (usage_limit p vs m)"
    unfolding usage_limit_def
    by (rule fold_invariant, simp add: assms extends_refl,
        rule fold_invariant, assumption, rule fold_invariant, assumption, rule step)
  then show ?thesis .
qed

subsection \<open>Rows of the emission targets\<close>

lemma for_each_collect:
  assumes "for_each xs body acc = Inr acc'"
    and "\<And>x a b. x \<in> set xs \<Longrightarrow> body x a = Inr b \<Longrightarrow> b = a @ g x"
  shows "acc' = acc @ concat (map g xs)"
  using assms
proof (induction xs arbitrary: acc)
  case Nil
  then show ?case by simp
next
  case (Cons x xs)
  from Cons.prems(1) obtain a where a: "body x acc = Inr a" and rest: "for_each xs body a = Inr acc'"
    by (cases "body x acc") simp_all
  have "a = acc @ g x" using Cons.prems(2) [of x acc a] a by simp
  moreover have "acc' = a @ concat (map g xs)"
    using rest by (rule Cons.IH) (simp add: Cons.prems(2))
  ultimately show ?case by simp
qed

lemma emission_term_eq:
  assumes "emission_term p vs t v s d f terms = Inr terms'"
  shows "terms' = terms @
           [(cons * get (fuel_emissions p) (f, t) 0, ik).
              ik \<leftarrow> present (km_vars vs (t, v, s, d, f)),
              cons \<leftarrow> present (consumption p (v, s, t, f))]"
  using assms
  by (auto simp add: emission_term_def bind_Inr_iff lookup_Inr_iff Let_def present_def
      split: option.splits)

lemma emission_terms_eq:
  assumes "emission_terms p vs t = Inr terms"
  shows "terms =
           [(cons * get (fuel_emissions p) (f, t) 0, ik).
              v \<leftarrow> vehicle_types p, s \<leftarrow> sizes p, d \<leftarrow> distances p, f \<leftarrow> fuel_names p,
              ik \<leftarrow> present (km_vars vs (t, v, s, d, f)),
              cons \<leftarrow> present (consumption p (v, s, t, f))]"
proof -
  let ?g4 = "\<lambda>v s d f. [(cons * get (fuel_emissions p) (f, t) 0, ik).
              ik \<leftarrow> present (km_vars vs (t, v, s, d, f)),
              cons \<leftarrow> present (consumption p (v, s, t, f))]"
  let ?g3 = "\<lambda>v s d. concat (map (?g4 v s d) (fuel_names p))"
  let ?g2 = "\<lambda>v s. concat (map (?g3 v s) (distances p))"
  let ?g1 = "\<lambda>v. concat (map (?g2 v) (sizes p))"
  have l4: "b = a @ ?g3 v s d"
    if "for_each (fuel_names p) (emission_term p vs t v s d) a = Inr b" for v s d a b
    using that by (rule for_each_collect) (rule emission_term_eq)
  have l3: "b = a @ ?g2 v s"
    if "for_each (distances p) (\<lambda>d. for_each (fuel_names p) (emission_term p vs t v s d)) a
          = Inr b" for v s a b
    using that by (rule for_each_collect) (rule l4)
  have l2: "b = a @ ?g1 v"
    if "for_each (sizes p) (\<lambda>s. for_each (distances p)
          (\<lambda>d. for_each (fuel_names p) (emission_term p vs t v s d))) a = Inr b" for v a b
    using that by (rule for_each_collect) (rule l3)
  have "terms = [] @ concat (map ?g1 (vehicle_types p))"
    using assms unfolding emission_terms_def by (rule for_each_collect) (rule l2)
  then show ?thesis by simp
qed

lemma emission_year_row:
  assumes "emission_year p vs t m = Inr m'" and "wf_rows m"
  shows "wf_rows m' \<and>
         (\<exists>terms cap. emission_terms p vs t = Inr terms \<and> emission_targets p t = Some cap \<and>
            rows_of m' = rows_of m @ [(terms, NegInf, Fin cap)])"
proof -
  from assms(1) obtain terms cap where terms: "emission_terms p vs t = Inr terms"
    and cap: "emission_targets p t = Some cap"
    and m': "m' = add_constraint m terms ''<='' cap"
    by (auto simp add: emission_year_def bind_Inr_iff lookup_Inr_iff)
  show ?thesis
    using add_constraint_le [OF assms(2), of terms cap] terms cap by (simp add: m')
qed

lemma for_each_rows:
  assumes "for_each xs body m = Inr m'" and "wf_rows m"
    and "\<And>x a b. x \<in> set xs \<Longrightarrow> wf_rows a \<Longrightarrow> body x a = Inr b \<Longrightarrow>
           wf_rows b \<and> (\<exists>r. G x r \<and> rows_of b = rows_of a @ [r])"
  shows "wf_rows m' \<and> (\<exists>rs. rows_of m' = rows_of m @ rs \<and> list_all2 G xs rs)"
  using assms
proof (induction xs arbitrary: m)
  case Nil
  then show ?case by simp
next
  case (Cons x xs)
  from Cons.prems(1) obtain a where a: "body x m = Inr a" and rest: "for_each xs body a = Inr m'"
    by (cases "body x m") simp_all
  from Cons.prems(3) [of x m a] Cons.prems(2) a
  obtain r where wfa: "wf_rows a" and r: "G x r" and rows: "rows_of a = rows_of m @ [r]"
    by auto
  have "wf_rows m' \<and> (\<exists>rs. rows_of m' = rows_of a @ rs \<and> list_all2 G xs rs)"
    using rest wfa
  proof (rule Cons.IH)
    fix y c e assume "y \<in> set xs" "wf_rows c" "body y c = Inr e"
    then show "wf_rows e \<and> (\<exists>r. G y r \<and> rows_of e = rows_of c @ [r])"
      using Cons.prems(3) [of y c e] by simp
  qed
  then obtain rs where "wf_rows m'" "rows_of m' = rows_of a @ rs" "list_all2 G xs rs"
    by blast
  then have "rows_of m' = rows_of m @ (r # rs) \<and> list_all2 G (x # xs) (r # rs)"
    using r rows by simp
  then show ?case using \<open>wf_rows m'\<close> by blast
qed

lemma emission_caps_rows:
  assumes "emission_caps p vs m = Inr m'" and "wf_rows m"
  shows "wf_rows m' \<and>
         (\<exists>rs. rows_of m' = rows_of m @ rs \<and>
            list_all2 (\<lambda>t r. \<exists>terms cap. emission_terms p vs t = Inr terms \<and>
                          emission_targets p t = Some cap \<and> r = (terms, NegInf, Fin cap))
              (years p) rs)"
  using assms unfolding emission_caps_def
proof (rule for_each_rows)
  fix t a b assume "wf_rows a" "emission_year p vs t a = Inr b"
  from emission_year_row [OF this(2,1)]
  show "wf_rows b \<and> (\<exists>r. (\<exists>terms cap. emission_terms p vs t = Inr terms \<and>
                          emission_targets p t = Some cap \<and> r = (terms, NegInf, Fin cap)) \<and>
                       rows_of b = rows_of a @ [r])"
    by blast
qed

subsection \<open>Rows of the whole model\<close>

lemma new_buy_dicts:
  "fleet_vars (new_buy p t v s st) = fleet_vars st"
  "sell_vars (new_buy p t v s st) = sell_vars st"
  "no_constraints (model st) \<Longrightarrow> no_constraints (model (new_buy p t v s st))"
  by (simp_all add: new_buy_def Let_def case_prod_beta no_constraints_def add_variable_fields)

lemma new_fleet_dicts:
  "fleet_vars (new_fleet p t v s age st) =
     (if 2023 \<le> t - age
      then (fleet_vars st)((t, v, s, age) \<mapsto> length (var_names (model st)))
      else fleet_vars st)"
  "sell_vars (new_fleet p t v s age st) = sell_vars st"
  "no_constraints (model st) \<Longrightarrow> no_constraints (model (new_fleet p t v s age st))"
  by (simp_all add: new_fleet_def Let_def case_prod_beta no_constraints_def add_variable_fields)

lemma new_sell_dicts:
  "sell_vars (new_sell p t v s age st) =
     (if 2023 \<le> t - age
      then (sell_vars st)((t, v, s, age) \<mapsto> length (var_names (model st)))
      else sell_vars st)"
  "fleet_vars (new_sell p t v s age st) = fleet_vars st"
  "no_constraints (model st) \<Longrightarrow> no_constraints (model (new_sell p t v s age st))"
  by (simp_all add: new_sell_def Let_def case_prod_beta no_constraints_def add_variable_fields)

lemma new_use_km_dicts:
  "fleet_vars (new_use_km p t v s d f st) = fleet_vars st"
  "sell_vars (new_use_km p t v s d f st) = sell_vars st"
  "no_constraints (model st) \<Longrightarrow> no_constraints (model (new_use_km p t v s d f st))"
  by (simp_all add: new_use_km_def Let_def case_prod_beta no_constraints_def add_variable_fields
      split: option.splits)

lemma class_vars_fleet_sell:
  assumes ok: "fleet_sell_ok p st \<and> no_constraints (model st)" and t: "t \<in> set (years p)"
  shows "fleet_sell_ok p (class_vars p t v s st) \<and> no_constraints (model (class_vars p t v s st))"
proof -
  let ?P = "\<lambda>st. fleet_sell_ok p st \<and> no_constraints (model st)"
  have 1: "?P (new_buy p t v s st)"
    using ok by (simp add: fleet_sell_ok_def new_buy_dicts)
  have 2: "?P (fold (new_fleet p t v s) [0 .. 10] (new_buy p t v s st))"
    using 1
  proof (rule fold_invariant)
    fix age and a :: builder assume "age \<in> set [0 .. 10]" and "?P a"
    then show "?P (new_fleet p t v s age a)"
      using t by (auto simp add: fleet_sell_ok_def new_fleet_dicts)
  qed
  have 3: "?P (fold (new_sell p t v s) [1 .. 10]
             (fold (new_fleet p t v s) [0 .. 10] (new_buy p t v s st)))"
    using 2
  proof (rule fold_invariant)
    fix age and a :: builder assume "age \<in> set [1 .. 10]" and "?P a"
    then show "?P (new_sell p t v s age a)"
      using t by (auto simp add: fleet_sell_ok_def new_sell_dicts)
  qed
  have 4: "?P (new_use_km p t v s d f a)" if "?P a" for d f and a :: builder
    using that by (simp add: fleet_sell_ok_def new_use_km_dicts)
  show ?thesis
    unfolding class_vars_def using 3
    by (rule fold_invariant) (rule fold_invariant, assumption, rule 4)
qed

lemma create_variables_fleet_sell:
  "fleet_sell_ok p (create_variables p) \<and> no_constraints (model (create_variables p))"
  unfolding create_variables_def
proof (rule fold_invariant)
  show "fleet_sell_ok p init_builder \<and> no_constraints (model init_builder)"
    by (simp add: fleet_sell_ok_def no_constraints_def init_builder_def init_model_def)
next
  fix t and a :: builder
  assume t: "t \<in> set (years p)" and a: "fleet_sell_ok p a \<and> no_constraints (model a)"
  show "fleet_sell_ok p (fold (\<lambda>v. fold (\<lambda>s. class_vars p t v s) (sizes p)) (vehicle_types p) a)
        \<and> no_constraints (model (fold (\<lambda>v. fold (\<lambda>s. class_vars p t v s) (sizes p))
                                    (vehicle_types p) a))"
    using a
  proof (rule fold_invariant)
    fix v and b :: builder assume b: "fleet_sell_ok p b \<and> no_constraints (model b)"
    show "fleet_sell_ok p (fold (\<lambda>s. class_vars p t v s) (sizes p) b) \<and>
          no_constraints (model (fold (\<lambda>s. class_vars p t v s) (sizes p) b))"
      using b
    proof (rule fold_invariant)
      fix s and c :: builder assume "fleet_sell_ok p c \<and> no_constraints (model c)"
      then show "fleet_sell_ok p (class_vars p t v s c) \<and>
                 no_constraints (model (class_vars p t v s c))"
        using t by (rule class_vars_fleet_sell)
    qed
  qed
qed

lemma build_model_phases:
  assumes "build_model p = Inr (vs, m)"
  shows "vs = create_variables p"
    and "\<exists>m1 m2. fleet_dynamics p vs (model vs) = Inr m1 \<and>
           demand_satisfaction p vs m1 = Inr m2 \<and>
           emission_caps p vs (usage_limit p vs m2) = Inr m"
  using assms
  by (auto simp add: build_model_def Let_def add_constraints_def bind_Inr_iff)

lemma build_model_rows:
  assumes built: "build_model p = Inr (vs, m)"
  shows "t \<in> set (years p) \<Longrightarrow> v \<in> set (vehicle_types p) \<Longrightarrow> s \<in> set (sizes p) \<Longrightarrow>
           recurrence_rows vs t v s (set (rows_of m))"
    and "t \<in> set (years p) \<Longrightarrow> s \<in> set (sizes p) \<Longrightarrow> d \<in> set (distances p) \<Longrightarrow>
           \<exists>dem. demand_dict p (t, s, d) = Some dem \<and>
             (demand_terms p vs t s d, Fin dem, Fin dem) \<in> set (rows_of m)"
    and "\<exists>pre rs. rows_of m = pre @ rs \<and>
           list_all2 (\<lambda>t r. \<exists>terms cap. emission_terms p vs t = Inr terms \<and>
                          emission_targets p t = Some cap \<and> r = (terms, NegInf, Fin cap))
             (years p) rs"
proof -
  from build_model_phases [OF built] obtain m1 m2 where vs: "vs = create_variables p"
    and one: "fleet_dynamics p vs (model vs) = Inr m1"
    and two: "demand_satisfaction p vs m1 = Inr m2"
    and four: "emission_caps p vs (usage_limit p vs m2) = Inr m"
    by blast
  have wf0: "wf_rows (model vs)"
    using create_variables_fleet_sell [of p] no_constraints_wf by (simp add: vs)
  note f1 = fleet_dynamics_rows [OF one wf0]
  have wf1: "wf_rows m1" using f1(1) by simp
  note f2 = demand_satisfaction_rows [OF two wf1]
  have wf2: "wf_rows m2" using f2(1) by simp
  note f3 = usage_limit_grows [OF wf2, of p vs]
  have wf3: "wf_rows (usage_limit p vs m2)" using f3 by simp
  note f4 = emission_caps_rows [OF four wf3]
  have e4: "extends (usage_limit p vs m2) m" using f4 by (auto simp add: extends_def)
  have e2m: "extends m2 m" using f3 e4 extends_trans by blast
  have e1m: "extends m1 m" using f2(1) e2m extends_trans by blast
  show "\<exists>pre rs. rows_of m = pre @ rs \<and>
           list_all2 (\<lambda>t r. \<exists>terms cap. emission_terms p vs t = Inr terms \<and>
                          emission_targets p t = Some cap \<and> r = (terms, NegInf, Fin cap))
             (years p) rs"
    using f4 by blast
  {
    assume "t \<in> set (years p)" "v \<in> set (vehicle_types p)" "s \<in> set (sizes p)"
    then have "recurrence_rows vs t v s (set (rows_of m1))" by (rule f1(2))
    then show "recurrence_rows vs t v s (set (rows_of m))"
      using extends_subset [OF e1m] by (rule recurrence_rows_mono)
  }
  {
    assume "t \<in> set (years p)" "s \<in> set (sizes p)" "d \<in> set (distances p)"
    then have "\<exists>dem. demand_dict p (t, s, d) = Some dem \<and>
             (demand_terms p vs t s d, Fin dem, Fin dem) \<in> set (rows_of m2)"
      by (rule f2(2))
    then show "\<exists>dem. demand_dict p (t, s, d) = Some dem \<and>
             (demand_terms p vs t s d, Fin dem, Fin dem) \<in> set (rows_of m)"
      using extends_subset [OF e2m] by blast
  }
qed

section \<open>The parameter index and the horizon\<close>

lemma set_sorted_unique: "set (sorted_unique xs) = set xs"
  by (simp add: sorted_unique_def)

lemma distinct_sorted_unique: "distinct (sorted_unique xs)"
  by (simp add: sorted_unique_def)

lemma to_dict_distinct:
  assumes "distinct (map fst rows)" and "(k, a) \<in> set rows"
  shows "to_dict rows k = Some a"
proof -
  have "distinct (map fst (rev rows))" using assms(1) by (simp add: rev_map [symmetric])
  moreover have "(k, a) \<in> set (rev rows)" using assms(2) by simp
  ultimately show ?thesis unfolding to_dict_def by (rule map_of_is_SomeI)
qed

lemma build_index_demand:
  assumes "(t, s, d, q) \<in> set (demand dat)"
  shows "s \<in> set (sizes (build_index dat))" and "d \<in> set (distances (build_index dat))"
    and "distinct (map (\<lambda>(y, s, dist, dem). (y, s, dist)) (demand dat)) \<Longrightarrow>
         demand_dict (build_index dat) (t, s, d) = Some q"
proof -
  show "s \<in> set (sizes (build_index dat))"
    using assms by (force simp add: build_index_def set_sorted_unique)
  show "d \<in> set (distances (build_index dat))"
    using assms by (force simp add: build_index_def set_sorted_unique)
  assume dist: "distinct (map (\<lambda>(y, s, dist, dem). (y, s, dist)) (demand dat))"
  let ?rows = "map (\<lambda>(y, s, dist, dem). ((y, s, dist), dem)) (demand dat)"
  have "fst \<circ> (\<lambda>(y, s, dist, dem). ((y, s, dist), dem)) =
          (\<lambda>(y, s, dist, dem :: real). (y :: int, s :: string, dist :: string))"
    by (rule ext) (simp add: case_prod_beta)
  then have "distinct (map fst ?rows)" using dist by (simp only: map_map)
  moreover have "((t, s, d), q) \<in> set ?rows" using assms by force
  ultimately have "to_dict ?rows (t, s, d) = Some q" by (rule to_dict_distinct)
  then show "demand_dict (build_index dat) (t, s, d) = Some q"
    by (simp add: build_index_def)
qed

lemma build_index_years: "distinct (years (build_index dat))"
  by (simp add: build_index_def distinct_sorted_unique)

lemma built_years_from_2023:
  assumes built: "build_model p = Inr (vs, m)"
    and "t \<in> set (years p)" "v \<in> set (vehicle_types p)" "s \<in> set (sizes p)"
  shows "2023 \<le> t"
proof -
  have "recurrence_rows vs t v s (set (rows_of m))"
    using assms(2,3,4) by (rule build_model_rows(1) [OF built])
  then have "fleet_vars vs (t, v, s, 0) \<noteq> None"
    unfolding recurrence_rows_def by auto
  moreover have "fleet_sell_ok p vs"
    using create_variables_fleet_sell [of p] build_model_phases(1) [OF built] by simp
  ultimately show ?thesis unfolding fleet_sell_ok_def by fastforce
qed

section \<open>The claims\<close>

text \<open>
  C1. Whenever the generator completes a model, the model has, for every year \<open>t\<close> of
  the horizon and every vehicle class, the row \<open>Fleet[t, 0] - Buy[t] = 0\<close>, and for every
  age from 1 to 10 whose purchase year \<open>t - age\<close> lies in the horizon the rows
  \<open>Fleet[t, age] + Sell[t, age] - Fleet[t - 1, age - 1] = 0\<close> and
  \<open>Sell[t, age] - Fleet[t - 1, age - 1] \<le> 0\<close>. A year of the horizon without a
  predecessor in the horizon is 2023, and at that year no Fleet and no Sell variable exists
  for any age above 0: the model holds no fleet from before the horizon.
\<close>

theorem aging_recurrence:
  assumes "build_model p = Inr (vs, m)"
    and "t \<in> set (years p)" and "v \<in> set (vehicle_types p)" and "s \<in> set (sizes p)"
  shows "(\<exists>fi bi. fleet_vars vs (t, v, s, 0) = Some fi \<and> buy_vars vs (t, v, s) = Some bi \<and>
            ([(1, fi), (- 1, bi)], Fin 0, Fin 0) \<in> set (rows_of m)) \<and>
         (\<forall>age. 1 \<le> age \<and> age \<le> 10 \<and> t - age \<in> set (years p) \<longrightarrow>
            (\<exists>fi si fp. fleet_vars vs (t, v, s, age) = Some fi \<and>
               sell_vars vs (t, v, s, age) = Some si \<and>
               fleet_vars vs (t - 1, v, s, age - 1) = Some fp \<and>
               ([(1, fi), (1, si), (- 1, fp)], Fin 0, Fin 0) \<in> set (rows_of m) \<and>
               ([(1, si), (- 1, fp)], NegInf, Fin 0) \<in> set (rows_of m))) \<and>
         (t - 1 \<notin> set (years p) \<longrightarrow>
            t = 2023 \<and>
            (\<forall>age. 0 < age \<longrightarrow>
               fleet_vars vs (t, v, s, age) = None \<and> sell_vars vs (t, v, s, age) = None))"
proof -
  have rec: "recurrence_rows vs t v s (set (rows_of m))"
    using assms(2,3,4) by (rule build_model_rows(1) [OF assms(1)])
  have ok: "fleet_sell_ok p vs"
    using create_variables_fleet_sell [of p] build_model_phases(1) [OF assms(1)] by simp
  have from_2023: "2023 \<le> t'" if "t' \<in> set (years p)" for t'
    using assms(1) that assms(3,4) by (rule built_years_from_2023)
  have one: "\<exists>fi bi. fleet_vars vs (t, v, s, 0) = Some fi \<and> buy_vars vs (t, v, s) = Some bi \<and>
            ([(1, fi), (- 1, bi)], Fin 0, Fin 0) \<in> set (rows_of m)"
    using rec unfolding recurrence_rows_def by blast
  have two: "\<exists>fi si fp. fleet_vars vs (t, v, s, age) = Some fi \<and>
               sell_vars vs (t, v, s, age) = Some si \<and>
               fleet_vars vs (t - 1, v, s, age - 1) = Some fp \<and>
               ([(1, fi), (1, si), (- 1, fp)], Fin 0, Fin 0) \<in> set (rows_of m) \<and>
               ([(1, si), (- 1, fp)], NegInf, Fin 0) \<in> set (rows_of m)"
    if "1 \<le> age \<and> age \<le> 10 \<and> t - age \<in> set (years p)" for age
  proof -
    have "2023 \<le> t - age" using that from_2023 by blast
    then have "1 \<le> age \<and> age \<le> 10 \<and> 2023 \<le> t - age" using that by simp
    then show ?thesis using rec unfolding recurrence_rows_def by blast
  qed
  have year: "t = 2023" if first: "t - 1 \<notin> set (years p)"
  proof (rule ccontr)
    have t: "2023 \<le> t" using assms(2) by (rule from_2023)
    assume "t \<noteq> 2023"
    then have "(1::int) \<le> 1 \<and> (1::int) \<le> 10 \<and> 2023 \<le> t - 1" using t by simp
    then obtain fp where "fleet_vars vs (t - 1, v, s, 1 - 1) = Some fp"
      using rec unfolding recurrence_rows_def by blast
    then have "fleet_vars vs (t - 1, v, s, 0) \<noteq> None" by simp
    then have "t - 1 \<in> set (years p)"
      using ok unfolding fleet_sell_ok_def by blast
    then show False using first by simp
  qed
  have no_fleet: "fleet_vars vs (t, v, s, age) = None"
    if first: "t - 1 \<notin> set (years p)" and age: "0 < age" for age
  proof (rule ccontr)
    assume "fleet_vars vs (t, v, s, age) \<noteq> None"
    then have "2023 \<le> t - age" using ok unfolding fleet_sell_ok_def by blast
    then show False using year [OF first] age by simp
  qed
  have no_sell: "sell_vars vs (t, v, s, age) = None"
    if first: "t - 1 \<notin> set (years p)" and age: "0 < age" for age
  proof (rule ccontr)
    assume "sell_vars vs (t, v, s, age) \<noteq> None"
    then have "2023 \<le> t - age" using ok unfolding fleet_sell_ok_def by blast
    then show False using year [OF first] age by simp
  qed
  show ?thesis
  proof (intro conjI allI impI)
    show "\<exists>fi bi. fleet_vars vs (t, v, s, 0) = Some fi \<and> buy_vars vs (t, v, s) = Some bi \<and>
            ([(1, fi), (- 1, bi)], Fin 0, Fin 0) \<in> set (rows_of m)"
      by (rule one)
  next
    fix age assume "1 \<le> age \<and> age \<le> 10 \<and> t - age \<in> set (years p)"
    then show "\<exists>fi si fp. fleet_vars vs (t, v, s, age) = Some fi \<and>
               sell_vars vs (t, v, s, age) = Some si \<and>
               fleet_vars vs (t - 1, v, s, age - 1) = Some fp \<and>
               ([(1, fi), (1, si), (- 1, fp)], Fin 0, Fin 0) \<in> set (rows_of m) \<and>
               ([(1, si), (- 1, fp)], NegInf, Fin 0) \<in> set (rows_of m)"
      by (rule two)
  next
    assume "t - 1 \<notin> set (years p)"
    then show "t = 2023" by (rule year)
  next
    fix age :: int assume "t - 1 \<notin> set (years p)" and "0 < age"
    then show "fleet_vars vs (t, v, s, age) = None" by (rule no_fleet)
  next
    fix age :: int assume "t - 1 \<notin> set (years p)" and "0 < age"
    then show "sell_vars vs (t, v, s, age) = None" by (rule no_sell)
  qed
qed

theorem aging_recurrence_witness:
  "build_model (build_index two_years) = Inr (two_vars, two_model) \<and>
   2024 \<in> set (years (build_index two_years)) \<and>
   2023 \<in> set (years (build_index two_years)) \<and>
   ''BEV'' \<in> set (vehicle_types (build_index two_years)) \<and>
   ''S1'' \<in> set (sizes (build_index two_years)) \<and>
   ([(1, 5), (- 1, 4)], Fin 0, Fin 0) \<in> set (rows_of two_model) \<and>
   2024 - 1 \<in> set (years (build_index two_years)) \<and>
   ([(1, 6), (1, 7), (- 1, 1)], Fin 0, Fin 0) \<in> set (rows_of two_model) \<and>
   ([(1, 7), (- 1, 1)], NegInf, Fin 0) \<in> set (rows_of two_model) \<and>
   2023 - 1 \<notin> set (years (build_index two_years)) \<and>
   fleet_vars two_vars (2023, ''BEV'', ''S1'', 1) = None \<and>
   sell_vars two_vars (2023, ''BEV'', ''S1'', 1) = None"
proof -
  let ?p = "build_index two_years"
  have built: "build_model ?p = Inr (two_vars, two_model)" by (rule two_years_model)
  have mem: "2024 \<in> set (years ?p)" "2023 \<in> set (years ?p)"
    "''BEV'' \<in> set (vehicle_types ?p)" "''S1'' \<in> set (sizes ?p)"
    "2024 - 1 \<in> set (years ?p)" "2023 - 1 \<notin> set (years ?p)"
    by (simp_all add: two_years_index)
  have vars: "fleet_vars two_vars (2024, ''BEV'', ''S1'', 0) = Some 5"
    "buy_vars two_vars (2024, ''BEV'', ''S1'') = Some 4"
    "fleet_vars two_vars (2024, ''BEV'', ''S1'', 1) = Some 6"
    "sell_vars two_vars (2024, ''BEV'', ''S1'', 1) = Some 7"
    "fleet_vars two_vars (2024 - 1, ''BEV'', ''S1'', 1 - 1) = Some 1"
    by (simp_all add: two_vars_fields)
  note at_2024 = aging_recurrence [OF built mem(1) mem(3) mem(4)]
  note at_2023 = aging_recurrence [OF built mem(2) mem(3) mem(4)]
  have a: "([(1, 5), (- 1, 4)], Fin 0, Fin 0) \<in> set (rows_of two_model)"
    using at_2024 vars by auto
  have "(1::int) \<le> 1 \<and> (1::int) \<le> 10 \<and> 2024 - 1 \<in> set (years ?p)"
    using mem(5) by simp
  with at_2024 have "\<exists>fi si fp. fleet_vars two_vars (2024, ''BEV'', ''S1'', 1) = Some fi \<and>
               sell_vars two_vars (2024, ''BEV'', ''S1'', 1) = Some si \<and>
               fleet_vars two_vars (2024 - 1, ''BEV'', ''S1'', 1 - 1) = Some fp \<and>
               ([(1, fi), (1, si), (- 1, fp)], Fin 0, Fin 0) \<in> set (rows_of two_model) \<and>
               ([(1, si), (- 1, fp)], NegInf, Fin 0) \<in> set (rows_of two_model)"
    by blast
  then have b: "([(1, 6), (1, 7), (- 1, 1)], Fin 0, Fin 0) \<in> set (rows_of two_model) \<and>
    ([(1, 7), (- 1, 1)], NegInf, Fin 0) \<in> set (rows_of two_model)"
    using vars by auto
  have c: "fleet_vars two_vars (2023, ''BEV'', ''S1'', 1) = None \<and>
           sell_vars two_vars (2023, ''BEV'', ''S1'', 1) = None"
    using at_2023 mem(6) by simp
  show ?thesis using built mem a b c by blast
qed

text \<open>
  C2, as the code has it. The generator walks the years of the emission-cap table, not the
  years of the demand table. For every cell of the demand table whose year is a year of
  the horizon, a model that the generator completes has an equality row, lower and upper
  bound both the demand stored for the cell (the cell's own value when the table has one
  row per cell), whose terms are the Km variables of that year, size and distance bucket
  over all vehicle types and fuels, each with coefficient 1.
\<close>

theorem demand_equality_rows:
  assumes "build_model (build_index dat) = Inr (vs, m)"
    and "(t, s, d, q) \<in> set (demand dat)"
    and "t \<in> set (years (build_index dat))"
  shows "\<exists>dem. demand_dict (build_index dat) (t, s, d) = Some dem \<and>
           (distinct (map (\<lambda>(y, s, dist, dem). (y, s, dist)) (demand dat)) \<longrightarrow> dem = q) \<and>
           ([(1, ik). v \<leftarrow> vehicle_types (build_index dat), f \<leftarrow> fuel_names (build_index dat),
                      ik \<leftarrow> present (km_vars vs (t, v, s, d, f))], Fin dem, Fin dem)
             \<in> set (rows_of m)"
proof -
  note cell = build_index_demand [OF assms(2)]
  from build_model_rows(2) [OF assms(1) assms(3) cell(1) cell(2)]
  obtain dem where dem: "demand_dict (build_index dat) (t, s, d) = Some dem"
    and row: "(demand_terms (build_index dat) vs t s d, Fin dem, Fin dem) \<in> set (rows_of m)"
    by blast
  have "dem = q" if "distinct (map (\<lambda>(y, s, dist, dem). (y, s, dist)) (demand dat))"
    using cell(3) [OF that] dem by simp
  then show ?thesis using dem row by (auto simp add: demand_terms_eq)
qed

theorem demand_equality_rows_witness:
  "build_model (build_index (single_year 1000 125 40)) = Inr (single_vars, single_model 1000 125 40) \<and>
   (2023, ''S1'', ''D2'', 40) \<in> set (demand (single_year 1000 125 40)) \<and>
   2023 \<in> set (years (build_index (single_year 1000 125 40))) \<and>
   distinct (map (\<lambda>(y, s, dist, dem). (y, s, dist)) (demand (single_year 1000 125 40))) \<and>
   [(1 :: real, ik). v \<leftarrow> vehicle_types (build_index (single_year 1000 125 40)),
             f \<leftarrow> fuel_names (build_index (single_year 1000 125 40)),
             ik \<leftarrow> present (km_vars single_vars (2023, v, ''S1'', ''D2'', f))] = [(1, 5)] \<and>
   ([(1, 5)], Fin 40, Fin 40) \<in> set (rows_of (single_model 1000 125 40))"
proof -
  let ?p = "build_index (single_year 1000 125 40)"
  have built: "build_model ?p = Inr (single_vars, single_model 1000 125 40)"
    by (rule single_year_model)
  have cell: "(2023, ''S1'', ''D2'', 40) \<in> set (demand (single_year 1000 125 40))"
    by (simp add: single_year_def)
  have year: "2023 \<in> set (years ?p)" by (simp add: single_year_index)
  have dist: "distinct (map (\<lambda>(y, s, dist, dem). (y, s, dist)) (demand (single_year 1000 125 40)))"
    by (simp add: single_year_def)
  have terms: "[(1, ik). v \<leftarrow> vehicle_types ?p, f \<leftarrow> fuel_names ?p,
             ik \<leftarrow> present (km_vars single_vars (2023, v, ''S1'', ''D2'', f))] = [(1::real, 5)]"
    by (simp add: single_year_index single_vars_fields present_def)
  from demand_equality_rows [OF built cell year] dist
  have "([(1, ik). v \<leftarrow> vehicle_types ?p, f \<leftarrow> fuel_names ?p,
             ik \<leftarrow> present (km_vars single_vars (2023, v, ''S1'', ''D2'', f))], Fin 40, Fin 40)
          \<in> set (rows_of (single_model 1000 125 40))"
    by auto
  then have "([(1, 5)], Fin 40, Fin 40) \<in> set (rows_of (single_model 1000 125 40))"
    by (simp only: terms)
  then show ?thesis using built cell year dist terms by blast
qed

text \<open>
  C2 as stated fails. \<open>late_demand\<close> has a demand row for 2024, a year without an emission
  cap. The generator completes the same seven rows as without that row: none of them is
  an equality with the demand 77 of the cell.
\<close>

theorem late_demand_counterexample:
  "(2024, ''S1'', ''D1'', 77) \<in> set (demand late_demand) \<and>
   build_model (build_index late_demand) = Inr (single_vars, single_model 1000 125 40) \<and>
   rows_of (single_model 1000 125 40) =
     [([(1, 1), (- 1, 0)], Fin 0, Fin 0),
      ([(1, 3)], Fin 125, Fin 125),
      ([(1, 3), (- 100, 2)], NegInf, Fin 0),
      ([(1, 5)], Fin 40, Fin 40),
      ([(1, 5), (- 100, 4)], NegInf, Fin 0),
      ([(1, 2), (1, 4), (- 1, 1)], NegInf, Fin 0),
      ([(3, 3), (3, 5)], NegInf, Fin 1000)] \<and>
   \<not> (\<exists>terms. (terms, Fin 77, Fin 77) \<in> set (rows_of (single_model 1000 125 40)))"
  by (simp add: late_demand_model single_model_rows) (simp add: late_demand_def)

text \<open>
  C3. The years of the horizon are distinct, and the last rows of a model that the
  generator completes are the emission rows, one for each year in the order of the
  horizon: the row of year \<open>t\<close> has no lower bound, the emission cap of \<open>t\<close> as upper
  bound, and one term for every Km variable of \<open>t\<close>, whose coefficient is the consumption
  rate of its vehicle type, size and fuel in \<open>t\<close> times the emission factor of the fuel in
  \<open>t\<close> (0 when the factor is missing).
\<close>

theorem emission_cap_rows:
  assumes "build_model (build_index dat) = Inr (vs, m)"
  shows "distinct (years (build_index dat)) \<and>
         (\<exists>pre rs. rows_of m = pre @ rs \<and>
            list_all2
              (\<lambda>t r. \<exists>cap. emission_targets (build_index dat) t = Some cap \<and>
                 r = ([(cons * get (fuel_emissions (build_index dat)) (f, t) 0, ik).
                        v \<leftarrow> vehicle_types (build_index dat), s \<leftarrow> sizes (build_index dat),
                        d \<leftarrow> distances (build_index dat), f \<leftarrow> fuel_names (build_index dat),
                        ik \<leftarrow> present (km_vars vs (t, v, s, d, f)),
                        cons \<leftarrow> present (consumption (build_index dat) (v, s, t, f))],
                      NegInf, Fin cap))
              (years (build_index dat)) rs)"
proof -
  let ?p = "build_index dat"
  from build_model_rows(3) [OF assms]
  obtain pre rs where rows: "rows_of m = pre @ rs"
    and all: "list_all2 (\<lambda>t r. \<exists>terms cap. emission_terms ?p vs t = Inr terms \<and>
                          emission_targets ?p t = Some cap \<and> r = (terms, NegInf, Fin cap))
             (years ?p) rs"
    by blast
  have "list_all2
              (\<lambda>t r. \<exists>cap. emission_targets ?p t = Some cap \<and>
                 r = ([(cons * get (fuel_emissions ?p) (f, t) 0, ik).
                        v \<leftarrow> vehicle_types ?p, s \<leftarrow> sizes ?p,
                        d \<leftarrow> distances ?p, f \<leftarrow> fuel_names ?p,
                        ik \<leftarrow> present (km_vars vs (t, v, s, d, f)),
                        cons \<leftarrow> present (consumption ?p (v, s, t, f))],
                      NegInf, Fin cap))
              (years ?p) rs"
    using all
  proof (rule list_all2_mono)
    fix t r
    assume "\<exists>terms cap. emission_terms ?p vs t = Inr terms \<and>
                          emission_targets ?p t = Some cap \<and> r = (terms, NegInf, Fin cap)"
    then obtain terms cap where terms: "emission_terms ?p vs t = Inr terms"
      and cap: "emission_targets ?p t = Some cap" and r: "r = (terms, NegInf, Fin cap)"
      by blast
    show "\<exists>cap. emission_targets ?p t = Some cap \<and>
                 r = ([(cons * get (fuel_emissions ?p) (f, t) 0, ik).
                        v \<leftarrow> vehicle_types ?p, s \<leftarrow> sizes ?p,
                        d \<leftarrow> distances ?p, f \<leftarrow> fuel_names ?p,
                        ik \<leftarrow> present (km_vars vs (t, v, s, d, f)),
                        cons \<leftarrow> present (consumption ?p (v, s, t, f))],
                      NegInf, Fin cap)"
      using cap r emission_terms_eq [OF terms] by simp
  qed
  then show ?thesis using rows build_index_years [of dat] by blast
qed

theorem emission_cap_rows_witness:
  "build_model (build_index two_years) = Inr (two_vars, two_model) \<and>
   years (build_index two_years) = [2023, 2024] \<and>
   emission_targets (build_index two_years) 2023 = Some 1000 \<and>
   emission_targets (build_index two_years) 2024 = Some 900 \<and>
   drop 10 (rows_of two_model) = [([(3, 3)], NegInf, Fin 1000), ([(1, 9)], NegInf, Fin 900)] \<and>
   distinct (years (build_index two_years)) \<and>
   (\<exists>pre rs. rows_of two_model = pre @ rs \<and>
      list_all2
        (\<lambda>t r. \<exists>cap. emission_targets (build_index two_years) t = Some cap \<and>
           r = ([(cons * get (fuel_emissions (build_index two_years)) (f, t) 0, ik).
                  v \<leftarrow> vehicle_types (build_index two_years),
                  s \<leftarrow> sizes (build_index two_years),
                  d \<leftarrow> distances (build_index two_years),
                  f \<leftarrow> fuel_names (build_index two_years),
                  ik \<leftarrow> present (km_vars two_vars (t, v, s, d, f)),
                  cons \<leftarrow> present (consumption (build_index two_years) (v, s, t, f))],
                NegInf, Fin cap))
        (years (build_index two_years)) rs)"
proof -
  have built: "build_model (build_index two_years) = Inr (two_vars, two_model)"
    by (rule two_years_model)
  have eval: "years (build_index two_years) = [2023, 2024]"
    "emission_targets (build_index two_years) 2023 = Some 1000"
    "emission_targets (build_index two_years) 2024 = Some 900"
    "drop 10 (rows_of two_model) = [([(3, 3)], NegInf, Fin 1000), ([(1, 9)], NegInf, Fin 900)]"
    by (simp_all add: two_years_index two_model_rows)
  from emission_cap_rows [OF built] built eval show ?thesis by blast
qed

text \<open>
  C4, as the code has it. Use and Km variables are indexed by year, vehicle class, distance
  bucket and fuel, not by purchase vintage, and compatibility is read from the consumption
  entry of the current year. For every year, vehicle class, distance bucket and fuel of the
  index sets whose consumption entry \<open>(v, s, t, f)\<close> exists, the builder creates a Use
  variable with objective coefficient 0 and a Km variable whose objective coefficient is
  that consumption rate times the fuel's unit cost of the year (0 when the cost is
  missing); where the entry is absent neither variable exists.
\<close>

theorem use_km_variables:
  "(t \<in> set (years p) \<and> v \<in> set (vehicle_types p) \<and> s \<in> set (sizes p) \<and>
    d \<in> set (distances p) \<and> f \<in> set (fuel_names p) \<and>
    consumption p (v, s, t, f) = Some cons \<longrightarrow>
      (\<exists>iu ik.
         use_vars (create_variables p) (t, v, s, d, f) = Some iu \<and>
         km_vars (create_variables p) (t, v, s, d, f) = Some ik \<and>
         var_names (model (create_variables p)) ! iu = Use_name t v s d f \<and>
         var_names (model (create_variables p)) ! ik = Km_name t v s d f \<and>
         obj_coeffs (model (create_variables p)) ! iu = 0 \<and>
         obj_coeffs (model (create_variables p)) ! ik = cons * get (fuel_cost p) (f, t) 0)) \<and>
   (consumption p (v, s, t, f) = None \<longrightarrow>
      use_vars (create_variables p) (t, v, s, d, f) = None \<and>
      km_vars (create_variables p) (t, v, s, d, f) = None)"
proof (intro conjI impI)
  assume a: "t \<in> set (years p) \<and> v \<in> set (vehicle_types p) \<and> s \<in> set (sizes p) \<and>
    d \<in> set (distances p) \<and> f \<in> set (fuel_names p) \<and>
    consumption p (v, s, t, f) = Some cons"
  then have "use_vars (create_variables p) (t, v, s, d, f) \<noteq> None"
    by (intro create_variables_adds [of p v s t f cons]) simp_all
  then obtain iu where iu: "use_vars (create_variables p) (t, v, s, d, f) = Some iu"
    by blast
  from use_km_okD [OF create_variables_ok iu] a
  show "\<exists>iu ik.
         use_vars (create_variables p) (t, v, s, d, f) = Some iu \<and>
         km_vars (create_variables p) (t, v, s, d, f) = Some ik \<and>
         var_names (model (create_variables p)) ! iu = Use_name t v s d f \<and>
         var_names (model (create_variables p)) ! ik = Km_name t v s d f \<and>
         obj_coeffs (model (create_variables p)) ! iu = 0 \<and>
         obj_coeffs (model (create_variables p)) ! ik = cons * get (fuel_cost p) (f, t) 0"
    using iu by auto
next
  assume none: "consumption p (v, s, t, f) = None"
  show "use_vars (create_variables p) (t, v, s, d, f) = None"
  proof (cases "use_vars (create_variables p) (t, v, s, d, f)")
    case None
    then show ?thesis .
  next
    case (Some iu)
    from use_km_okD [OF create_variables_ok Some] none show ?thesis by simp
  qed
  then show "km_vars (create_variables p) (t, v, s, d, f) = None"
    by (rule use_km_ok_noneD [OF create_variables_ok])
qed

theorem use_km_variables_witness:
  "2024 \<in> set (years (build_index two_years)) \<and>
   ''BEV'' \<in> set (vehicle_types (build_index two_years)) \<and>
   ''S1'' \<in> set (sizes (build_index two_years)) \<and>
   ''D1'' \<in> set (distances (build_index two_years)) \<and>
   ''Electricity'' \<in> set (fuel_names (build_index two_years)) \<and>
   consumption (build_index two_years) (''BEV'', ''S1'', 2024, ''Electricity'') = Some 2 \<and>
   fuel_cost (build_index two_years) (''Electricity'', 2024) = Some 3 \<and>
   use_vars (create_variables (build_index two_years))
     (2024, ''BEV'', ''S1'', ''D1'', ''Electricity'') = Some 8 \<and>
   km_vars (create_variables (build_index two_years))
     (2024, ''BEV'', ''S1'', ''D1'', ''Electricity'') = Some 9 \<and>
   obj_coeffs (model (create_variables (build_index two_years))) ! 9 = 2 * 3 \<and>
   consumption (build_index two_years) (''BEV'', ''S1'', 2025, ''Electricity'') = None \<and>
   km_vars (create_variables (build_index two_years))
     (2025, ''BEV'', ''S1'', ''D1'', ''Electricity'') = None"
proof -
  let ?p = "build_index two_years"
  have mem: "2024 \<in> set (years ?p)" "''BEV'' \<in> set (vehicle_types ?p)"
    "''S1'' \<in> set (sizes ?p)" "''D1'' \<in> set (distances ?p)"
    "''Electricity'' \<in> set (fuel_names ?p)"
    by (simp_all add: two_years_index)
  have cons: "consumption ?p (''BEV'', ''S1'', 2024, ''Electricity'') = Some 2"
    and cost: "fuel_cost ?p (''Electricity'', 2024) = Some 3"
    and none: "consumption ?p (''BEV'', ''S1'', 2025, ''Electricity'') = None"
    by (simp_all add: two_years_index)
  have vars: "use_vars (create_variables ?p) (2024, ''BEV'', ''S1'', ''D1'', ''Electricity'') = Some 8"
    "km_vars (create_variables ?p) (2024, ''BEV'', ''S1'', ''D1'', ''Electricity'') = Some 9"
    by (simp_all add: two_years_variables two_vars_fields)
  from use_km_variables [of 2024 ?p "''BEV''" "''S1''" "''D1''" "''Electricity''" 2] mem cons vars
  have "obj_coeffs (model (create_variables ?p)) ! 9 = 2 * get (fuel_cost ?p) (''Electricity'', 2024) 0"
    by auto
  then have obj: "obj_coeffs (model (create_variables ?p)) ! 9 = 2 * 3"
    by (simp add: get_def cost)
  from use_km_variables [of 2025 ?p "''BEV''" "''S1''" "''D1''" "''Electricity''"] none
  have "km_vars (create_variables ?p) (2025, ''BEV'', ''S1'', ''D1'', ''Electricity'') = None"
    by blast
  with mem cons cost vars obj none show ?thesis by blast
qed

text \<open>
  C4 as stated fails. In \<open>one_vintage\<close> the batch bought in 2023 is one year old in 2024,
  inside the age window (it has a Fleet variable there), and Electricity is compatible with
  that vintage by the consumption index; yet 2024 has no Use and no Km variable for it,
  because the builder asks for the consumption entry of 2024.
\<close>

theorem vintage_duty_counterexample:
  "fleet_vars (create_variables (build_index one_vintage)) (2024, ''BEV'', ''S1'', 1) = Some 6 \<and>
   consumption (build_index one_vintage) (''BEV'', ''S1'', 2023, ''Electricity'') = Some 3 \<and>
   use_vars (create_variables (build_index one_vintage))
     (2024, ''BEV'', ''S1'', ''D1'', ''Electricity'') = None \<and>
   km_vars (create_variables (build_index one_vintage))
     (2024, ''BEV'', ''S1'', ''D1'', ''Electricity'') = None"
  by (simp add: one_vintage_variables one_vintage_index)

text \<open>
  C5, as the code has it. The decoder has no channel for warnings. When the pool of a
  vehicle class holds fewer vehicles than the rounded Use count of a duty, the allocation
  loop hands out what the pool holds and stops: the Use rows of the duty total the pool's
  remaining count, which is less than the Use count, and every batch is left at zero.
  Nothing else is reported: a run that reaches the writer has printed the same seven lines
  whatever the allocation did.
\<close>

theorem depleted_pool_is_silent:
  "(list_all (\<lambda>(i, c). 0 \<le> c) pool \<and> sum_list (map snd pool) < needed \<and>
    allocate t d f avg_km pool needed = (rows, pool') \<longrightarrow>
      sum_list (map num_vehicles rows) = sum_list (map snd pool) \<and>
      sum_list (map num_vehicles rows) < needed \<and>
      list_all (\<lambda>(i, c). c = 0) pool') \<and>
   (solve_optimization dat solver = Inr r \<and> submission r \<noteq> None \<longrightarrow>
      (\<exists>n k msg. stdout r =
         [Loading_data, Data_loaded, Creating_variables, Adding_constraints,
          Solving_with n k, Solver_status True msg, Submission_saved]))"
proof (intro conjI impI)
  assume a: "list_all (\<lambda>(i, c). 0 \<le> c) pool \<and> sum_list (map snd pool) < needed \<and>
    allocate t d f avg_km pool needed = (rows, pool')"
  then have "list_all (\<lambda>(i, c). 0 \<le> c) pool" and "sum_list (map snd pool) < needed"
    and "allocate t d f avg_km pool needed = (rows, pool')"
    by simp_all
  then have dep: "sum_list (map num_vehicles rows) = sum_list (map snd pool) \<and>
         list_all (\<lambda>(i, c). c = 0) pool'"
    by (rule allocate_depleted)
  then show "sum_list (map num_vehicles rows) = sum_list (map snd pool)" by simp
  then show "sum_list (map num_vehicles rows) < needed" using a by simp
  show "list_all (\<lambda>(i, c). c = 0) pool'" using dep by simp
next
  assume "solve_optimization dat solver = Inr r \<and> submission r \<noteq> None"
  then have "solve_optimization dat solver = Inr r" and "submission r \<noteq> None"
    by simp_all
  then show "\<exists>n k msg. stdout r =
         [Loading_data, Data_loaded, Creating_variables, Adding_constraints,
          Solving_with n k, Solver_status True msg, Submission_saved]"
    by (rule solve_optimization_saved)
qed

theorem depleted_pool_is_silent_witness:
  "list_all (\<lambda>(i, c). 0 \<le> c) last_vehicle \<and> sum_list (map snd last_vehicle) < 3 \<and>
   allocate 2023 ''D1'' ''Electricity'' 50 last_vehicle 3 =
     ([use_row 2023 ''D1'' ''Electricity'' 50 (''BEV'', ''S1'', 2023) 1],
      [((''BEV'', ''S1'', 2023), 0)]) \<and>
   sum_list (map num_vehicles [use_row 2023 ''D1'' ''Electricity'' 50 (''BEV'', ''S1'', 2023) 1])
     < 3 \<and>
   solve_optimization (single_year 1000 60 60) short_pool_solver =
     Inr \<lparr>stdout = [Loading_data, Data_loaded, Creating_variables, Adding_constraints,
                    Solving_with 6 7, Solver_status True ''Optimal'', Submission_saved],
          submission = Some [buy_row 2023 (''BEV'', ''S1'', 2023) 1,
             use_row 2023 ''D1'' ''Electricity'' 60 (''BEV'', ''S1'', 2023) 1]\<rparr>"
proof -
  have h1: "list_all (\<lambda>(i, c). 0 \<le> c) last_vehicle" by (simp add: last_vehicle_def)
  have h2: "sum_list (map snd last_vehicle) < 3" by (simp add: last_vehicle_def)
  have h3: "allocate 2023 ''D1'' ''Electricity'' 50 last_vehicle 3 =
     ([use_row 2023 ''D1'' ''Electricity'' 50 (''BEV'', ''S1'', 2023) 1],
      [((''BEV'', ''S1'', 2023), 0)])"
    by (simp add: last_vehicle_def)
  have h4: "solve_optimization (single_year 1000 60 60) short_pool_solver =
     Inr \<lparr>stdout = [Loading_data, Data_loaded, Creating_variables, Adding_constraints,
                    Solving_with 6 7, Solver_status True ''Optimal'', Submission_saved],
          submission = Some [buy_row 2023 (''BEV'', ''S1'', 2023) 1,
             use_row 2023 ''D1'' ''Electricity'' 60 (''BEV'', ''S1'', 2023) 1]\<rparr>"
    by (rule run_short_pool)
  from depleted_pool_is_silent [of last_vehicle 3 2023 "''D1''" "''Electricity''" 50
      "[use_row 2023 ''D1'' ''Electricity'' 50 (''BEV'', ''S1'', 2023) 1]"
      "[((''BEV'', ''S1'', 2023), 0)]" "single_year 1000 60 60" short_pool_solver] h1 h2 h3 h4
  show ?thesis by simp
qed

text \<open>
  C5 as stated fails. On the single-year sample with a demand of 60 in each bucket the
  assignment \<open>short_pool\<close> is the optimum of the generated model: 1.2 vehicles bought and
  0.6 used in each bucket. The purchase rounds to 1 vehicle and each Use count to 1. The
  duty of D1 takes the vehicle, the duty of D2 finds the pool empty: the plan has no Use
  row for D2, and the run prints its usual lines and reports nothing else.
\<close>

theorem depleted_pool_counterexample:
  "build_model (build_index (single_year 1000 60 60)) =
     Inr (single_vars, single_model 1000 60 60) \<and>
   optimal (single_model 1000 60 60) short_pool \<and>
   use_vars single_vars (2023, ''BEV'', ''S1'', ''D2'', ''Electricity'') = Some 4 \<and>
   py_round (short_pool 4) = 1 \<and>
   solve_optimization (single_year 1000 60 60) short_pool_solver =
     Inr \<lparr>stdout = [Loading_data, Data_loaded, Creating_variables, Adding_constraints,
                    Solving_with 6 7, Solver_status True ''Optimal'', Submission_saved],
          submission = Some [buy_row 2023 (''BEV'', ''S1'', 2023) 1,
             use_row 2023 ''D1'' ''Electricity'' 60 (''BEV'', ''S1'', 2023) 1]\<rparr>"
  by (simp add: single_year_model optimal_short_pool single_vars_fields short_pool_values
      py_round_samples run_short_pool)

text \<open>
  C6. Two runs of the decoder on the same parameters and variable index give the same
  rows in the same order whenever the two assignments agree after rounding and carry the
  same Km values: the decoder reads an assignment only through the rounded counts and
  the distances.
\<close>

theorem decode_deterministic:
  assumes "\<forall>i. py_round (x i) = py_round (x' i)"
    and "\<forall>k i. km_vars vs k = Some i \<longrightarrow> x i = x' i"
  shows "decode p vs x = decode p vs x'"
  using assms by (intro decode_same) auto

theorem decode_deterministic_witness:
  "(\<forall>i. py_round (rounded_down i) = py_round (whole_counts i)) \<and>
   \<not> (\<exists>k i. km_vars single_vars k = Some i \<and> rounded_down i \<noteq> whole_counts i) \<and>
   rounded_down 0 \<noteq> whole_counts 0 \<and>
   decode (build_index (single_year 1000 125 40)) single_vars rounded_down =
   decode (build_index (single_year 1000 125 40)) single_vars whole_counts"
proof -
  have h1: "\<forall>i. py_round (rounded_down i) = py_round (whole_counts i)"
    by (simp add: rounded_down_def whole_counts_def vector_def nth_Cons' py_round_samples)
  have h2: "\<forall>k i. km_vars single_vars k = Some i \<longrightarrow> rounded_down i = whole_counts i"
    by (simp add: single_vars_fields rounded_down_values whole_counts_values split: if_splits)
  have h3: "rounded_down 0 \<noteq> whole_counts 0"
    by (simp add: rounded_down_values whole_counts_values)
  from decode_deterministic [OF h1 h2, of "build_index (single_year 1000 125 40)"] h1 h2 h3
  show ?thesis by blast
qed

text \<open>
  C7. The claim holds for the validator, which rejects a Use row whose distance per vehicle
  exceeds the yearly range by more than 0.1, and fails for the decoder. On the single-year
  sample with demands 125 and 40 the assignment \<open>rounded_down\<close> is the optimum of the
  generated model, in particular \<open>Km \<le> Use * range\<close> holds with Use = 1.25, Km = 125
  and range 100; the decoder rounds the Use count to 1 and emits a Use row with 125 per
  vehicle for a batch whose yearly range is 100.
\<close>

theorem range_exceeded_after_rounding:
  "build_model (build_index (single_year 1000 125 40)) = Inr (single_vars, single_model 1000 125 40) \<and>
   optimal (single_model 1000 125 40) rounded_down \<and>
   rounded_down 3 \<le> rounded_down 2 * 100 \<and>
   decode (build_index (single_year 1000 125 40)) single_vars rounded_down =
     Inr [buy_row 2023 (''BEV'', ''S1'', 2023) 2,
          use_row 2023 ''D1'' ''Electricity'' 125 (''BEV'', ''S1'', 2023) 1] \<and>
   distance_per_vehicle (use_row 2023 ''D1'' ''Electricity'' 125 (''BEV'', ''S1'', 2023) 1)
     = Some 125 \<and>
   vehicle_range (build_index (single_year 1000 125 40)) (''BEV'', ''S1'', 2023) = Some 100"
  by (simp add: single_year_model optimal_rounded_down decode_rounded_down
      rounded_down_values use_row_def single_year_index)

text \<open>
  C8, as the code has it. When the solver reports no success on the generated model, for
  whatever reason, the run prints the solver's status and message and the line
  \<^verbatim>\<open>Optimization failed!\<close> and returns: no plan row is handed to the writer, no exception
  is raised and no error value returned. The solver is asked once, about the generated
  model; what it would answer about any other model plays no part.
\<close>

theorem failed_solve_emits_nothing:
  assumes "build_model (build_index dat) = Inr (vs, m)" and "\<not> success (solver m)"
  shows "solve_optimization dat solver =
           Inr \<lparr>stdout = [Loading_data, Data_loaded, Creating_variables, Adding_constraints,
                          Solving_with (length (var_names m)) (constraint_count m),
                          Solver_status False (message (solver m)), Optimization_failed],
                submission = None\<rparr>"
  using assms by (rule solve_optimization_failed)

theorem failed_solve_emits_nothing_witness:
  "build_model (build_index (single_year 100 125 40)) = Inr (single_vars, single_model 100 125 40) \<and>
   \<not> success (no_solution (single_model 100 125 40)) \<and>
   solve_optimization (single_year 100 125 40) no_solution =
     Inr \<lparr>stdout = [Loading_data, Data_loaded, Creating_variables, Adding_constraints,
                    Solving_with (length (var_names (single_model 100 125 40)))
                      (constraint_count (single_model 100 125 40)),
                    Solver_status False (message (no_solution (single_model 100 125 40))),
                    Optimization_failed],
          submission = None\<rparr>"
proof -
  have h1: "build_model (build_index (single_year 100 125 40)) = Inr (single_vars, single_model 100 125 40)"
    by (rule single_year_model)
  have h2: "\<not> success (no_solution (single_model 100 125 40))"
    by (simp add: no_solution_def)
  from failed_solve_emits_nothing [of "single_year 100 125 40" single_vars "single_model 100 125 40"
      no_solution, OF h1 h2] h1 h2
  show ?thesis by simp
qed

text \<open>
  C8 as stated fails. With an emission cap of 100 the single-year sample has no feasible
  plan, since its demand of 165 km emits 495. A solver that reports this makes
  \<^verbatim>\<open>solve_optimization\<close> return normally: the result is not an error.
\<close>

theorem infeasible_run_counterexample:
  "solve_optimization (single_year 100 125 40) no_solution =
     Inr \<lparr>stdout = [Loading_data, Data_loaded, Creating_variables, Adding_constraints,
                    Solving_with 6 7, Solver_status False ''Infeasible'', Optimization_failed],
          submission = None\<rparr>"
  by (rule run_no_solution)

text \<open>
  C9. The allocation loop of the decoder keeps the pool sound. Started on a pool whose
  remaining counts are non-negative, for a duty with a positive rounded Use count, it
  leaves every batch in place with a remaining count that is non-negative and not larger
  than before; every Use row it emits has a strictly positive vehicle count that is at most
  the prior remaining count of its batch; the vehicles handed out are exactly those taken
  from the pool; and their total never exceeds the rounded Use count.
\<close>

theorem allocate_pool_invariant:
  assumes "list_all (\<lambda>(i, c). 0 \<le> c) pool" and "0 < needed"
    and "allocate t d f avg_km pool needed = (rows, pool')"
  shows "list_all2 (\<lambda>(i, c) (i', c'). i' = i \<and> 0 \<le> c' \<and> c' \<le> c) pool pool' \<and>
         list_all (\<lambda>r. row_type r = Use \<and> 0 < num_vehicles r \<and>
                        (\<exists>c. (vid r, c) \<in> set pool \<and> num_vehicles r \<le> c)) rows \<and>
         sum_list (map snd pool') + sum_list (map num_vehicles rows) = sum_list (map snd pool) \<and>
         sum_list (map num_vehicles rows) \<le> needed"
proof -
  have needed: "0 \<le> needed" using assms(2) by simp
  note total = allocate_total [OF assms(1) needed assms(3)]
  have "list_all2 (\<lambda>(i, c) (i', c'). i' = i \<and> 0 \<le> c' \<and> c' \<le> c) pool pool'"
    using assms(1,3) by (rule allocate_counts)
  moreover have "list_all (\<lambda>r. row_type r = Use \<and> 0 < num_vehicles r \<and>
                        (\<exists>c. (vid r, c) \<in> set pool \<and> num_vehicles r \<le> c)) rows"
    using allocate_rows [OF assms(3)] by (simp add: list_all_iff)
  moreover have "sum_list (map snd pool') + sum_list (map num_vehicles rows) = sum_list (map snd pool)"
    using total by simp
  moreover have "sum_list (map num_vehicles rows) \<le> needed"
    using total by simp
  ultimately show ?thesis by simp
qed

theorem allocate_pool_invariant_witness:
  "list_all (\<lambda>(i, c). 0 \<le> c) two_batches \<and> (0::int) < 3 \<and>
   allocate 2024 ''D1'' ''Electricity'' 50 two_batches 3 =
     ([use_row 2024 ''D1'' ''Electricity'' 50 (''BEV'', ''S1'', 2023) 1,
       use_row 2024 ''D1'' ''Electricity'' 50 (''BEV'', ''S1'', 2024) 2],
      [((''BEV'', ''S1'', 2023), 0), ((''BEV'', ''S1'', 2024), 1)]) \<and>
   sum_list (map num_vehicles
     [use_row 2024 ''D1'' ''Electricity'' 50 (''BEV'', ''S1'', 2023) 1,
      use_row 2024 ''D1'' ''Electricity'' 50 (''BEV'', ''S1'', 2024) 2]) \<le> 3"
proof -
  have h1: "list_all (\<lambda>(i, c). 0 \<le> c) two_batches"
    by (simp add: two_batches_def)
  have h2: "(0::int) < 3" by simp
  have h3: "allocate 2024 ''D1'' ''Electricity'' 50 two_batches 3 =
     ([use_row 2024 ''D1'' ''Electricity'' 50 (''BEV'', ''S1'', 2023) 1,
       use_row 2024 ''D1'' ''Electricity'' 50 (''BEV'', ''S1'', 2024) 2],
      [((''BEV'', ''S1'', 2023), 0), ((''BEV'', ''S1'', 2024), 1)])"
    by (simp add: two_batches_def)
  from allocate_pool_invariant [OF h1 h2 h3] h1 h2 h3 show ?thesis by simp
qed

text \<open>
  C10. The decoder never divides by zero, whatever the assignment: the division of the
  total distance by the rounded Use count is the only division it performs and it stands
  under the test that the count is positive. Every Use row of a decoded plan belongs to a
  duty whose Use variable rounds to a positive count; a duty whose count rounds to zero
  (or below) gets no Use row.
\<close>

theorem decoder_division_guarded:
  "decode p vs x \<noteq> Inl ZeroDivisionError \<and>
   (decode p vs x = Inr rows \<longrightarrow>
      list_all (\<lambda>r. row_type r = Use \<longrightarrow> duty_positive vs x r) rows)"
proof -
  have "list_all (\<lambda>r. row_type r = Use \<longrightarrow> duty_positive vs x r) rows"
    if "decode p vs x = Inr rows"
    using decode_rows [OF that] by (simp add: use_rows_def)
  then show ?thesis using decode_no_zero_division [of p vs x] by blast
qed

theorem decoder_division_guarded_witness:
  "use_vars single_vars (2023, ''BEV'', ''S1'', ''D2'', ''Electricity'') = Some 4 \<and>
   py_round (rounded_down 4) = 0 \<and>
   decode (build_index (single_year 1000 125 40)) single_vars rounded_down =
     Inr [buy_row 2023 (''BEV'', ''S1'', 2023) 2,
          use_row 2023 ''D1'' ''Electricity'' 125 (''BEV'', ''S1'', 2023) 1] \<and>
   list_all (\<lambda>r. row_type r = Use \<longrightarrow> duty_positive single_vars rounded_down r)
     [buy_row 2023 (''BEV'', ''S1'', 2023) 2,
      use_row 2023 ''D1'' ''Electricity'' 125 (''BEV'', ''S1'', 2023) 1]"
proof -
  have run: "decode (build_index (single_year 1000 125 40)) single_vars rounded_down =
     Inr [buy_row 2023 (''BEV'', ''S1'', 2023) 2,
          use_row 2023 ''D1'' ''Electricity'' 125 (''BEV'', ''S1'', 2023) 1]"
    by (rule decode_rounded_down)
  have zero: "py_round (rounded_down 4) = 0"
    by (simp add: rounded_down_values py_round_samples)
  have var: "use_vars single_vars (2023, ''BEV'', ''S1'', ''D2'', ''Electricity'') = Some 4"
    by (simp add: single_vars_fields)
  from decoder_division_guarded [of "build_index (single_year 1000 125 40)" single_vars rounded_down
      "[buy_row 2023 (''BEV'', ''S1'', 2023) 2,
        use_row 2023 ''D1'' ''Electricity'' 125 (''BEV'', ''S1'', 2023) 1]"] run zero var
  show ?thesis by blast
qed

end
